(* ===== verification/Prelude.thy ===== *)
theory Prelude
  imports Main "HOL-Library.Word"
begin

text \<open>
  The vocabulary that every component of the development shares: machine integers of the widths
  the C sources use, the ways in which a C program stops without returning (\<open>fault\<close>), the
  result type of every modelled operation, sequencing of results, overwriting a range of a
  byte list, and the byte order of 32-bit integers on the wire and in memory.
\<close>

unbundle bit_operations_syntax

named_theorems mem_simps \<open>symbolic execution of the memory operations\<close>
named_theorems size_simps \<open>evaluation of the size functions on well-formed data\<close>
named_theorems wire_simps \<open>length and shape of the wire encodings\<close>

type_synonym u8 = "8 word"
type_synonym u16 = "16 word"
type_synonym u32 = "32 word"
type_synonym size_t = "64 word"
type_synonym bytes = "u8 list"

section \<open>Results\<close>

text \<open>
  What can happen instead of a return. The first five are undefined behaviour that a process
  does not survive in a defined way; \<open>Aborted\<close> and \<open>Exited\<close> are the library calls
  \<open>abort()\<close> and \<open>exit(code)\<close>; \<open>Diverges\<close> is a loop that never ends.
\<close>

datatype fault =
    NullDeref
  | OutOfBounds
  | DeadBlock
  | BadFree
  | SignedOverflow
  | StackOverflow
  | Aborted
  | Exited nat
  | Diverges

type_synonym 'a res = "fault + 'a"

definition bind_res :: "'a res \<Rightarrow> ('a \<Rightarrow> 'b res) \<Rightarrow> 'b res" where
  "bind_res r f = (case r of Inl e \<Rightarrow> Inl e | Inr x \<Rightarrow> f x)"

fun ok :: "'a res \<Rightarrow> bool" where
  "ok (Inr x) = True"
| "ok (Inl e) = False"

section \<open>Overwriting a range of a list\<close>

definition write_at :: "nat \<Rightarrow> 'a list \<Rightarrow> 'a list \<Rightarrow> 'a list" where
  "write_at i xs c = take i c @ xs @ drop (i + length xs) c"

section \<open>Byte order\<close>

definition le_bytes :: "u32 \<Rightarrow> bytes" where
  "le_bytes w = [ucast w, ucast (drop_bit 8 w), ucast (drop_bit 16 w), ucast (drop_bit 24 w)]"

fun le_word :: "bytes \<Rightarrow> u32" where
  "le_word [a, b, c, d] =
     ucast a OR push_bit 8 (ucast b) OR push_bit 16 (ucast c) OR push_bit 24 (ucast d)"
| "le_word _ = 0"

definition be_bytes :: "u32 \<Rightarrow> bytes" where
  "be_bytes w = rev (le_bytes w)"

definition be_word :: "bytes \<Rightarrow> u32" where
  "be_word bs = le_word (rev bs)"

definition bswap32 :: "u32 \<Rightarrow> u32" where
  "bswap32 w = le_word (be_bytes w)"

section \<open>Lemmas\<close>

lemma bind_res_simps [simp]:
  "bind_res (Inl e) f = Inl e"
  "bind_res (Inr x) f = f x"
  by (simp_all add: bind_res_def)

lemma bind_res_assoc:
  "bind_res (bind_res r f) g = bind_res r (\<lambda>x. bind_res (f x) g)"
  by (cases r) simp_all

lemma bind_res_eq_Inr:
  "bind_res r f = Inr y \<longleftrightarrow> (\<exists>x. r = Inr x \<and> f x = Inr y)"
  by (cases r) simp_all

lemma ok_iff: "ok r \<longleftrightarrow> (\<exists>x. r = Inr x)"
  by (cases r) simp_all

lemma write_at_Nil [simp]: "write_at i [] c = c"
  by (simp add: write_at_def)

lemma length_write_at [simp]:
  "i + length xs \<le> length c \<Longrightarrow> length (write_at i xs c) = length c"
  by (simp add: write_at_def)

lemma write_at_write_at:
  assumes "i + length xs \<le> length c"
  shows "write_at (i + length xs) ys (write_at i xs c) = write_at i (xs @ ys) c"
  using assms by (cases xs) (auto simp: write_at_def min_def ac_simps)

lemma take_drop_write_at:
  "i + length xs \<le> length c \<Longrightarrow> take (length xs) (drop i (write_at i xs c)) = xs"
  by (simp add: write_at_def)

lemma write_at_all: "length xs = length c \<Longrightarrow> write_at 0 xs c = xs"
  by (simp add: write_at_def)

lemma write_at_snoc:
  assumes "i + length xs < length c"
  shows "write_at (i + length xs) [y] (write_at i xs c) = write_at i (xs @ [y]) c"
  using assms by (intro write_at_write_at) simp

lemma length_le_bytes [simp]: "length (le_bytes w) = 4"
  by (simp add: le_bytes_def)

lemma length_be_bytes [simp]: "length (be_bytes w) = 4"
  by (simp add: be_bytes_def)

lemma be_bytes_not_Nil [simp]: "be_bytes w \<noteq> []"
  using length_be_bytes [of w] by fastforce

lemma le_word_le_bytes [simp]: "le_word (le_bytes w) = w"
proof (rule bit_word_eqI)
  fix n
  assume "n < LENGTH(32)"
  then consider "n < 8" | "8 \<le> n" "n < 16" | "16 \<le> n" "n < 24" | "24 \<le> n" "n < 32"
    by simp linarith
  then show "bit (le_word (le_bytes w)) n \<longleftrightarrow> bit w n"
    by cases (auto simp: le_bytes_def bit_simps)
qed

lemma le_bytes_le_word [simp]:
  assumes "length bs = 4"
  shows "le_bytes (le_word bs) = bs"
proof (cases bs rule: le_word.cases)
  case (1 a b c d)
  have high: "\<not> bit x (8 + n)" "\<not> bit x (16 + n)" "\<not> bit x (24 + n)" for x :: u8 and n
    by (auto dest: bit_imp_le_length)
  show ?thesis
    unfolding 1 by (auto simp: le_bytes_def bit_simps high intro!: bit_word_eqI)
qed (use assms in simp_all)

lemma be_word_be_bytes [simp]: "be_word (be_bytes w) = w"
  by (simp add: be_word_def be_bytes_def)

lemma be_bytes_be_word [simp]: "length bs = 4 \<Longrightarrow> be_bytes (be_word bs) = bs"
  by (simp add: be_word_def be_bytes_def)

lemma be_bytes_inject [simp]: "be_bytes v = be_bytes w \<longleftrightarrow> v = w"
  by (metis be_word_be_bytes)

lemma le_bytes_bswap32 [simp]: "le_bytes (bswap32 w) = be_bytes w"
  by (simp add: bswap32_def)

lemma bswap32_bswap32 [simp]: "bswap32 (bswap32 w) = w"
  by (simp add: bswap32_def be_bytes_def [of "le_word _"]) (simp add: be_bytes_def)

lemma bswap32_le_word: "length bs = 4 \<Longrightarrow> bswap32 (le_word bs) = be_word bs"
  by (simp add: bswap32_def be_word_def be_bytes_def)

lemma unat_of_nat_size [simp]: "n < 2 ^ 64 \<Longrightarrow> unat (of_nat n :: size_t) = n"
  by (simp add: unat_of_nat take_bit_nat_eq_self)

lemma drop_append_prefix: "drop i c = xs @ ys \<Longrightarrow> drop (i + length xs) c = ys"
  by (metis add.commute append_eq_conv_conj drop_drop)

lemma drop_eq_append_le:
  "drop i c = xs @ ys \<Longrightarrow> i \<le> length c \<or> xs = []"
  by (metis append_is_Nil_conv drop_all linorder_le_cases)

section \<open>Conversions between widths\<close>

lemma unat_ucast_down:
  assumes "unat (n :: size_t) < 2 ^ 32"
  shows "unat (ucast n :: u32) = unat n"
  by (simp add: unsigned_ucast_eq) (rule take_bit_nat_eq_self, use assms in simp)

lemma unat_ucast_32_64 [simp]: "unat (ucast (w :: u32) :: size_t) = unat w"
  by (simp add: unsigned_ucast_eq take_bit_nat_eq_self less_le_trans [OF unsigned_less])

lemma unat_u32_less: "unat (w :: u32) < 2 ^ 32"
  using unsigned_less [of w, where ?'a = nat] by simp

lemma ucast_32_64_32 [simp]: "ucast (ucast (w :: u32) :: size_t) = w"
proof (rule word_unat_eq_iff [THEN iffD2], rule trans [OF unat_ucast_down])
  show "unat (ucast w :: size_t) < 2 ^ 32" "unat (ucast w :: size_t) = unat w"
    using unsigned_less [of w] by simp_all
qed

lemma ucast_of_nat_64_32:
  assumes "n < 2 ^ 32"
  shows "ucast (of_nat n :: size_t) = (of_nat n :: u32)"
proof (rule word_unat_eq_iff [THEN iffD2])
  have "unat (ucast (of_nat n :: size_t) :: u32) = n"
    using assms by (subst unat_ucast_down) simp_all
  with assms show "unat (ucast (of_nat n :: size_t) :: u32) = unat (of_nat n :: u32)"
    by (simp add: unat_of_nat take_bit_nat_eq_self)
qed

lemma sint_u32_small:
  assumes "unat (n :: u32) < 2 ^ 31"
  shows "sint n = int (unat n)"
proof -
  have "int (unat n) < int (2 ^ 31)"
    using assms by (simp only: of_nat_less_iff)
  moreover have "- (2 ^ 31) \<le> uint n"
    by (rule order_trans [of _ 0]) simp_all
  ultimately have "signed_take_bit 31 (uint n) = uint n"
    by (intro signed_take_bit_int_eq_self) simp_all
  then show ?thesis
    by (simp add: sint_uint)
qed

lemma sint_ucast_small:
  assumes "unat (n :: size_t) < 2 ^ 31"
  shows "sint (ucast n :: 32 word) = int (unat n)"
  using assms sint_u32_small [of "ucast n"] unat_ucast_down [of n] by simp

lemma sint_u32_large:
  assumes "2 ^ 31 \<le> unat (n :: u32)"
  shows "sint n = int (unat n) - 2 ^ 32"
proof -
  have b: "2 ^ 31 \<le> uint n" "uint n < 2 ^ 32"
    using assms [THEN iffD2 [OF of_nat_le_iff [where 'a = int]]] uint_bounded [of n] by simp_all
  have "sint n = signed_take_bit 31 (uint n)"
    by (simp add: sint_uint)
  also have "\<dots> = signed_take_bit 31 (uint n - 2 ^ 32)"
    by (simp add: signed_take_bit_eq_iff_take_bit_eq take_bit_eq_mod)
  also have "\<dots> = uint n - 2 ^ 32"
    using b by (intro signed_take_bit_int_eq_self) simp_all
  finally show ?thesis
    by simp
qed

end
