(* ===== verification/CMem.thy ===== *)
theory CMem
  imports Prelude
begin

text \<open>
  The part of the C language and of its standard library that the sources use on memory:
  pointers into allocated blocks, \<open>malloc\<close>, \<open>free\<close>, \<open>memcpy\<close>, \<open>strlen\<close>,
  \<open>strcmp\<close>, objects with automatic or static storage whose address is taken, the bytes of a
  \<open>uint32_t\<close> object and \<open>htonl\<close>/\<open>ntohl\<close>.

  A block is a list of bytes; a pointer is a block number and an offset into the block. Block
  numbers are never reused, so an access through a pointer to a freed block is recognised
  (\<open>DeadBlock\<close>). An access of no bytes touches nothing, whatever the pointer. The allocator may
  refuse any single request (\<open>alloc_ok\<close>, indexed by the number of the request), fresh memory
  holds arbitrary bytes (\<open>junk\<close>), and the byte order of the host is a parameter
  (\<open>host_be\<close>). \<open>size_t\<close> is 64 bits wide and \<open>int\<close> 32, as on the LP64 hosts
  the build targets.
\<close>

section \<open>The memory\<close>

datatype ptr = NULL | Ptr nat nat

record mem =
  blocks :: "nat \<Rightarrow> bytes option"
  autos :: "nat \<Rightarrow> bool"
  nxt :: nat
  alloc_ok :: "nat \<Rightarrow> nat \<Rightarrow> bool"
  junk :: "nat \<Rightarrow> nat \<Rightarrow> u8"
  host_be :: bool
  stack_size :: nat

fun padd :: "ptr \<Rightarrow> nat \<Rightarrow> ptr" where
  "padd NULL n = NULL"
| "padd (Ptr b i) n = Ptr b (i + n)"

definition load :: "ptr \<Rightarrow> nat \<Rightarrow> 'z mem_scheme \<Rightarrow> bytes res" where
  "load p n m =
     (if n = 0 then Inr []
      else case p of
        NULL \<Rightarrow> Inl NullDeref
      | Ptr b i \<Rightarrow>
          (case blocks m b of
             None \<Rightarrow> Inl DeadBlock
           | Some c \<Rightarrow> if i + n \<le> length c then Inr (take n (drop i c)) else Inl OutOfBounds))"

definition put :: "nat \<Rightarrow> nat \<Rightarrow> bytes \<Rightarrow> 'z mem_scheme \<Rightarrow> 'z mem_scheme" where
  "put b i bs m = m\<lparr>blocks := (blocks m)(b := map_option (write_at i bs) (blocks m b))\<rparr>"

definition store :: "ptr \<Rightarrow> bytes \<Rightarrow> 'z mem_scheme \<Rightarrow> 'z mem_scheme res" where
  "store p bs m =
     (if bs = [] then Inr m
      else case p of
        NULL \<Rightarrow> Inl NullDeref
      | Ptr b i \<Rightarrow>
          (case blocks m b of
             None \<Rightarrow> Inl DeadBlock
           | Some c \<Rightarrow> if i + length bs \<le> length c then Inr (put b i bs m) else Inl OutOfBounds))"

definition memcpy :: "ptr \<Rightarrow> ptr \<Rightarrow> size_t \<Rightarrow> 'z mem_scheme \<Rightarrow> 'z mem_scheme res" where
  "memcpy dst src n m = bind_res (load src (unat n) m) (\<lambda>bs. store dst bs m)"

definition new_block :: "bool \<Rightarrow> bytes \<Rightarrow> 'z mem_scheme \<Rightarrow> 'z mem_scheme" where
  "new_block auto bs m =
     m\<lparr>blocks := (blocks m)(nxt m \<mapsto> bs), autos := (autos m)(nxt m := auto), nxt := Suc (nxt m)\<rparr>"

definition kill_block :: "nat \<Rightarrow> 'z mem_scheme \<Rightarrow> 'z mem_scheme" where
  "kill_block b m = m\<lparr>blocks := (blocks m)(b := None)\<rparr>"

definition junk_bytes :: "nat \<Rightarrow> 'z mem_scheme \<Rightarrow> bytes" where
  "junk_bytes n m = map (junk m (nxt m)) [0..<n]"

definition malloc :: "size_t \<Rightarrow> 'z mem_scheme \<Rightarrow> ptr \<times> 'z mem_scheme" where
  "malloc n m =
     (if alloc_ok m (nxt m) (unat n)
      then (Ptr (nxt m) 0, new_block False (junk_bytes (unat n) m) m)
      else (NULL, m\<lparr>nxt := Suc (nxt m)\<rparr>))"

definition free :: "ptr \<Rightarrow> 'z mem_scheme \<Rightarrow> 'z mem_scheme res" where
  "free p m =
     (case p of
        NULL \<Rightarrow> Inr m
      | Ptr b i \<Rightarrow>
          (if i \<noteq> 0 \<or> autos m b \<or> blocks m b = None then Inl BadFree else Inr (kill_block b m)))"

definition strlen :: "ptr \<Rightarrow> 'z mem_scheme \<Rightarrow> size_t res" where
  "strlen p m =
     (case p of
        NULL \<Rightarrow> Inl NullDeref
      | Ptr b i \<Rightarrow>
          (case blocks m b of
             None \<Rightarrow> Inl DeadBlock
           | Some c \<Rightarrow>
               (let s = takeWhile (\<lambda>x. x \<noteq> 0) (drop i c)
                in if i + length s < length c then Inr (of_nat (length s)) else Inl OutOfBounds)))"

fun strcmp_bytes :: "bytes \<Rightarrow> bytes \<Rightarrow> int res" where
  "strcmp_bytes (a # as) (b # bs) =
     (if a = b then (if a = 0 then Inr 0 else strcmp_bytes as bs)
      else Inr (if a < b then -1 else 1))"
| "strcmp_bytes _ _ = Inl OutOfBounds"

definition tail_at :: "ptr \<Rightarrow> 'z mem_scheme \<Rightarrow> bytes res" where
  "tail_at p m =
     (case p of
        NULL \<Rightarrow> Inl NullDeref
      | Ptr b i \<Rightarrow> (case blocks m b of None \<Rightarrow> Inl DeadBlock | Some c \<Rightarrow> Inr (drop i c)))"

definition strcmp :: "ptr \<Rightarrow> ptr \<Rightarrow> 'z mem_scheme \<Rightarrow> int res" where
  "strcmp p q m = bind_res (tail_at p m) (\<lambda>s. bind_res (tail_at q m) (\<lambda>t. strcmp_bytes s t))"

text \<open>The characters a pointer argument of a library function designates.\<close>

definition read_cstr :: "ptr \<Rightarrow> 'z mem_scheme \<Rightarrow> bytes res" where
  "read_cstr p m =
     bind_res (tail_at p m) (\<lambda>t. if 0 \<in> set t then Inr (takeWhile (\<lambda>x. x \<noteq> 0) t) else Inl OutOfBounds)"

section \<open>Objects of type uint32\_t\<close>

definition obj_bytes :: "'z mem_scheme \<Rightarrow> u32 \<Rightarrow> bytes" where
  "obj_bytes m w = (if host_be m then be_bytes w else le_bytes w)"

definition obj_word :: "'z mem_scheme \<Rightarrow> bytes \<Rightarrow> u32" where
  "obj_word m bs = (if host_be m then be_word bs else le_word bs)"

definition htonl :: "'z mem_scheme \<Rightarrow> u32 \<Rightarrow> u32" where
  "htonl m w = (if host_be m then w else bswap32 w)"

definition ntohl :: "'z mem_scheme \<Rightarrow> u32 \<Rightarrow> u32" where
  "ntohl m w = (if host_be m then w else bswap32 w)"

section \<open>Assertions on a memory\<close>

text \<open>
  \<open>cstr m p s\<close>: \<open>p\<close> points to the characters \<open>s\<close> followed by the terminating zero.
  \<open>cbytes m p bs\<close>: the bytes \<open>bs\<close> can be read at \<open>p\<close>. \<open>room m b i n\<close>: block
  \<open>b\<close> is live and holds \<open>n\<close> bytes from offset \<open>i\<close>. \<open>wf_mem\<close>: no block is larger
  than the address space and the numbers from \<open>nxt\<close> on are unused. \<open>no_oom\<close>: the
  allocator grants every request. \<open>grows m A m'\<close>: between \<open>m\<close> and \<open>m'\<close> no old block
  was touched, and the new blocks that are still live are exactly those in \<open>A\<close>.
\<close>

definition cstr :: "'z mem_scheme \<Rightarrow> ptr \<Rightarrow> bytes \<Rightarrow> bool" where
  "cstr m p s \<longleftrightarrow>
     (case p of
        NULL \<Rightarrow> False
      | Ptr b i \<Rightarrow>
          (case blocks m b of
             None \<Rightarrow> False
           | Some c \<Rightarrow>
               i + length s < length c \<and> take (Suc (length s)) (drop i c) = s @ [0] \<and> 0 \<notin> set s))"

definition cbytes :: "'z mem_scheme \<Rightarrow> ptr \<Rightarrow> bytes \<Rightarrow> bool" where
  "cbytes m p bs \<longleftrightarrow> load p (length bs) m = Inr bs"

definition room :: "'z mem_scheme \<Rightarrow> nat \<Rightarrow> nat \<Rightarrow> nat \<Rightarrow> bool" where
  "room m b i n \<longleftrightarrow> (case blocks m b of None \<Rightarrow> False | Some c \<Rightarrow> i + n \<le> length c)"

fun in_block :: "nat \<Rightarrow> ptr \<Rightarrow> bool" where
  "in_block b NULL = False"
| "in_block b (Ptr b' i) = (b = b')"

definition wf_mem :: "'z mem_scheme \<Rightarrow> bool" where
  "wf_mem m \<longleftrightarrow> (\<forall>b c. blocks m b = Some c \<longrightarrow> length c < 2 ^ 64 \<and> b < nxt m)"

definition no_oom :: "'z mem_scheme \<Rightarrow> bool" where
  "no_oom m \<longleftrightarrow> (\<forall>i n. alloc_ok m i n)"

definition grows :: "'z mem_scheme \<Rightarrow> nat set \<Rightarrow> 'z mem_scheme \<Rightarrow> bool" where
  "grows m A m' \<longleftrightarrow>
     nxt m \<le> nxt m' \<and>
     (\<forall>b < nxt m. blocks m' b = blocks m b \<and> autos m' b = autos m b) \<and>
     {b. nxt m \<le> b \<and> blocks m' b \<noteq> None} = A \<and> (\<forall>b\<in>A. \<not> autos m' b) \<and>
     alloc_ok m' = alloc_ok m \<and> junk m' = junk m \<and> host_be m' = host_be m \<and>
     stack_size m' = stack_size m"


section \<open>What the operations change\<close>

lemma fields_put [simp]:
  "nxt (put b i bs m) = nxt m" "autos (put b i bs m) = autos m"
  "alloc_ok (put b i bs m) = alloc_ok m" "junk (put b i bs m) = junk m"
  "host_be (put b i bs m) = host_be m" "stack_size (put b i bs m) = stack_size m"
  "mem.more (put b i bs m) = mem.more m" "no_oom (put b i bs m) = no_oom m"
  by (simp_all add: put_def no_oom_def)

lemma blocks_put [simp]:
  "blocks (put b i bs m) b' = (if b' = b then map_option (write_at i bs) (blocks m b) else blocks m b')"
  by (simp add: put_def)

lemma fields_new_block [simp]:
  "nxt (new_block a bs m) = Suc (nxt m)" "autos (new_block a bs m) = (autos m)(nxt m := a)"
  "alloc_ok (new_block a bs m) = alloc_ok m" "junk (new_block a bs m) = junk m"
  "host_be (new_block a bs m) = host_be m" "stack_size (new_block a bs m) = stack_size m"
  "mem.more (new_block a bs m) = mem.more m" "no_oom (new_block a bs m) = no_oom m"
  by (simp_all add: new_block_def no_oom_def)

lemma blocks_new_block [simp]:
  "blocks (new_block a bs m) b = (if b = nxt m then Some bs else blocks m b)"
  by (simp add: new_block_def)

lemma fields_kill_block [simp]:
  "nxt (kill_block b m) = nxt m" "autos (kill_block b m) = autos m"
  "alloc_ok (kill_block b m) = alloc_ok m" "junk (kill_block b m) = junk m"
  "host_be (kill_block b m) = host_be m" "stack_size (kill_block b m) = stack_size m"
  "mem.more (kill_block b m) = mem.more m" "no_oom (kill_block b m) = no_oom m"
  by (simp_all add: kill_block_def no_oom_def)

lemma blocks_kill_block [simp]:
  "blocks (kill_block b m) b' = (if b' = b then None else blocks m b')"
  by (simp add: kill_block_def)

lemma length_junk_bytes [simp]: "length (junk_bytes n m) = n"
  by (simp add: junk_bytes_def)

lemma junk_bytes_0 [simp]: "junk_bytes 0 m = []"
  by (simp add: junk_bytes_def)

lemma padd_0 [simp]: "padd p 0 = p"
  by (cases p) simp_all

lemma padd_padd [simp]: "padd (padd p i) j = padd p (i + j)"
  by (cases p) simp_all

section \<open>Symbolic execution\<close>

lemma put_Nil [simp]: "put b i [] m = m"
  by (cases "blocks m b") (simp_all add: put_def fun_upd_idem)

lemma put_put [mem_simps]:
  "room m b i (length xs) \<Longrightarrow> put b (i + length xs) ys (put b i xs m) = put b i (xs @ ys) m"
  by (auto simp: put_def room_def write_at_write_at split: option.splits)

lemma put_new_block [mem_simps]:
  "length bs = length c \<Longrightarrow> put (nxt m) 0 bs (new_block a c m) = new_block a bs m"
  by (simp add: put_def new_block_def write_at_all)

lemma room_mono: "room m b i n \<Longrightarrow> i + n \<ge> j + k \<Longrightarrow> room m b j k"
  by (auto simp: room_def split: option.splits)

lemma room_put [simp]: "room m b i (length bs) \<Longrightarrow> room (put b i bs m) b' j k = room m b' j k"
  by (auto simp: room_def split: option.splits)

lemma room_new_block [simp]:
  "room (new_block a c m) b i n = (if b = nxt m then i + n \<le> length c else room m b i n)"
  by (simp add: room_def)

lemma store_room [mem_simps]: "room m b i (length bs) \<Longrightarrow> store (Ptr b i) bs m = Inr (put b i bs m)"
  by (auto simp: store_def room_def split: option.splits)

lemma load_put_other [mem_simps]: "\<not> in_block b p \<Longrightarrow> load p n (put b i bs m) = load p n m"
  by (cases p) (auto simp: load_def)

lemma load_at [mem_simps]:
  "blocks m b = Some c \<Longrightarrow> i + n \<le> length c \<Longrightarrow> load (Ptr b i) n m = Inr (take n (drop i c))"
  by (simp add: load_def)

lemma malloc_no_oom [mem_simps]:
  "no_oom m \<Longrightarrow> malloc n m = (Ptr (nxt m) 0, new_block False (junk_bytes (unat n) m) m)"
  by (simp add: malloc_def no_oom_def)

lemma free_live [mem_simps]:
  "blocks m b = Some c \<Longrightarrow> \<not> autos m b \<Longrightarrow> free (Ptr b 0) m = Inr (kill_block b m)"
  by (simp add: free_def)

lemma free_NULL [simp]: "free NULL m = Inr m"
  by (simp add: free_def)

lemma free_twice: "free p m = Inr m' \<Longrightarrow> p \<noteq> NULL \<Longrightarrow> free p m' = Inl BadFree"
  by (auto simp: free_def split: ptr.splits if_splits)

lemma obj_bytes_htonl [mem_simps]: "obj_bytes m (htonl m w) = be_bytes w"
  by (simp add: obj_bytes_def htonl_def)

lemma obj_bytes_htonl' [mem_simps]:
  "host_be m' = host_be m \<Longrightarrow> obj_bytes m' (htonl m w) = be_bytes w"
  by (simp add: obj_bytes_def htonl_def)

lemma ntohl_obj_word [mem_simps]: "length bs = 4 \<Longrightarrow> ntohl m (obj_word m bs) = be_word bs"
  by (simp add: ntohl_def obj_word_def bswap32_le_word)

lemma ntohl_htonl: "ntohl m (htonl m w) = w"
  by (simp add: ntohl_def htonl_def)

lemma length_obj_bytes [simp]: "length (obj_bytes m w) = 4"
  by (simp add: obj_bytes_def)

section \<open>Strings and buffers\<close>

lemma cstr_Ptr:
  "cstr m (Ptr b i) s \<longleftrightarrow>
     (\<exists>c r. blocks m b = Some c \<and> i \<le> length c \<and> drop i c = s @ 0 # r \<and> 0 \<notin> set s)"
proof
  assume "cstr m (Ptr b i) s"
  then obtain c where c: "blocks m b = Some c" "i + length s < length c"
      "take (Suc (length s)) (drop i c) = s @ [0]" "0 \<notin> set s"
    by (auto simp: cstr_def split: option.splits)
  have "drop i c = take (Suc (length s)) (drop i c) @ drop (Suc (length s)) (drop i c)"
    by (rule append_take_drop_id [symmetric])
  with c show "\<exists>c r. blocks m b = Some c \<and> i \<le> length c \<and> drop i c = s @ 0 # r \<and> 0 \<notin> set s"
    by simp
next
  assume "\<exists>c r. blocks m b = Some c \<and> i \<le> length c \<and> drop i c = s @ 0 # r \<and> 0 \<notin> set s"
  then obtain c r where c: "blocks m b = Some c" "drop i c = s @ 0 # r" "0 \<notin> set s" "i \<le> length c"
    by blast
  then have "length c - i = length s + Suc (length r)"
    by (metis length_Cons length_append length_drop)
  with c show "cstr m (Ptr b i) s"
    by (simp add: cstr_def)
qed

lemma cstr_NULL [simp]: "\<not> cstr m NULL s"
  by (simp add: cstr_def)

lemma cstr_put_other [mem_simps]: "\<not> in_block b p \<Longrightarrow> cstr (put b i bs m) p s = cstr m p s"
  by (cases p) (auto simp: cstr_def)

lemma cbytes_put_other [mem_simps]: "\<not> in_block b p \<Longrightarrow> cbytes (put b i bs m) p bs' = cbytes m p bs'"
  by (simp add: cbytes_def load_put_other)

lemma cstr_length:
  assumes "wf_mem m" "cstr m p s"
  shows "length s + 1 < 2 ^ 64"
proof (cases p)
  case (Ptr b i)
  with assms obtain c where "blocks m b = Some c" "i + length s < length c"
    by (auto simp: cstr_def split: option.splits)
  moreover from this have "length c < 2 ^ 64"
    using assms(1) by (auto simp: wf_mem_def)
  ultimately show ?thesis by linarith
qed (use assms in simp)

lemma strlen_cstr [mem_simps]:
  assumes "cstr m p s"
  shows "strlen p m = Inr (of_nat (length s))"
proof (cases p)
  case (Ptr b i)
  with assms obtain c r where c: "blocks m b = Some c" "drop i c = s @ 0 # r" "0 \<notin> set s"
    by (auto simp: cstr_Ptr)
  from Ptr assms c(1) have "i + length s < length c"
    by (simp add: cstr_def)
  have "takeWhile (\<lambda>x. x \<noteq> 0) (s @ 0 # r) = s"
    using c(3) by (simp add: takeWhile_append takeWhile_eq_all_conv)
  with c Ptr \<open>i + length s < length c\<close> show ?thesis by (simp add: strlen_def)
qed (use assms in simp)

lemma load_cstr [mem_simps]: "cstr m p s \<Longrightarrow> load p (Suc (length s)) m = Inr (s @ [0])"
  by (auto simp: cstr_def load_def split: ptr.splits option.splits)

lemma unat_strlen_Suc [mem_simps]:
  "wf_mem m \<Longrightarrow> cstr m p s \<Longrightarrow> unat (of_nat (length s) + 1 :: size_t) = Suc (length s)"
  using cstr_length [of m p s] unat_of_nat_size [of "Suc (length s)"] by (simp add: add.commute)

lemma load_cbytes [mem_simps]: "cbytes m p bs \<Longrightarrow> load p (length bs) m = Inr bs"
  by (simp add: cbytes_def)

lemma cbytes_Cons:
  assumes "cbytes m p (x # xs)"
  shows "load p 1 m = Inr [x]" "cbytes m (padd p 1) xs"
proof -
  obtain b i c where c: "p = Ptr b i" "blocks m b = Some c" "i + Suc (length xs) \<le> length c"
      "take (Suc (length xs)) (drop i c) = x # xs"
    using assms by (cases p) (auto simp: cbytes_def load_def split: option.splits if_splits)
  moreover have "drop (Suc i) c = tl (drop i c)"
    by (simp only: drop_Suc tl_drop)
  ultimately have "drop i c = x # drop (Suc i) c" "take (length xs) (drop (Suc i) c) = xs"
    by (cases "drop i c"; simp)+
  with c show "load p 1 m = Inr [x]" "cbytes m (padd p 1) xs"
    by (simp_all add: load_def cbytes_def)
qed

lemma tail_at_cstr:
  assumes "cstr m p s"
  obtains r where "tail_at p m = Inr (s @ 0 # r)" "0 \<notin> set s"
  using assms by (cases p) (auto simp: cstr_Ptr tail_at_def)

lemma read_cstr_cstr [mem_simps]: "cstr m p s \<Longrightarrow> read_cstr p m = Inr s"
  by (erule tail_at_cstr) (auto simp: read_cstr_def takeWhile_append takeWhile_eq_all_conv)

lemma strcmp_bytes_cstr:
  "0 \<notin> set s \<Longrightarrow> 0 \<notin> set t \<Longrightarrow> \<exists>k. strcmp_bytes (s @ 0 # r) (t @ 0 # r') = Inr k \<and> (k = 0 \<longleftrightarrow> s = t)"
proof (induction s arbitrary: t)
  case Nil
  then show ?case by (cases t) auto
next
  case (Cons a s)
  then show ?case by (cases t) auto
qed

lemma strcmp_cstr:
  assumes "cstr m p s" "cstr m q t"
  obtains k where "strcmp p q m = Inr k" "k = 0 \<longleftrightarrow> s = t"
proof -
  obtain r where r: "tail_at p m = Inr (s @ 0 # r)" "0 \<notin> set s"
    using assms(1) by (rule tail_at_cstr)
  obtain r' where r': "tail_at q m = Inr (t @ 0 # r')" "0 \<notin> set t"
    using assms(2) by (rule tail_at_cstr)
  obtain k where "strcmp_bytes (s @ 0 # r) (t @ 0 # r') = Inr k" "k = 0 \<longleftrightarrow> s = t"
    using strcmp_bytes_cstr [OF r(2) r'(2)] by blast
  with r r' that show thesis
    by (simp add: strcmp_def)
qed

section \<open>Well-formed memories\<close>

lemma wf_mem_put [simp]: "wf_mem m \<Longrightarrow> room m b i (length bs) \<Longrightarrow> wf_mem (put b i bs m)"
  by (auto simp: wf_mem_def room_def split: if_splits option.splits)

lemma wf_mem_new_block [simp]: "wf_mem m \<Longrightarrow> length c < 2 ^ 64 \<Longrightarrow> wf_mem (new_block a c m)"
  by (auto simp: wf_mem_def less_Suc_eq)

lemma wf_mem_kill_block [simp]: "wf_mem m \<Longrightarrow> wf_mem (kill_block b m)"
  by (auto simp: wf_mem_def split: if_splits)

lemma wf_mem_live: "wf_mem m \<Longrightarrow> blocks m b = Some c \<Longrightarrow> b < nxt m"
  by (auto simp: wf_mem_def)

lemma wf_mem_length: "wf_mem m \<Longrightarrow> blocks m b = Some c \<Longrightarrow> length c < 2 ^ 64"
  by (auto simp: wf_mem_def)

section \<open>Growth\<close>

lemma grows_refl [simp]: "wf_mem m \<Longrightarrow> grows m {} m"
  by (auto simp: grows_def wf_mem_def not_less [symmetric])

lemma grows_new_block:
  assumes "grows m A m'" "wf_mem m'"
  shows "grows m (insert (nxt m') A) (new_block False c m')"
  using assms by (auto simp: grows_def)

lemma grows_kill_block:
  assumes "grows m A m'" "b \<in> A"
  shows "grows m (A - {b}) (kill_block b m')"
  using assms by (auto simp: grows_def)

lemma grows_put:
  assumes "grows m A m'" "b \<in> A"
  shows "grows m A (put b i bs m')"
  using assms by (auto simp: grows_def)

lemma grows_trans:
  assumes "grows m A m'" "grows m' B m''" "wf_mem m'"
  shows "grows m (A \<union> B) m''"
proof -
  have le: "nxt m \<le> nxt m'" "nxt m' \<le> nxt m''"
    using assms by (simp_all add: grows_def)
  have old: "b < nxt m'" if "b \<in> A" for b
    using assms(1,3) that by (auto simp: grows_def dest: wf_mem_live)
  have "blocks m'' b = (if b < nxt m' then blocks m' b else blocks m'' b)" for b
    using assms(2) by (auto simp: grows_def)
  with assms le old show ?thesis
    unfolding grows_def by (auto simp: not_less dest: old)
qed

lemma grows_free:
  assumes "grows m A m'" "b \<in> A"
  shows "free (Ptr b 0) m' = Inr (kill_block b m')"
  using assms by (auto simp: grows_def free_def)

lemma grows_weaken: "grows m A m' \<Longrightarrow> A = B \<Longrightarrow> grows m B m'"
  by simp

lemma grows_le: "grows m A m' \<Longrightarrow> nxt m \<le> nxt m'"
  by (simp add: grows_def)

lemma grows_new: "grows m A m' \<Longrightarrow> b \<in> A \<Longrightarrow> nxt m \<le> b"
  by (auto simp: grows_def)

lemma grows_old: "grows m A m' \<Longrightarrow> b < nxt m \<Longrightarrow> blocks m' b = blocks m b"
  by (simp add: grows_def)

section \<open>Old blocks stay as they are\<close>

definition keeps :: "'z mem_scheme \<Rightarrow> 'z mem_scheme \<Rightarrow> bool" where
  "keeps m m' \<longleftrightarrow> nxt m \<le> nxt m' \<and> (\<forall>b < nxt m. blocks m' b = blocks m b)"

lemma keeps_refl [simp]: "keeps m m"
  by (simp add: keeps_def)

lemma keeps_trans: "keeps m m' \<Longrightarrow> keeps m' m'' \<Longrightarrow> keeps m m''"
  by (auto simp: keeps_def)

lemma grows_keeps: "grows m A m' \<Longrightarrow> keeps m m'"
  by (simp add: grows_def keeps_def)

lemma keeps_new_block: "keeps m m' \<Longrightarrow> keeps m (new_block a c m')"
  by (auto simp: keeps_def)

lemma keeps_kill_block: "keeps m m' \<Longrightarrow> nxt m \<le> b \<Longrightarrow> keeps m (kill_block b m')"
  by (auto simp: keeps_def)

lemma cstr_keeps: "wf_mem m \<Longrightarrow> keeps m m' \<Longrightarrow> cstr m p s \<Longrightarrow> cstr m' p s"
  by (auto simp: cstr_def keeps_def split: ptr.splits option.splits dest: wf_mem_live)

lemma cbytes_keeps: "wf_mem m \<Longrightarrow> keeps m m' \<Longrightarrow> cbytes m p bs \<Longrightarrow> cbytes m' p bs"
  by (auto simp: cbytes_def load_def keeps_def split: ptr.splits option.splits if_splits dest: wf_mem_live)

end
