(* ===== verification/Models.thy ===== *)
theory Models
  imports CMem
begin

text \<open>
  The data model of \<open>include/qkd/models.h\<close>: status codes, services, key types and roles, the
  six messages of the interface and the packet header. A C structure that holds pointers is a
  record with a type parameter for them: with \<^typ>\<open>ptr\<close> (or \<open>qkd_bytes\<close>) it is the
  structure itself, with \<^typ>\<open>bytes\<close> it is the value the structure denotes in some memory.
  The predicates \<open>qos_at\<close>, \<open>ocq_at\<close>, \<dots> relate the two. A \<open>uuid_t\<close> is stored by
  value and is a list of sixteen bytes.

  The functions of libuuid, which is not part of the repository, are a parameter
  (\<open>libuuid\<close>), with \<open>uuid_laws\<close> as the documented behaviour the code relies on.
  \<open>uuid_generate_random L i\<close> is the identifier that call number \<open>i\<close> produces.
\<close>

section \<open>Enumerations\<close>

datatype qkd_status_code =
    qkd_status_code_successful
  | qkd_status_code_peer_not_connected
  | qkd_status_code_gk_insufficient_key_available
  | qkd_status_code_gk_peer_not_connected
  | qkd_status_code_no_qkd_connection_available
  | qkd_status_code_oc_ksid_already_in_use
  | qkd_status_code_timeout_error
  | qkd_status_code_oc_qos_not_satisfiable
  | qkd_status_code_gk_metadata_insufficient_size

fun status_code :: "qkd_status_code \<Rightarrow> u32" where
  "status_code qkd_status_code_successful = 0"
| "status_code qkd_status_code_peer_not_connected = 1"
| "status_code qkd_status_code_gk_insufficient_key_available = 2"
| "status_code qkd_status_code_gk_peer_not_connected = 3"
| "status_code qkd_status_code_no_qkd_connection_available = 4"
| "status_code qkd_status_code_oc_ksid_already_in_use = 5"
| "status_code qkd_status_code_timeout_error = 6"
| "status_code qkd_status_code_oc_qos_not_satisfiable = 7"
| "status_code qkd_status_code_gk_metadata_insufficient_size = 8"

datatype qkd_key_info_role =
    qkd_key_type_role_default
  | qkd_key_type_role_error
  | qkd_key_type_role_sender
  | qkd_key_type_role_receiver

fun role_code :: "qkd_key_info_role \<Rightarrow> u8" where
  "role_code qkd_key_type_role_default = 0x00"
| "role_code qkd_key_type_role_error = 0x01"
| "role_code qkd_key_type_role_sender = 0x10"
| "role_code qkd_key_type_role_receiver = 0x11"

datatype qkd_key_info_type = qkd_key_type_symmetric | qkd_key_type_oblivious

fun type_code :: "qkd_key_info_type \<Rightarrow> u8" where
  "type_code qkd_key_type_symmetric = 0x00"
| "type_code qkd_key_type_oblivious = 0x01"

datatype qkd_service =
    QKD_SERVICE_ERROR
  | QKD_SERVICE_OPEN_CONNECT_REQUEST
  | QKD_SERVICE_OPEN_CONNECT_RESPONSE
  | QKD_SERVICE_GET_KEY_REQUEST
  | QKD_SERVICE_GET_KEY_RESPONSE
  | QKD_SERVICE_CLOSE_REQUEST
  | QKD_SERVICE_CLOSE_RESPONSE
  | QKD_SERVICE_CLOSE_SERVER

fun service_code :: "qkd_service \<Rightarrow> u8" where
  "service_code QKD_SERVICE_ERROR = 0x00"
| "service_code QKD_SERVICE_OPEN_CONNECT_REQUEST = 0b10"
| "service_code QKD_SERVICE_OPEN_CONNECT_RESPONSE = 0b11"
| "service_code QKD_SERVICE_GET_KEY_REQUEST = 0b100"
| "service_code QKD_SERVICE_GET_KEY_RESPONSE = 0b101"
| "service_code QKD_SERVICE_CLOSE_REQUEST = 0b1000"
| "service_code QKD_SERVICE_CLOSE_RESPONSE = 0b1001"
| "service_code QKD_SERVICE_CLOSE_SERVER = 0xFF"

section \<open>Structures\<close>

record qkd_bytes =
  bytes_size :: u32
  bytes_data :: ptr

type_synonym qkd_status_t = u32
type_synonym qkd_uri_t = ptr
type_synonym qkd_mimetype_t = ptr
type_synonym qkd_metadata_t = qkd_bytes
type_synonym qkd_key_buffer_t = qkd_bytes
type_synonym qkd_key_type_t = u8
type_synonym qkd_key_role_t = u8

definition MIMETYPE_MAX :: size_t where
  "MIMETYPE_MAX = 256"

record 'p qkd_qos =
  key_chunk_size :: u32
  max_bps :: u32
  min_bps :: u32
  jitter :: u32
  priority :: u32
  timeout :: u32
  ttl :: u32
  metadata_mimetype :: 'p

record 'p qkd_open_connect_request =
  ocq_source :: 'p
  ocq_destination :: 'p
  ocq_qos :: "'p qkd_qos"
  ocq_key_stream_id :: bytes

record 'p qkd_open_connect_response =
  ocs_status :: qkd_status_t
  ocs_qos :: "'p qkd_qos"
  ocs_key_stream_id :: bytes

record 'b qkd_get_key_request =
  gkq_key_stream_id :: bytes
  gkq_index :: u32
  gkq_metadata :: 'b

record 'b qkd_get_key_response =
  gks_status :: qkd_status_t
  gks_index :: u32
  gks_key_buffer :: 'b
  gks_metadata :: 'b

record qkd_close_request =
  clq_key_stream_id :: bytes

record qkd_close_response =
  cls_status :: qkd_status_t

record version =
  major :: u8
  minor :: u8
  micro :: u8

record qkd_header =
  hdr_version :: version
  hdr_service :: u8
  hdr_payload_size :: u32

record qkd_key_info =
  key_type :: qkd_key_type_t
  key_role :: qkd_key_role_t

text \<open>The version of the interface, declared in \<open>interfaces.c\<close>.\<close>

definition QKD_004_VERSION :: version where
  "QKD_004_VERSION = \<lparr>major = 2, minor = 1, micro = 1\<rparr>"

definition nil_uuid :: bytes where
  "nil_uuid = replicate 16 0"

text \<open>The largest TLS record payload, a constant of the OpenSSL headers.\<close>

definition SSL3_RT_MAX_PLAIN_LENGTH :: size_t where
  "SSL3_RT_MAX_PLAIN_LENGTH = 16384"

section \<open>libuuid\<close>

record libuuid =
  uuid_copy :: "bytes \<Rightarrow> bytes"
  uuid_compare :: "bytes \<Rightarrow> bytes \<Rightarrow> int"
  uuid_generate_random :: "nat \<Rightarrow> bytes"

definition uuid_laws :: "libuuid \<Rightarrow> bool" where
  "uuid_laws L \<longleftrightarrow>
     (\<forall>u. length u = 16 \<longrightarrow> uuid_copy L u = u) \<and>
     (\<forall>u v. length u = 16 \<and> length v = 16 \<longrightarrow> (uuid_compare L u v = 0 \<longleftrightarrow> u = v)) \<and>
     (\<forall>i. length (uuid_generate_random L i) = 16)"

section \<open>Enumerations as finite types\<close>

text \<open>
  The two enumerations that travel on the wire can be searched: quantifiers over them are executable,
  and that their codes are different from each other is one evaluation.
\<close>

instantiation qkd_status_code :: enum
begin

definition enum_qkd_status_code :: "qkd_status_code list" where
  "enum_qkd_status_code = [qkd_status_code_successful, qkd_status_code_peer_not_connected, qkd_status_code_gk_insufficient_key_available, qkd_status_code_gk_peer_not_connected, qkd_status_code_no_qkd_connection_available, qkd_status_code_oc_ksid_already_in_use, qkd_status_code_timeout_error, qkd_status_code_oc_qos_not_satisfiable, qkd_status_code_gk_metadata_insufficient_size]"

definition enum_all_qkd_status_code :: "(qkd_status_code \<Rightarrow> bool) \<Rightarrow> bool" where
  "enum_all_qkd_status_code P \<longleftrightarrow> list_all P enum_class.enum"

definition enum_ex_qkd_status_code :: "(qkd_status_code \<Rightarrow> bool) \<Rightarrow> bool" where
  "enum_ex_qkd_status_code P \<longleftrightarrow> list_ex P enum_class.enum"

instance
proof
  show univ: "(UNIV :: qkd_status_code set) = set enum_class.enum"
    using qkd_status_code.exhaust by (auto simp: enum_qkd_status_code_def)
  show "distinct (enum_class.enum :: qkd_status_code list)"
    by (simp add: enum_qkd_status_code_def)
  show "enum_class.enum_all P \<longleftrightarrow> Ball UNIV P" "enum_class.enum_ex P \<longleftrightarrow> Bex UNIV P" for P :: "qkd_status_code \<Rightarrow> bool"
    by (simp_all add: univ enum_all_qkd_status_code_def enum_ex_qkd_status_code_def list_all_iff list_ex_iff)
qed

end

instantiation qkd_service :: enum
begin

definition enum_qkd_service :: "qkd_service list" where
  "enum_qkd_service = [QKD_SERVICE_ERROR, QKD_SERVICE_OPEN_CONNECT_REQUEST, QKD_SERVICE_OPEN_CONNECT_RESPONSE, QKD_SERVICE_GET_KEY_REQUEST, QKD_SERVICE_GET_KEY_RESPONSE, QKD_SERVICE_CLOSE_REQUEST, QKD_SERVICE_CLOSE_RESPONSE, QKD_SERVICE_CLOSE_SERVER]"

definition enum_all_qkd_service :: "(qkd_service \<Rightarrow> bool) \<Rightarrow> bool" where
  "enum_all_qkd_service P \<longleftrightarrow> list_all P enum_class.enum"

definition enum_ex_qkd_service :: "(qkd_service \<Rightarrow> bool) \<Rightarrow> bool" where
  "enum_ex_qkd_service P \<longleftrightarrow> list_ex P enum_class.enum"

instance
proof
  show univ: "(UNIV :: qkd_service set) = set enum_class.enum"
    using qkd_service.exhaust by (auto simp: enum_qkd_service_def)
  show "distinct (enum_class.enum :: qkd_service list)"
    by (simp add: enum_qkd_service_def)
  show "enum_class.enum_all P \<longleftrightarrow> Ball UNIV P" "enum_class.enum_ex P \<longleftrightarrow> Bex UNIV P" for P :: "qkd_service \<Rightarrow> bool"
    by (simp_all add: univ enum_all_qkd_service_def enum_ex_qkd_service_def list_all_iff list_ex_iff)
qed

end

lemma status_code_inj: "inj status_code"
proof -
  have "distinct (map status_code enum_class.enum)"
    by code_simp
  then show ?thesis
    by (simp only: distinct_map enum_UNIV)
qed

lemma service_code_inj: "inj service_code"
proof -
  have "distinct (map service_code enum_class.enum)"
    by code_simp
  then show ?thesis
    by (simp only: distinct_map enum_UNIV)
qed

section \<open>Structures and the values they denote\<close>

definition bytes_at :: "'z mem_scheme \<Rightarrow> qkd_bytes \<Rightarrow> bytes \<Rightarrow> bool" where
  "bytes_at m d bs \<longleftrightarrow> length bs = unat (bytes_size d) \<and> cbytes m (bytes_data d) bs"

definition qos_at :: "'z mem_scheme \<Rightarrow> ptr qkd_qos \<Rightarrow> bytes qkd_qos \<Rightarrow> bool" where
  "qos_at m q Q \<longleftrightarrow>
     key_chunk_size q = key_chunk_size Q \<and> max_bps q = max_bps Q \<and> min_bps q = min_bps Q \<and>
     jitter q = jitter Q \<and> priority q = priority Q \<and> timeout q = timeout Q \<and> ttl q = ttl Q \<and>
     cstr m (metadata_mimetype q) (metadata_mimetype Q)"

definition ocq_at ::
  "'z mem_scheme \<Rightarrow> ptr qkd_open_connect_request \<Rightarrow> bytes qkd_open_connect_request \<Rightarrow> bool" where
  "ocq_at m x X \<longleftrightarrow>
     cstr m (ocq_source x) (ocq_source X) \<and> cstr m (ocq_destination x) (ocq_destination X) \<and>
     qos_at m (ocq_qos x) (ocq_qos X) \<and>
     ocq_key_stream_id x = ocq_key_stream_id X \<and> length (ocq_key_stream_id X) = 16"

definition ocs_at ::
  "'z mem_scheme \<Rightarrow> ptr qkd_open_connect_response \<Rightarrow> bytes qkd_open_connect_response \<Rightarrow> bool" where
  "ocs_at m x X \<longleftrightarrow>
     ocs_status x = ocs_status X \<and> qos_at m (ocs_qos x) (ocs_qos X) \<and>
     ocs_key_stream_id x = ocs_key_stream_id X \<and> length (ocs_key_stream_id X) = 16"

definition gkq_at ::
  "'z mem_scheme \<Rightarrow> qkd_bytes qkd_get_key_request \<Rightarrow> bytes qkd_get_key_request \<Rightarrow> bool" where
  "gkq_at m x X \<longleftrightarrow>
     gkq_key_stream_id x = gkq_key_stream_id X \<and> length (gkq_key_stream_id X) = 16 \<and>
     gkq_index x = gkq_index X \<and> bytes_at m (gkq_metadata x) (gkq_metadata X)"

definition gks_at ::
  "'z mem_scheme \<Rightarrow> qkd_bytes qkd_get_key_response \<Rightarrow> bytes qkd_get_key_response \<Rightarrow> bool" where
  "gks_at m x X \<longleftrightarrow>
     gks_status x = gks_status X \<and> gks_index x = gks_index X \<and>
     bytes_at m (gks_key_buffer x) (gks_key_buffer X) \<and> bytes_at m (gks_metadata x) (gks_metadata X)"

definition clq_at :: "'z mem_scheme \<Rightarrow> qkd_close_request \<Rightarrow> qkd_close_request \<Rightarrow> bool" where
  "clq_at m x X \<longleftrightarrow> x = X \<and> length (clq_key_stream_id X) = 16"

definition cls_at :: "'z mem_scheme \<Rightarrow> qkd_close_response \<Rightarrow> qkd_close_response \<Rightarrow> bool" where
  "cls_at m x X \<longleftrightarrow> x = X"

text \<open>A structure whose pointers all lead outside one block.\<close>

definition ocq_outside :: "nat \<Rightarrow> ptr qkd_open_connect_request \<Rightarrow> bool" where
  "ocq_outside b x \<longleftrightarrow>
     \<not> in_block b (ocq_source x) \<and> \<not> in_block b (ocq_destination x) \<and>
     \<not> in_block b (metadata_mimetype (ocq_qos x))"

definition ocs_outside :: "nat \<Rightarrow> ptr qkd_open_connect_response \<Rightarrow> bool" where
  "ocs_outside b x \<longleftrightarrow> \<not> in_block b (metadata_mimetype (ocs_qos x))"

definition bytes_outside :: "nat \<Rightarrow> qkd_bytes \<Rightarrow> bool" where
  "bytes_outside b d \<longleftrightarrow> bytes_size d = 0 \<or> \<not> in_block b (bytes_data d)"

definition gkq_outside :: "nat \<Rightarrow> qkd_bytes qkd_get_key_request \<Rightarrow> bool" where
  "gkq_outside b x \<longleftrightarrow> bytes_outside b (gkq_metadata x)"

definition gks_outside :: "nat \<Rightarrow> qkd_bytes qkd_get_key_response \<Rightarrow> bool" where
  "gks_outside b x \<longleftrightarrow> bytes_outside b (gks_key_buffer x) \<and> bytes_outside b (gks_metadata x)"

section \<open>Lemmas\<close>

lemma uuid_copy_id [simp]: "uuid_laws L \<Longrightarrow> length u = 16 \<Longrightarrow> uuid_copy L u = u"
  unfolding uuid_laws_def by blast

lemma uuid_compare_eq_0 [simp]:
  "uuid_laws L \<Longrightarrow> length u = 16 \<Longrightarrow> length v = 16 \<Longrightarrow> uuid_compare L u v = 0 \<longleftrightarrow> u = v"
  unfolding uuid_laws_def by blast

lemma length_uuid_generate_random [simp]: "uuid_laws L \<Longrightarrow> length (uuid_generate_random L i) = 16"
  unfolding uuid_laws_def by blast

lemma length_nil_uuid [simp]: "length nil_uuid = 16"
  by (simp add: nil_uuid_def)

lemma qos_at_put [mem_simps]:
  "\<not> in_block b (metadata_mimetype q) \<Longrightarrow> qos_at (put b i bs m) q Q = qos_at m q Q"
  by (simp add: qos_at_def cstr_put_other)

lemma cbytes_Nil [simp]: "cbytes m p []"
  by (simp add: cbytes_def load_def)

lemma bytes_at_put [mem_simps]:
  "bytes_outside b d \<Longrightarrow> bytes_at (put b i bs m) d bs' = bytes_at m d bs'"
  by (auto simp: bytes_at_def bytes_outside_def cbytes_put_other)

section \<open>Fresh blocks\<close>

text \<open>A new block keeps every value where it was, and no live pointer leads into it.\<close>

lemma cstr_new_block:
  assumes "wf_mem m" "cstr m p s"
  shows "cstr (new_block a c m) p s" "\<not> in_block (nxt m) p"
  using assms by (cases p; auto simp: cstr_def wf_mem_def split: option.splits)+

lemma cbytes_new_block:
  assumes "wf_mem m" "cbytes m p bs"
  shows "cbytes (new_block a c m) p bs" "bs \<noteq> [] \<Longrightarrow> \<not> in_block (nxt m) p"
  using assms
  by (cases p; auto simp: cbytes_def load_def wf_mem_def split: option.splits if_splits)+

lemma qos_new_block:
  assumes "wf_mem m" "qos_at m q Q"
  shows "qos_at (new_block a c m) q Q" "\<not> in_block (nxt m) (metadata_mimetype q)"
  using assms by (auto simp: qos_at_def intro: cstr_new_block dest: cstr_new_block(2))

lemma bytes_new_block:
  assumes "wf_mem m" "bytes_at m d bs"
  shows "bytes_at (new_block a c m) d bs" "bytes_outside (nxt m) d"
proof -
  show "bytes_at (new_block a c m) d bs"
    using assms by (simp add: bytes_at_def cbytes_new_block(1))
  show "bytes_outside (nxt m) d"
  proof (cases "bs = []")
    case True
    with assms show ?thesis by (simp add: bytes_at_def bytes_outside_def unat_eq_0)
  next
    case False
    with assms show ?thesis
      by (auto simp: bytes_at_def bytes_outside_def dest: cbytes_new_block(2))
  qed
qed

end
