(* ===== verification/WireFormat.thy ===== *)
theory WireFormat
  imports Models "HOL-Library.Monad_Syntax"
begin

text \<open>
  The wire format of the packets, as functions on values: what the bytes of every message are
  and what a reader of untrusted bytes may make of them. It is the specification that
  \<open>serializers.c\<close> is proved against in theory \<open>Serializers\<close>. The locale
  \<open>wire_codec\<close> states the contract of one encoder and decoder pair and proves once what
  every format inherits from it; it is interpreted for each message.
\<close>

section \<open>Encoders\<close>

definition enc_u32 :: "u32 \<Rightarrow> bytes" where
  "enc_u32 w = be_bytes w"

definition enc_bytes :: "bytes \<Rightarrow> bytes" where
  "enc_bytes bs = enc_u32 (of_nat (length bs)) @ bs"

definition enc_str :: "bytes \<Rightarrow> bytes" where
  "enc_str s = s @ [0]"

definition enc_qos :: "bytes qkd_qos \<Rightarrow> bytes" where
  "enc_qos q = enc_u32 (key_chunk_size q) @ enc_u32 (max_bps q) @ enc_u32 (min_bps q) @
     enc_u32 (jitter q) @ enc_u32 (priority q) @ enc_u32 (timeout q) @ enc_u32 (ttl q) @
     enc_str (metadata_mimetype q)"

definition enc_ocq :: "bytes qkd_open_connect_request \<Rightarrow> bytes" where
  "enc_ocq x = enc_str (ocq_source x) @ enc_str (ocq_destination x) @ enc_qos (ocq_qos x) @
     ocq_key_stream_id x"

definition enc_ocs :: "bytes qkd_open_connect_response \<Rightarrow> bytes" where
  "enc_ocs x = enc_u32 (ocs_status x) @ enc_qos (ocs_qos x) @ ocs_key_stream_id x"

definition enc_gkq :: "bytes qkd_get_key_request \<Rightarrow> bytes" where
  "enc_gkq x = gkq_key_stream_id x @ enc_u32 (gkq_index x) @ enc_bytes (gkq_metadata x)"

definition enc_gks :: "bytes qkd_get_key_response \<Rightarrow> bytes" where
  "enc_gks x = enc_u32 (gks_status x) @ enc_u32 (gks_index x) @ enc_bytes (gks_key_buffer x) @
     enc_bytes (gks_metadata x)"

definition enc_clq :: "qkd_close_request \<Rightarrow> bytes" where
  "enc_clq x = clq_key_stream_id x"

definition enc_cls :: "qkd_close_response \<Rightarrow> bytes" where
  "enc_cls x = enc_u32 (cls_status x)"

definition enc_header :: "qkd_header \<Rightarrow> bytes" where
  "enc_header h =
     [major (hdr_version h), minor (hdr_version h), micro (hdr_version h), hdr_service h] @
     enc_u32 (hdr_payload_size h)"

section \<open>Decoders\<close>

definition dec_take :: "nat \<Rightarrow> bytes \<Rightarrow> (bytes \<times> bytes) option" where
  "dec_take n bs = (if n \<le> length bs then Some (take n bs, drop n bs) else None)"

definition dec_u32 :: "bytes \<Rightarrow> (u32 \<times> bytes) option" where
  "dec_u32 bs = do { (w, r) \<leftarrow> dec_take 4 bs; Some (be_word w, r) }"

definition dec_bytes :: "bytes \<Rightarrow> (bytes \<times> bytes) option" where
  "dec_bytes bs = do { (n, r) \<leftarrow> dec_u32 bs; dec_take (unat n) r }"

definition dec_str :: "bytes \<Rightarrow> (bytes \<times> bytes) option" where
  "dec_str bs =
     (let s = takeWhile (\<lambda>x. x \<noteq> 0) bs
      in if length s < length bs then Some (s, drop (Suc (length s)) bs) else None)"

definition dec_qos :: "bytes \<Rightarrow> (bytes qkd_qos \<times> bytes) option" where
  "dec_qos r0 = do {
     (a, r1) \<leftarrow> dec_u32 r0;
     (b, r2) \<leftarrow> dec_u32 r1;
     (c, r3) \<leftarrow> dec_u32 r2;
     (d, r4) \<leftarrow> dec_u32 r3;
     (e, r5) \<leftarrow> dec_u32 r4;
     (f, r6) \<leftarrow> dec_u32 r5;
     (g, r7) \<leftarrow> dec_u32 r6;
     (s, r8) \<leftarrow> dec_str r7;
     Some (\<lparr>key_chunk_size = a, max_bps = b, min_bps = c, jitter = d, priority = e, timeout = f,
            ttl = g, metadata_mimetype = s\<rparr>, r8) }"

definition dec_ocq :: "bytes \<Rightarrow> (bytes qkd_open_connect_request \<times> bytes) option" where
  "dec_ocq r0 = do {
     (s, r1) \<leftarrow> dec_str r0;
     (d, r2) \<leftarrow> dec_str r1;
     (q, r3) \<leftarrow> dec_qos r2;
     (u, r4) \<leftarrow> dec_take 16 r3;
     Some (\<lparr>ocq_source = s, ocq_destination = d, ocq_qos = q, ocq_key_stream_id = u\<rparr>, r4) }"

definition dec_ocs :: "bytes \<Rightarrow> (bytes qkd_open_connect_response \<times> bytes) option" where
  "dec_ocs r0 = do {
     (st, r1) \<leftarrow> dec_u32 r0;
     (q, r2) \<leftarrow> dec_qos r1;
     (u, r3) \<leftarrow> dec_take 16 r2;
     Some (\<lparr>ocs_status = st, ocs_qos = q, ocs_key_stream_id = u\<rparr>, r3) }"

definition dec_gkq :: "bytes \<Rightarrow> (bytes qkd_get_key_request \<times> bytes) option" where
  "dec_gkq r0 = do {
     (u, r1) \<leftarrow> dec_take 16 r0;
     (i, r2) \<leftarrow> dec_u32 r1;
     (md, r3) \<leftarrow> dec_bytes r2;
     Some (\<lparr>gkq_key_stream_id = u, gkq_index = i, gkq_metadata = md\<rparr>, r3) }"

definition dec_gks :: "bytes \<Rightarrow> (bytes qkd_get_key_response \<times> bytes) option" where
  "dec_gks r0 = do {
     (st, r1) \<leftarrow> dec_u32 r0;
     (i, r2) \<leftarrow> dec_u32 r1;
     (k, r3) \<leftarrow> dec_bytes r2;
     (md, r4) \<leftarrow> dec_bytes r3;
     Some (\<lparr>gks_status = st, gks_index = i, gks_key_buffer = k, gks_metadata = md\<rparr>, r4) }"

definition dec_clq :: "bytes \<Rightarrow> (qkd_close_request \<times> bytes) option" where
  "dec_clq r0 = do { (u, r1) \<leftarrow> dec_take 16 r0; Some (\<lparr>clq_key_stream_id = u\<rparr>, r1) }"

definition dec_cls :: "bytes \<Rightarrow> (qkd_close_response \<times> bytes) option" where
  "dec_cls r0 = do { (st, r1) \<leftarrow> dec_u32 r0; Some (\<lparr>cls_status = st\<rparr>, r1) }"

fun header_of_bytes :: "bytes \<Rightarrow> qkd_header" where
  "header_of_bytes bs =
     \<lparr>hdr_version = \<lparr>major = bs ! 0, minor = bs ! 1, micro = bs ! 2\<rparr>,
      hdr_service = bs ! 3, hdr_payload_size = be_word (drop 4 bs)\<rparr>"

definition dec_header :: "bytes \<Rightarrow> (qkd_header \<times> bytes) option" where
  "dec_header r0 = do { (h, r1) \<leftarrow> dec_take 8 r0; Some (header_of_bytes h, r1) }"

section \<open>Values that have an encoding\<close>

definition valid_str :: "bytes \<Rightarrow> bool" where
  "valid_str s \<longleftrightarrow> 0 \<notin> set s"

definition valid_bytes :: "bytes \<Rightarrow> bool" where
  "valid_bytes bs \<longleftrightarrow> length bs < 2 ^ 32"

definition valid_qos :: "bytes qkd_qos \<Rightarrow> bool" where
  "valid_qos q \<longleftrightarrow> valid_str (metadata_mimetype q)"

definition valid_ocq :: "bytes qkd_open_connect_request \<Rightarrow> bool" where
  "valid_ocq x \<longleftrightarrow> valid_str (ocq_source x) \<and> valid_str (ocq_destination x) \<and>
     valid_qos (ocq_qos x) \<and> length (ocq_key_stream_id x) = 16"

definition valid_ocs :: "bytes qkd_open_connect_response \<Rightarrow> bool" where
  "valid_ocs x \<longleftrightarrow> valid_qos (ocs_qos x) \<and> length (ocs_key_stream_id x) = 16"

definition valid_gkq :: "bytes qkd_get_key_request \<Rightarrow> bool" where
  "valid_gkq x \<longleftrightarrow> length (gkq_key_stream_id x) = 16 \<and> valid_bytes (gkq_metadata x)"

definition valid_gks :: "bytes qkd_get_key_response \<Rightarrow> bool" where
  "valid_gks x \<longleftrightarrow> valid_bytes (gks_key_buffer x) \<and> valid_bytes (gks_metadata x)"

definition valid_clq :: "qkd_close_request \<Rightarrow> bool" where
  "valid_clq x \<longleftrightarrow> length (clq_key_stream_id x) = 16"

definition valid_any :: "'a \<Rightarrow> bool" where
  "valid_any x \<longleftrightarrow> True"

section \<open>The contract of a format\<close>

locale wire_codec =
  fixes enc :: "'v \<Rightarrow> bytes"
    and dec :: "bytes \<Rightarrow> ('v \<times> bytes) option"
    and valid :: "'v \<Rightarrow> bool"
  assumes dec_enc: "valid v \<Longrightarrow> dec (enc v @ r) = Some (v, r)"
    and dec_sound: "dec bs = Some (v, r) \<Longrightarrow> bs = enc v @ r \<and> valid v"
begin

lemma dec_iff: "dec bs = Some (v, r) \<longleftrightarrow> valid v \<and> bs = enc v @ r"
  using dec_enc dec_sound by auto

lemma enc_inj: "valid v \<Longrightarrow> valid w \<Longrightarrow> enc v = enc w \<Longrightarrow> v = w"
  using dec_enc [of v "[]"] dec_enc [of w "[]"] by simp

lemma prefix_free: "valid v \<Longrightarrow> valid w \<Longrightarrow> enc v @ r = enc w @ r' \<Longrightarrow> v = w \<and> r = r'"
  by (metis dec_enc option.inject prod.inject)

lemma dec_length: "dec bs = Some (v, r) \<Longrightarrow> length bs = length (enc v) + length r"
  by (drule dec_sound) simp

lemma dec_pos: "dec (drop i c) = Some (v, r) \<Longrightarrow> i \<le> length c \<Longrightarrow> length c - length r = i + length (enc v)"
  by (drule dec_length) simp

lemma dec_drop: "dec (drop i c) = Some (v, r) \<Longrightarrow> i \<le> length c \<Longrightarrow> drop (length c - length r) c = r"
  using dec_pos [of i c v r] dec_sound [of "drop i c" v r] drop_append_prefix [of i c "enc v" r]
  by simp

lemma dec_le: "dec (drop i c) = Some (v, r) \<Longrightarrow> length r \<le> length c"
  by (drule dec_length) simp

end

section \<open>Every message keeps the contract\<close>

lemmas wire_defs =
  enc_u32_def enc_bytes_def enc_str_def enc_qos_def enc_ocq_def enc_ocs_def enc_gkq_def
  enc_gks_def enc_clq_def enc_cls_def enc_header_def

lemma dec_take_iff: "dec_take n bs = Some (x, r) \<longleftrightarrow> bs = x @ r \<and> length x = n"
  by (auto simp: dec_take_def)

interpretation u32: wire_codec enc_u32 dec_u32 valid_any
proof unfold_locales
  show "dec_u32 (enc_u32 v @ r) = Some (v, r)" for v r
    by (simp add: dec_u32_def dec_take_def enc_u32_def)
next
  show "bs = enc_u32 v @ r \<and> valid_any v" if "dec_u32 bs = Some (v, r)" for bs v r
    using that by (auto simp: dec_u32_def enc_u32_def valid_any_def dec_take_iff bind_eq_Some_conv)
qed

interpretation blob: wire_codec enc_bytes dec_bytes valid_bytes
proof unfold_locales
  fix v r
  assume "valid_bytes v"
  then have "unat (of_nat (length v) :: u32) = length v"
    by (simp add: valid_bytes_def unat_of_nat take_bit_nat_eq_self)
  then show "dec_bytes (enc_bytes v @ r) = Some (v, r)"
    by (simp add: dec_bytes_def enc_bytes_def u32.dec_enc valid_any_def dec_take_def)
next
  fix bs v r
  assume "dec_bytes bs = Some (v, r)"
  then obtain n where n: "bs = enc_u32 n @ v @ r" "length v = unat n"
    by (auto simp: dec_bytes_def bind_eq_Some_conv u32.dec_iff dec_take_iff)
  moreover have "unat n < 2 ^ 32"
    using unsigned_less [of n] by simp
  ultimately show "bs = enc_bytes v @ r \<and> valid_bytes v"
    by (simp add: enc_bytes_def valid_bytes_def)
qed

interpretation str: wire_codec enc_str dec_str valid_str
proof unfold_locales
  fix v r
  assume "valid_str v"
  then have "takeWhile (\<lambda>x. x \<noteq> 0) (v @ 0 # r) = v"
    by (simp add: valid_str_def takeWhile_append takeWhile_eq_all_conv)
  then show "dec_str (enc_str v @ r) = Some (v, r)"
    by (simp add: dec_str_def enc_str_def)
next
  fix bs v r
  assume "dec_str bs = Some (v, r)"
  then have v: "v = takeWhile (\<lambda>x. x \<noteq> 0) bs" "length v < length bs" "r = drop (Suc (length v)) bs"
    by (auto simp: dec_str_def Let_def split: if_splits)
  have "bs = take (length v) bs @ bs ! length v # drop (Suc (length v)) bs"
    using v(2) by (rule id_take_nth_drop)
  moreover have "take (length v) bs = v"
    unfolding v(1) by (metis takeWhile_eq_take)
  moreover have "bs ! length v = 0"
    using nth_length_takeWhile [of "\<lambda>x. x \<noteq> 0" bs] v(1,2) by simp
  moreover have "0 \<notin> set v"
    unfolding v(1) using set_takeWhileD by fastforce
  ultimately show "bs = enc_str v @ r \<and> valid_str v"
    using v(3) by (simp add: enc_str_def valid_str_def)
qed

lemmas dec_iffs = u32.dec_iff blob.dec_iff str.dec_iff dec_take_iff
lemmas dec_encs = u32.dec_enc blob.dec_enc str.dec_enc

interpretation qos: wire_codec enc_qos dec_qos valid_qos
proof unfold_locales
  show "dec_qos (enc_qos v @ r) = Some (v, r)" if "valid_qos v" for v r
    using that by (simp add: dec_qos_def enc_qos_def valid_qos_def valid_any_def dec_encs)
next
  show "bs = enc_qos v @ r \<and> valid_qos v" if "dec_qos bs = Some (v, r)" for bs v r
    using that by (auto simp: dec_qos_def enc_qos_def valid_qos_def bind_eq_Some_conv dec_iffs)
qed

interpretation ocq: wire_codec enc_ocq dec_ocq valid_ocq
proof unfold_locales
  show "dec_ocq (enc_ocq v @ r) = Some (v, r)" if "valid_ocq v" for v r
    using that
    by (simp add: dec_ocq_def enc_ocq_def valid_ocq_def dec_encs qos.dec_enc dec_take_def)
next
  show "bs = enc_ocq v @ r \<and> valid_ocq v" if "dec_ocq bs = Some (v, r)" for bs v r
    using that
    by (auto simp: dec_ocq_def enc_ocq_def valid_ocq_def bind_eq_Some_conv dec_iffs qos.dec_iff)
qed

interpretation ocs: wire_codec enc_ocs dec_ocs valid_ocs
proof unfold_locales
  show "dec_ocs (enc_ocs v @ r) = Some (v, r)" if "valid_ocs v" for v r
    using that
    by (simp add: dec_ocs_def enc_ocs_def valid_ocs_def valid_any_def dec_encs qos.dec_enc dec_take_def)
next
  show "bs = enc_ocs v @ r \<and> valid_ocs v" if "dec_ocs bs = Some (v, r)" for bs v r
    using that
    by (auto simp: dec_ocs_def enc_ocs_def valid_ocs_def bind_eq_Some_conv dec_iffs qos.dec_iff)
qed

interpretation gkq: wire_codec enc_gkq dec_gkq valid_gkq
proof unfold_locales
  show "dec_gkq (enc_gkq v @ r) = Some (v, r)" if "valid_gkq v" for v r
    using that by (simp add: dec_gkq_def enc_gkq_def valid_gkq_def valid_any_def dec_encs dec_take_def)
next
  show "bs = enc_gkq v @ r \<and> valid_gkq v" if "dec_gkq bs = Some (v, r)" for bs v r
    using that by (auto simp: dec_gkq_def enc_gkq_def valid_gkq_def bind_eq_Some_conv dec_iffs)
qed

interpretation gks: wire_codec enc_gks dec_gks valid_gks
proof unfold_locales
  show "dec_gks (enc_gks v @ r) = Some (v, r)" if "valid_gks v" for v r
    using that by (simp add: dec_gks_def enc_gks_def valid_gks_def valid_any_def dec_encs)
next
  show "bs = enc_gks v @ r \<and> valid_gks v" if "dec_gks bs = Some (v, r)" for bs v r
    using that by (auto simp: dec_gks_def enc_gks_def valid_gks_def bind_eq_Some_conv dec_iffs)
qed

interpretation clq: wire_codec enc_clq dec_clq valid_clq
proof unfold_locales
  show "dec_clq (enc_clq v @ r) = Some (v, r)" if "valid_clq v" for v r
    using that by (simp add: dec_clq_def enc_clq_def valid_clq_def dec_take_def)
next
  show "bs = enc_clq v @ r \<and> valid_clq v" if "dec_clq bs = Some (v, r)" for bs v r
    using that by (auto simp: dec_clq_def enc_clq_def valid_clq_def bind_eq_Some_conv dec_take_iff)
qed

interpretation cls: wire_codec enc_cls dec_cls valid_any
  by unfold_locales
    (auto simp: dec_cls_def enc_cls_def valid_any_def bind_eq_Some_conv u32.dec_iff u32.dec_enc)

lemma length_8_cases:
  assumes "length bs = 8"
  obtains a b c d r where "bs = a # b # c # d # r" "length r = 4"
  using assms by (auto simp: numeral_eq_Suc length_Suc_conv)

interpretation header: wire_codec enc_header dec_header valid_any
proof unfold_locales
  show "dec_header (enc_header v @ r) = Some (v, r)" for v r
    by (simp add: dec_header_def enc_header_def enc_u32_def dec_take_def)
next
  fix bs v r
  assume "dec_header bs = Some (v, r)"
  then obtain h where h: "bs = h @ r" "length h = 8" "v = header_of_bytes h"
    by (auto simp: dec_header_def bind_eq_Some_conv dec_take_iff)
  from h(2) obtain a b c d t where "h = a # b # c # d # t" "length t = 4"
    by (rule length_8_cases)
  with h(1,3) show "bs = enc_header v @ r \<and> valid_any v"
    by (simp add: enc_header_def enc_u32_def valid_any_def)
qed

section \<open>Lengths\<close>

lemma length_enc [wire_simps]:
  "length (enc_u32 w) = 4"
  "length (enc_bytes bs) = 4 + length bs"
  "length (enc_str s) = Suc (length s)"
  "length (enc_qos q) = 29 + length (metadata_mimetype q)"
  "length (enc_header h) = 8"
  by (simp_all add: wire_defs)

end
