(* ===== verification/Sizes.thy ===== *)
theory Sizes
  imports WireFormat
begin

text \<open>
  The size functions of \<open>sizes.c\<close>. Each walks the strings of a structure in memory and can
  fault there; \<open>qkd_sizeof_mimetype\<close> aborts on a string of more than 255 characters. The
  lemmas relate every size to the length of the wire encoding, with the 32-bit wrap-around of
  \<open>qkd_sizeof_bytes\<close> and the 64-bit arithmetic of the sums written out.
\<close>

section \<open>sizes.c\<close>

text \<open>\<open>(int) sizeof(data.size) + data.size\<close> is computed in \<open>uint32_t\<close> and widened afterwards.\<close>

definition qkd_sizeof_bytes :: "qkd_bytes \<Rightarrow> size_t" where
  "qkd_sizeof_bytes d = ucast (4 + bytes_size d)"

definition qkd_sizeof_str :: "ptr \<Rightarrow> 'z mem_scheme \<Rightarrow> size_t res" where
  "qkd_sizeof_str str m = bind_res (strlen str m) (\<lambda>n. Inr (n + 1))"

definition qkd_sizeof_uri :: "ptr \<Rightarrow> 'z mem_scheme \<Rightarrow> size_t res" where
  "qkd_sizeof_uri uri m = qkd_sizeof_str uri m"

definition qkd_sizeof_mimetype :: "ptr \<Rightarrow> 'z mem_scheme \<Rightarrow> size_t res" where
  "qkd_sizeof_mimetype mimetype m =
     bind_res (qkd_sizeof_str mimetype m) (\<lambda>len.
     if len > MIMETYPE_MAX then Inl Aborted else Inr len)"

definition qkd_sizeof_qos :: "ptr qkd_qos \<Rightarrow> 'z mem_scheme \<Rightarrow> size_t res" where
  "qkd_sizeof_qos q m =
     bind_res (qkd_sizeof_mimetype (metadata_mimetype q) m) (\<lambda>k.
     Inr (4 + 4 + 4 + 4 + 4 + 4 + 4 + k))"

definition qkd_sizeof_metadata :: "qkd_bytes \<Rightarrow> size_t" where
  "qkd_sizeof_metadata d = qkd_sizeof_bytes d"

definition qkd_sizeof_key_buffer :: "qkd_bytes \<Rightarrow> size_t" where
  "qkd_sizeof_key_buffer d = qkd_sizeof_bytes d"

definition qkd_sizeof_open_connect_request ::
  "ptr qkd_open_connect_request \<Rightarrow> 'z mem_scheme \<Rightarrow> size_t res" where
  "qkd_sizeof_open_connect_request x m =
     bind_res (qkd_sizeof_uri (ocq_source x) m) (\<lambda>s.
     bind_res (qkd_sizeof_uri (ocq_destination x) m) (\<lambda>d.
     bind_res (qkd_sizeof_qos (ocq_qos x) m) (\<lambda>q.
     Inr (s + d + q + 16))))"

definition qkd_sizeof_open_connect_response ::
  "ptr qkd_open_connect_response \<Rightarrow> 'z mem_scheme \<Rightarrow> size_t res" where
  "qkd_sizeof_open_connect_response x m =
     bind_res (qkd_sizeof_qos (ocs_qos x) m) (\<lambda>q. Inr (4 + q + 16))"

definition qkd_sizeof_get_key_request ::
  "qkd_bytes qkd_get_key_request \<Rightarrow> 'z mem_scheme \<Rightarrow> size_t res" where
  "qkd_sizeof_get_key_request x m = Inr (16 + 4 + qkd_sizeof_metadata (gkq_metadata x))"

definition qkd_sizeof_get_key_response ::
  "qkd_bytes qkd_get_key_response \<Rightarrow> 'z mem_scheme \<Rightarrow> size_t res" where
  "qkd_sizeof_get_key_response x m =
     Inr (4 + 4 + qkd_sizeof_key_buffer (gks_key_buffer x) + qkd_sizeof_metadata (gks_metadata x))"

definition qkd_sizeof_close_request :: "qkd_close_request \<Rightarrow> 'z mem_scheme \<Rightarrow> size_t res" where
  "qkd_sizeof_close_request x m = Inr 16"

definition qkd_sizeof_close_response :: "qkd_close_response \<Rightarrow> 'z mem_scheme \<Rightarrow> size_t res" where
  "qkd_sizeof_close_response x m = Inr 4"

section \<open>Sizes of byte buffers\<close>

lemma unat_add4_u32: "unat (4 + w :: u32) = (4 + unat w) mod 2 ^ 32"
  by (simp add: unat_word_ariths)

lemma unat_qkd_sizeof_bytes: "unat (qkd_sizeof_bytes d) = (4 + unat (bytes_size d)) mod 2 ^ 32"
proof -
  have "unat (ucast (4 + bytes_size d) :: size_t) = unat (4 + bytes_size d)"
    by (simp add: unsigned_ucast_eq take_bit_nat_eq_self less_le_trans [OF unsigned_less])
  then show ?thesis
    by (simp add: qkd_sizeof_bytes_def unat_add4_u32)
qed


section \<open>Values whose size is computed exactly\<close>

definition fits_bytes :: "bytes \<Rightarrow> bool" where
  "fits_bytes bs \<longleftrightarrow> length bs + 4 < 2 ^ 32"

definition fits_mime :: "bytes \<Rightarrow> bool" where
  "fits_mime s \<longleftrightarrow> length s \<le> 255"

definition fits_ocq :: "bytes qkd_open_connect_request \<Rightarrow> bool" where
  "fits_ocq X \<longleftrightarrow> fits_mime (metadata_mimetype (ocq_qos X))"

definition fits_ocs :: "bytes qkd_open_connect_response \<Rightarrow> bool" where
  "fits_ocs X \<longleftrightarrow> fits_mime (metadata_mimetype (ocs_qos X))"

definition fits_gkq :: "bytes qkd_get_key_request \<Rightarrow> bool" where
  "fits_gkq X \<longleftrightarrow> fits_bytes (gkq_metadata X)"

definition fits_gks :: "bytes qkd_get_key_response \<Rightarrow> bool" where
  "fits_gks X \<longleftrightarrow> fits_bytes (gks_key_buffer X) \<and> fits_bytes (gks_metadata X)"

section \<open>Sizes and encodings\<close>

lemma sizeof_bytes_enc [size_simps]:
  assumes "bytes_at m d bs" "fits_bytes bs"
  shows "qkd_sizeof_bytes d = of_nat (length (enc_bytes bs))"
proof (rule word_unat_eq_iff [THEN iffD2])
  have "unat (qkd_sizeof_bytes d) = length (enc_bytes bs)"
    using assms by (simp add: unat_qkd_sizeof_bytes bytes_at_def fits_bytes_def length_enc)
  moreover have "length (enc_bytes bs) < 2 ^ 64"
    using assms(2) by (simp add: fits_bytes_def length_enc)
  ultimately show "unat (qkd_sizeof_bytes d) = unat (of_nat (length (enc_bytes bs)) :: size_t)"
    by (simp only: unat_of_nat_size)
qed

lemma sizeof_str_enc [size_simps]:
  "cstr m p s \<Longrightarrow> qkd_sizeof_str p m = Inr (of_nat (length (enc_str s)))"
  by (simp add: qkd_sizeof_str_def strlen_cstr length_enc)

lemma sizeof_mimetype_enc [size_simps]:
  assumes "wf_mem m" "cstr m p s"
  shows "qkd_sizeof_mimetype p m =
    (if length s \<le> 255 then Inr (of_nat (length (enc_str s))) else Inl Aborted)"
proof -
  have "length s + 1 < 2 ^ 64"
    using assms by (rule cstr_length)
  then have "unat (of_nat (length (enc_str s)) :: size_t) = Suc (length s)"
    by (simp add: length_enc unat_of_nat take_bit_nat_eq_self del: of_nat_Suc)
  then have "(of_nat (length (enc_str s)) :: size_t) > MIMETYPE_MAX \<longleftrightarrow> \<not> length s \<le> 255"
    by (simp add: word_less_nat_alt MIMETYPE_MAX_def) linarith
  then show ?thesis
    using assms(2) by (simp add: qkd_sizeof_mimetype_def sizeof_str_enc)
qed

lemma sizeof_qos_enc [size_simps]:
  assumes "wf_mem m" "qos_at m q Q"
  shows "qkd_sizeof_qos q m =
    (if fits_mime (metadata_mimetype Q) then Inr (of_nat (length (enc_qos Q))) else Inl Aborted)"
proof -
  from assms(2) have "cstr m (metadata_mimetype q) (metadata_mimetype Q)"
    by (simp add: qos_at_def)
  with assms(1) show ?thesis
    by (simp add: qkd_sizeof_qos_def sizeof_mimetype_enc fits_mime_def length_enc)
qed

lemma sizeof_ocq_enc:
  assumes "wf_mem m" "ocq_at m x X" "fits_ocq X"
  shows "qkd_sizeof_open_connect_request x m = Inr (of_nat (length (enc_ocq X)))"
  using assms
  by (clarsimp simp: qkd_sizeof_open_connect_request_def ocq_at_def qkd_sizeof_uri_def size_simps
      fits_ocq_def enc_ocq_def ac_simps)

lemma sizeof_ocs_enc:
  assumes "wf_mem m" "ocs_at m x X" "fits_ocs X"
  shows "qkd_sizeof_open_connect_response x m = Inr (of_nat (length (enc_ocs X)))"
  using assms
  by (clarsimp simp: qkd_sizeof_open_connect_response_def ocs_at_def size_simps
      fits_ocs_def enc_ocs_def length_enc ac_simps)

lemma sizeof_gkq_enc:
  assumes "gkq_at m x X" "fits_gkq X"
  shows "qkd_sizeof_get_key_request x m = Inr (of_nat (length (enc_gkq X)))"
  using assms sizeof_bytes_enc [of m "gkq_metadata x" "gkq_metadata X"]
  by (simp add: qkd_sizeof_get_key_request_def qkd_sizeof_metadata_def gkq_at_def fits_gkq_def
      enc_gkq_def length_enc ac_simps)

lemma sizeof_gks_enc:
  assumes "gks_at m x X" "fits_gks X"
  shows "qkd_sizeof_get_key_response x m = Inr (of_nat (length (enc_gks X)))"
  using assms sizeof_bytes_enc [of m "gks_metadata x" "gks_metadata X"]
    sizeof_bytes_enc [of m "gks_key_buffer x" "gks_key_buffer X"]
  by (simp add: qkd_sizeof_get_key_response_def qkd_sizeof_metadata_def qkd_sizeof_key_buffer_def
      gks_at_def fits_gks_def enc_gks_def length_enc ac_simps)

lemma sizeof_clq_enc:
  "clq_at m x X \<Longrightarrow> qkd_sizeof_close_request x m = Inr (of_nat (length (enc_clq X)))"
  by (simp add: qkd_sizeof_close_request_def clq_at_def enc_clq_def)

lemma sizeof_cls_enc: "qkd_sizeof_close_response x m = Inr (of_nat (length (enc_cls X)))"
  by (simp add: qkd_sizeof_close_response_def enc_cls_def length_enc)

end
