(* ===== verification/Serializers.thy ===== *)
theory Serializers
  imports Sizes
begin

text \<open>
  The serializers of \<open>serializers.c\<close>, on memory: a \<open>stream_t\<close> is the pointer that the C
  code advances, so every function takes the stream pointer and returns the advanced one. The
  lemmas show that each writer puts exactly the wire encoding of theory \<open>WireFormat\<close> at the
  stream, whatever the byte order of the host, and that each reader computes exactly the decoder
  of that theory: the value when the buffer holds one, an access outside the buffer when it does
  not. What the packet code relies on of them is the locale \<open>message_writer\<close> of theory
  \<open>Packets\<close>, which is interpreted there for the six messages.
\<close>

section \<open>serializers.c: scalars, buffers and strings\<close>

definition qkd_uint32_to_stream :: "u32 \<Rightarrow> ptr \<Rightarrow> 'z mem_scheme \<Rightarrow> (ptr \<times> 'z mem_scheme) res" where
  "qkd_uint32_to_stream number stream m =
     bind_res (store stream (obj_bytes m (htonl m number)) m) (\<lambda>m.
     Inr (padd stream 4, m))"

definition qkd_uint32_from_stream :: "ptr \<Rightarrow> 'z mem_scheme \<Rightarrow> (u32 \<times> ptr) res" where
  "qkd_uint32_from_stream stream m =
     bind_res (load stream 4 m) (\<lambda>number.
     Inr (ntohl m (obj_word m number), padd stream 4))"

definition qkd_uuid_to_stream :: "bytes \<Rightarrow> ptr \<Rightarrow> 'z mem_scheme \<Rightarrow> (ptr \<times> 'z mem_scheme) res" where
  "qkd_uuid_to_stream u stream m =
     bind_res (store stream (take 16 u) m) (\<lambda>m.
     Inr (padd stream 16, m))"

definition qkd_uuid_from_stream ::
  "libuuid \<Rightarrow> ptr \<Rightarrow> 'z mem_scheme \<Rightarrow> (ptr \<times> ptr \<times> 'z mem_scheme) res" where
  "qkd_uuid_from_stream L stream m =
     (let (u, m) = malloc 16 m in
     bind_res (load stream 16 m) (\<lambda>src.
     bind_res (store u (uuid_copy L src) m) (\<lambda>m.
     Inr (u, padd stream 16, m))))"

definition qkd_bytes_data_to_stream ::
  "qkd_bytes \<Rightarrow> ptr \<Rightarrow> 'z mem_scheme \<Rightarrow> (ptr \<times> 'z mem_scheme) res" where
  "qkd_bytes_data_to_stream d stream m =
     bind_res (qkd_uint32_to_stream (bytes_size d) stream m) (\<lambda>(stream, m).
     let offset = ucast (bytes_size d) :: size_t in
     bind_res (memcpy stream (bytes_data d) offset m) (\<lambda>m.
     Inr (padd stream (unat offset), m)))"

definition qkd_bytes_data_from_stream ::
  "ptr \<Rightarrow> 'z mem_scheme \<Rightarrow> (qkd_bytes \<times> ptr \<times> 'z mem_scheme) res" where
  "qkd_bytes_data_from_stream stream m =
     bind_res (qkd_uint32_from_stream stream m) (\<lambda>(n, stream).
     let offset = ucast n :: size_t; (p, m) = malloc offset m in
     bind_res (memcpy p stream offset m) (\<lambda>m.
     Inr (\<lparr>bytes_size = n, bytes_data = p\<rparr>, padd stream (unat offset), m)))"

definition qkd_str_to_stream :: "ptr \<Rightarrow> ptr \<Rightarrow> 'z mem_scheme \<Rightarrow> (ptr \<times> 'z mem_scheme) res" where
  "qkd_str_to_stream str stream m =
     bind_res (qkd_sizeof_str str m) (\<lambda>offset.
     bind_res (memcpy stream str offset m) (\<lambda>m.
     Inr (padd stream (unat offset), m)))"

definition qkd_str_from_stream :: "ptr \<Rightarrow> 'z mem_scheme \<Rightarrow> (ptr \<times> ptr \<times> 'z mem_scheme) res" where
  "qkd_str_from_stream stream m =
     bind_res (qkd_sizeof_str stream m) (\<lambda>offset.
     let (str, m) = malloc offset m in
     bind_res (memcpy str stream offset m) (\<lambda>m.
     Inr (str, padd stream (unat offset), m)))"

definition qkd_uri_to_stream :: "ptr \<Rightarrow> ptr \<Rightarrow> 'z mem_scheme \<Rightarrow> (ptr \<times> 'z mem_scheme) res" where
  "qkd_uri_to_stream uri stream m = qkd_str_to_stream uri stream m"

definition qkd_uri_from_stream :: "ptr \<Rightarrow> 'z mem_scheme \<Rightarrow> (ptr \<times> ptr \<times> 'z mem_scheme) res" where
  "qkd_uri_from_stream stream m = qkd_str_from_stream stream m"

definition qkd_mimetype_to_stream :: "ptr \<Rightarrow> ptr \<Rightarrow> 'z mem_scheme \<Rightarrow> (ptr \<times> 'z mem_scheme) res" where
  "qkd_mimetype_to_stream mime stream m = qkd_str_to_stream mime stream m"

definition qkd_mimetype_from_stream :: "ptr \<Rightarrow> 'z mem_scheme \<Rightarrow> (ptr \<times> ptr \<times> 'z mem_scheme) res" where
  "qkd_mimetype_from_stream stream m = qkd_str_from_stream stream m"

definition qkd_qos_to_stream ::
  "ptr qkd_qos \<Rightarrow> ptr \<Rightarrow> 'z mem_scheme \<Rightarrow> (ptr \<times> 'z mem_scheme) res" where
  "qkd_qos_to_stream q stream m =
     bind_res (qkd_uint32_to_stream (key_chunk_size q) stream m) (\<lambda>(stream, m).
     bind_res (qkd_uint32_to_stream (max_bps q) stream m) (\<lambda>(stream, m).
     bind_res (qkd_uint32_to_stream (min_bps q) stream m) (\<lambda>(stream, m).
     bind_res (qkd_uint32_to_stream (jitter q) stream m) (\<lambda>(stream, m).
     bind_res (qkd_uint32_to_stream (priority q) stream m) (\<lambda>(stream, m).
     bind_res (qkd_uint32_to_stream (timeout q) stream m) (\<lambda>(stream, m).
     bind_res (qkd_uint32_to_stream (ttl q) stream m) (\<lambda>(stream, m).
     qkd_mimetype_to_stream (metadata_mimetype q) stream m)))))))"

definition qkd_qos_from_stream ::
  "ptr \<Rightarrow> 'z mem_scheme \<Rightarrow> (ptr qkd_qos \<times> ptr \<times> 'z mem_scheme) res" where
  "qkd_qos_from_stream stream m =
     bind_res (qkd_uint32_from_stream stream m) (\<lambda>(a, stream).
     bind_res (qkd_uint32_from_stream stream m) (\<lambda>(b, stream).
     bind_res (qkd_uint32_from_stream stream m) (\<lambda>(c, stream).
     bind_res (qkd_uint32_from_stream stream m) (\<lambda>(d, stream).
     bind_res (qkd_uint32_from_stream stream m) (\<lambda>(e, stream).
     bind_res (qkd_uint32_from_stream stream m) (\<lambda>(f, stream).
     bind_res (qkd_uint32_from_stream stream m) (\<lambda>(g, stream).
     bind_res (qkd_mimetype_from_stream stream m) (\<lambda>(s, stream, m).
     Inr (\<lparr>key_chunk_size = a, max_bps = b, min_bps = c, jitter = d, priority = e, timeout = f,
           ttl = g, metadata_mimetype = s\<rparr>, stream, m)))))))))"

definition qkd_key_buffer_to_stream ::
  "qkd_bytes \<Rightarrow> ptr \<Rightarrow> 'z mem_scheme \<Rightarrow> (ptr \<times> 'z mem_scheme) res" where
  "qkd_key_buffer_to_stream d stream m = qkd_bytes_data_to_stream d stream m"

definition qkd_key_buffer_from_stream ::
  "ptr \<Rightarrow> 'z mem_scheme \<Rightarrow> (qkd_bytes \<times> ptr \<times> 'z mem_scheme) res" where
  "qkd_key_buffer_from_stream stream m = qkd_bytes_data_from_stream stream m"

definition qkd_metadata_to_stream ::
  "qkd_bytes \<Rightarrow> ptr \<Rightarrow> 'z mem_scheme \<Rightarrow> (ptr \<times> 'z mem_scheme) res" where
  "qkd_metadata_to_stream d stream m = qkd_bytes_data_to_stream d stream m"

definition qkd_metadata_from_stream ::
  "ptr \<Rightarrow> 'z mem_scheme \<Rightarrow> (qkd_bytes \<times> ptr \<times> 'z mem_scheme) res" where
  "qkd_metadata_from_stream stream m = qkd_bytes_data_from_stream stream m"

section \<open>serializers.c: messages\<close>

text \<open>
  Four readers read a \<open>uuid_t\<close> the same way: \<open>qkd_uuid_from_stream\<close> into a temporary,
  \<open>uuid_copy\<close> out of it, \<open>free\<close>.
\<close>

definition take_uuid :: "libuuid \<Rightarrow> ptr \<Rightarrow> 'z mem_scheme \<Rightarrow> (bytes \<times> ptr \<times> 'z mem_scheme) res" where
  "take_uuid L stream m =
     bind_res (qkd_uuid_from_stream L stream m) (\<lambda>(uuid_ptr, stream, m).
     bind_res (load uuid_ptr 16 m) (\<lambda>u.
     bind_res (free uuid_ptr m) (\<lambda>m.
     Inr (uuid_copy L u, stream, m))))"

definition qkd_open_connect_request_to_stream ::
  "ptr qkd_open_connect_request \<Rightarrow> ptr \<Rightarrow> 'z mem_scheme \<Rightarrow> (ptr \<times> 'z mem_scheme) res" where
  "qkd_open_connect_request_to_stream x stream m =
     bind_res (qkd_uri_to_stream (ocq_source x) stream m) (\<lambda>(stream, m).
     bind_res (qkd_uri_to_stream (ocq_destination x) stream m) (\<lambda>(stream, m).
     bind_res (qkd_qos_to_stream (ocq_qos x) stream m) (\<lambda>(stream, m).
     qkd_uuid_to_stream (ocq_key_stream_id x) stream m)))"

definition qkd_open_connect_request_from_stream ::
  "libuuid \<Rightarrow> ptr \<Rightarrow> 'z mem_scheme \<Rightarrow> (ptr qkd_open_connect_request \<times> ptr \<times> 'z mem_scheme) res" where
  "qkd_open_connect_request_from_stream L stream m =
     bind_res (qkd_uri_from_stream stream m) (\<lambda>(s, stream, m).
     bind_res (qkd_uri_from_stream stream m) (\<lambda>(d, stream, m).
     bind_res (qkd_qos_from_stream stream m) (\<lambda>(q, stream, m).
     bind_res (take_uuid L stream m) (\<lambda>(u, stream, m).
     Inr (\<lparr>ocq_source = s, ocq_destination = d, ocq_qos = q, ocq_key_stream_id = u\<rparr>,
          stream, m)))))"

definition qkd_open_connect_response_to_stream ::
  "ptr qkd_open_connect_response \<Rightarrow> ptr \<Rightarrow> 'z mem_scheme \<Rightarrow> (ptr \<times> 'z mem_scheme) res" where
  "qkd_open_connect_response_to_stream x stream m =
     bind_res (qkd_uint32_to_stream (ocs_status x) stream m) (\<lambda>(stream, m).
     bind_res (qkd_qos_to_stream (ocs_qos x) stream m) (\<lambda>(stream, m).
     qkd_uuid_to_stream (ocs_key_stream_id x) stream m))"

definition qkd_open_connect_response_from_stream ::
  "libuuid \<Rightarrow> ptr \<Rightarrow> 'z mem_scheme \<Rightarrow> (ptr qkd_open_connect_response \<times> ptr \<times> 'z mem_scheme) res" where
  "qkd_open_connect_response_from_stream L stream m =
     bind_res (qkd_uint32_from_stream stream m) (\<lambda>(st, stream).
     bind_res (qkd_qos_from_stream stream m) (\<lambda>(q, stream, m).
     bind_res (take_uuid L stream m) (\<lambda>(u, stream, m).
     Inr (\<lparr>ocs_status = st, ocs_qos = q, ocs_key_stream_id = u\<rparr>, stream, m))))"

definition qkd_get_key_request_to_stream ::
  "qkd_bytes qkd_get_key_request \<Rightarrow> ptr \<Rightarrow> 'z mem_scheme \<Rightarrow> (ptr \<times> 'z mem_scheme) res" where
  "qkd_get_key_request_to_stream x stream m =
     bind_res (qkd_uuid_to_stream (gkq_key_stream_id x) stream m) (\<lambda>(stream, m).
     bind_res (qkd_uint32_to_stream (gkq_index x) stream m) (\<lambda>(stream, m).
     qkd_metadata_to_stream (gkq_metadata x) stream m))"

definition qkd_get_key_request_from_stream ::
  "libuuid \<Rightarrow> ptr \<Rightarrow> 'z mem_scheme \<Rightarrow> (qkd_bytes qkd_get_key_request \<times> ptr \<times> 'z mem_scheme) res" where
  "qkd_get_key_request_from_stream L stream m =
     bind_res (take_uuid L stream m) (\<lambda>(u, stream, m).
     bind_res (qkd_uint32_from_stream stream m) (\<lambda>(i, stream).
     bind_res (qkd_metadata_from_stream stream m) (\<lambda>(md, stream, m).
     Inr (\<lparr>gkq_key_stream_id = u, gkq_index = i, gkq_metadata = md\<rparr>, stream, m))))"

definition qkd_get_key_response_to_stream ::
  "qkd_bytes qkd_get_key_response \<Rightarrow> ptr \<Rightarrow> 'z mem_scheme \<Rightarrow> (ptr \<times> 'z mem_scheme) res" where
  "qkd_get_key_response_to_stream x stream m =
     bind_res (qkd_uint32_to_stream (gks_status x) stream m) (\<lambda>(stream, m).
     bind_res (qkd_uint32_to_stream (gks_index x) stream m) (\<lambda>(stream, m).
     bind_res (qkd_key_buffer_to_stream (gks_key_buffer x) stream m) (\<lambda>(stream, m).
     qkd_metadata_to_stream (gks_metadata x) stream m)))"

definition qkd_get_key_response_from_stream ::
  "ptr \<Rightarrow> 'z mem_scheme \<Rightarrow> (qkd_bytes qkd_get_key_response \<times> ptr \<times> 'z mem_scheme) res" where
  "qkd_get_key_response_from_stream stream m =
     bind_res (qkd_uint32_from_stream stream m) (\<lambda>(st, stream).
     bind_res (qkd_uint32_from_stream stream m) (\<lambda>(i, stream).
     bind_res (qkd_key_buffer_from_stream stream m) (\<lambda>(k, stream, m).
     bind_res (qkd_metadata_from_stream stream m) (\<lambda>(md, stream, m).
     Inr (\<lparr>gks_status = st, gks_index = i, gks_key_buffer = k, gks_metadata = md\<rparr>,
          stream, m)))))"

definition qkd_close_request_to_stream ::
  "qkd_close_request \<Rightarrow> ptr \<Rightarrow> 'z mem_scheme \<Rightarrow> (ptr \<times> 'z mem_scheme) res" where
  "qkd_close_request_to_stream x stream m = qkd_uuid_to_stream (clq_key_stream_id x) stream m"

definition qkd_close_request_from_stream ::
  "libuuid \<Rightarrow> ptr \<Rightarrow> 'z mem_scheme \<Rightarrow> (qkd_close_request \<times> ptr \<times> 'z mem_scheme) res" where
  "qkd_close_request_from_stream L stream m =
     bind_res (take_uuid L stream m) (\<lambda>(u, stream, m).
     Inr (\<lparr>clq_key_stream_id = u\<rparr>, stream, m))"

definition qkd_close_response_to_stream ::
  "qkd_close_response \<Rightarrow> ptr \<Rightarrow> 'z mem_scheme \<Rightarrow> (ptr \<times> 'z mem_scheme) res" where
  "qkd_close_response_to_stream x stream m = qkd_uint32_to_stream (cls_status x) stream m"

definition qkd_close_response_from_stream ::
  "ptr \<Rightarrow> 'z mem_scheme \<Rightarrow> (qkd_close_response \<times> ptr) res" where
  "qkd_close_response_from_stream stream m =
     bind_res (qkd_uint32_from_stream stream m) (\<lambda>(st, stream).
     Inr (\<lparr>cls_status = st\<rparr>, stream))"

text \<open>
  The header is copied as an object: four one-byte members and the size member, eight bytes
  without padding.
\<close>

definition header_object :: "'z mem_scheme \<Rightarrow> qkd_header \<Rightarrow> bytes" where
  "header_object m h =
     [major (hdr_version h), minor (hdr_version h), micro (hdr_version h), hdr_service h] @
     obj_bytes m (hdr_payload_size h)"

definition object_header :: "'z mem_scheme \<Rightarrow> bytes \<Rightarrow> qkd_header" where
  "object_header m bs =
     \<lparr>hdr_version = \<lparr>major = bs ! 0, minor = bs ! 1, micro = bs ! 2\<rparr>,
      hdr_service = bs ! 3, hdr_payload_size = obj_word m (drop 4 bs)\<rparr>"

definition qkd_header_to_stream ::
  "qkd_header \<Rightarrow> ptr \<Rightarrow> 'z mem_scheme \<Rightarrow> (ptr \<times> 'z mem_scheme) res" where
  "qkd_header_to_stream h stream m =
     (let h = h\<lparr>hdr_payload_size := htonl m (hdr_payload_size h)\<rparr> in
     bind_res (store stream (header_object m h) m) (\<lambda>m.
     Inr (padd stream 8, m)))"

definition qkd_header_from_stream :: "ptr \<Rightarrow> 'z mem_scheme \<Rightarrow> (qkd_header \<times> ptr) res" where
  "qkd_header_from_stream stream m =
     bind_res (load stream 8 m) (\<lambda>bs.
     let h = object_header m bs in
     Inr (h\<lparr>hdr_payload_size := ntohl m (hdr_payload_size h)\<rparr>, padd stream 8))"

section \<open>Writers\<close>

text \<open>
  A writer into block \<open>b\<close> may run when the block was written to before, as long as nothing
  else changed (\<open>scribbled\<close>). \<open>writer b m f e\<close>: from every such memory, wherever there
  is room, \<open>f\<close> puts exactly the bytes \<open>e\<close> at the stream and advances it past them.
\<close>

definition scribbled :: "nat \<Rightarrow> 'z mem_scheme \<Rightarrow> 'z mem_scheme \<Rightarrow> bool" where
  "scribbled b m m' \<longleftrightarrow>
     (\<exists>c c'. blocks m b = Some c \<and> length c' = length c \<and> m' = m\<lparr>blocks := (blocks m)(b \<mapsto> c')\<rparr>)"

definition writer ::
  "nat \<Rightarrow> 'z mem_scheme \<Rightarrow> (ptr \<Rightarrow> 'z mem_scheme \<Rightarrow> (ptr \<times> 'z mem_scheme) res) \<Rightarrow> bytes \<Rightarrow> bool" where
  "writer b m f e \<longleftrightarrow>
     (\<forall>m' i. scribbled b m m' \<longrightarrow> room m b i (length e) \<longrightarrow>
        f (Ptr b i) m' = Inr (Ptr b (i + length e), put b i e m'))"

lemma writerI:
  assumes "\<And>m' i. scribbled b m m' \<Longrightarrow> room m b i (length e) \<Longrightarrow>
    f (Ptr b i) m' = Inr (Ptr b (i + length e), put b i e m')"
  shows "writer b m f e"
  using assms by (simp add: writer_def)

lemma scribbled_refl: "blocks m b = Some c \<Longrightarrow> scribbled b m m"
  by (auto simp: scribbled_def fun_upd_idem intro!: exI [of _ c])

lemma scribbled_put:
  assumes "scribbled b m m'" "room m b i (length e)"
  shows "scribbled b m (put b i e m')"
proof -
  from assms obtain c c' where c: "blocks m b = Some c" "length c' = length c"
      "m' = m\<lparr>blocks := (blocks m)(b \<mapsto> c')\<rparr>" "i + length e \<le> length c"
    by (auto simp: scribbled_def room_def)
  then have "put b i e m' = m\<lparr>blocks := (blocks m)(b \<mapsto> write_at i e c')\<rparr>"
    by (simp add: put_def)
  moreover have "length (write_at i e c') = length c"
    using c by simp
  ultimately show ?thesis
    using c(1) unfolding scribbled_def by blast
qed

lemma scribbled_room: "scribbled b m m' \<Longrightarrow> room m' b' i n = room m b' i n"
  by (auto simp: scribbled_def room_def split: if_splits option.splits)

lemma scribbled_load: "scribbled b m m' \<Longrightarrow> \<not> in_block b p \<Longrightarrow> load p n m' = load p n m"
  by (cases p) (auto simp: scribbled_def load_def)

lemma scribbled_cstr: "scribbled b m m' \<Longrightarrow> \<not> in_block b p \<Longrightarrow> cstr m' p s = cstr m p s"
  by (cases p) (auto simp: scribbled_def cstr_def)

lemma scribbled_wf: "scribbled b m m' \<Longrightarrow> wf_mem m \<Longrightarrow> wf_mem m'"
  by (auto simp: scribbled_def wf_mem_def split: if_splits)

text \<open>Two writers in sequence write the concatenation.\<close>

lemma writer_bind:
  assumes "writer b m f e" "writer b m g e'"
  shows "writer b m (\<lambda>s m. bind_res (f s m) (\<lambda>(s, m). g s m)) (e @ e')"
proof (rule writerI)
  fix m' i
  assume m': "scribbled b m m'" and r: "room m b i (length (e @ e'))"
  from r have r1: "room m b i (length e)" and r2: "room m b (i + length e) (length e')"
    by (auto intro: room_mono)
  have "f (Ptr b i) m' = Inr (Ptr b (i + length e), put b i e m')"
    using assms(1) m' r1 by (simp add: writer_def)
  moreover have "g (Ptr b (i + length e)) (put b i e m') =
      Inr (Ptr b (i + length e + length e'), put b (i + length e) e' (put b i e m'))"
    using assms(2) r2 scribbled_put [OF m' r1] by (simp add: writer_def)
  moreover have "put b (i + length e) e' (put b i e m') = put b i (e @ e') m'"
    using r1 m' by (simp add: put_put scribbled_room)
  ultimately show "bind_res (f (Ptr b i) m') (\<lambda>(s, m). g s m) =
      Inr (Ptr b (i + length (e @ e')), put b i (e @ e') m')"
    by (simp add: add.assoc)
qed

lemma writer_u32: "writer b m (qkd_uint32_to_stream w) (enc_u32 w)"
  by (rule writerI)
    (simp add: qkd_uint32_to_stream_def enc_u32_def store_room scribbled_room obj_bytes_htonl)

lemma writer_uuid: "length u = 16 \<Longrightarrow> writer b m (qkd_uuid_to_stream u) u"
  by (rule writerI) (simp add: qkd_uuid_to_stream_def store_room scribbled_room)

lemma writer_header: "writer b m (qkd_header_to_stream h) (enc_header h)"
  by (rule writerI)
    (simp add: qkd_header_to_stream_def header_object_def enc_header_def enc_u32_def store_room
      scribbled_room obj_bytes_htonl)

lemma writer_str:
  assumes "wf_mem m" "cstr m p s" "\<not> in_block b p"
  shows "writer b m (qkd_str_to_stream p) (enc_str s)"
proof (rule writerI)
  fix m' i
  assume m': "scribbled b m m'" and r: "room m b i (length (enc_str s))"
  have p: "wf_mem m'" "cstr m' p s"
    using assms m' by (simp_all add: scribbled_wf scribbled_cstr)
  have "unat (of_nat (length (enc_str s)) :: size_t) = Suc (length s)"
    using unat_strlen_Suc [OF p] by (simp add: enc_str_def ac_simps)
  moreover have "room m' b i (length (s @ [0]))"
    using m' r by (simp add: enc_str_def scribbled_room)
  ultimately show "qkd_str_to_stream p (Ptr b i) m' =
      Inr (Ptr b (i + length (enc_str s)), put b i (enc_str s) m')"
    using p(2)
    by (simp add: qkd_str_to_stream_def memcpy_def sizeof_str_enc load_cstr store_room)
      (simp add: enc_str_def)
qed

lemma writer_data:
  assumes "bytes_at m d bs" "bytes_outside b d"
  shows "writer b m
    (\<lambda>s m. bind_res (memcpy s (bytes_data d) (ucast (bytes_size d)) m) (\<lambda>m.
       Inr (padd s (unat (ucast (bytes_size d) :: size_t)), m))) bs"
proof (rule writerI)
  fix m' i
  assume m': "scribbled b m m'" and r: "room m b i (length bs)"
  have n: "unat (bytes_size d) = length bs"
    using assms(1) by (simp add: bytes_at_def)
  have "load (bytes_data d) (length bs) m' = Inr bs"
  proof (cases "bytes_size d = 0")
    case True
    with n show ?thesis by (simp add: load_def)
  next
    case False
    with assms m' show ?thesis
      by (auto simp: bytes_at_def cbytes_def bytes_outside_def scribbled_load)
  qed
  with n r m' show "bind_res (memcpy (Ptr b i) (bytes_data d) (ucast (bytes_size d)) m') (\<lambda>m.
       Inr (padd (Ptr b i) (unat (ucast (bytes_size d) :: size_t)), m)) =
      Inr (Ptr b (i + length bs), put b i bs m')"
    by (simp add: memcpy_def store_room scribbled_room)
qed

lemma writer_bytes:
  assumes "bytes_at m d bs" "bytes_outside b d"
  shows "writer b m (qkd_bytes_data_to_stream d) (enc_bytes bs)"
proof -
  have "enc_u32 (of_nat (length bs)) = enc_u32 (bytes_size d)"
    using assms(1) by (simp add: bytes_at_def)
  then show ?thesis
    unfolding qkd_bytes_data_to_stream_def [abs_def] enc_bytes_def Let_def
    by (simp only: writer_bind [OF writer_u32 writer_data [OF assms]])
qed

lemma writer_qos:
  assumes "wf_mem m" "qos_at m q Q" "\<not> in_block b (metadata_mimetype q)"
  shows "writer b m (qkd_qos_to_stream q) (enc_qos Q)"
proof -
  have "writer b m (qkd_str_to_stream (metadata_mimetype q)) (enc_str (metadata_mimetype Q))"
    using assms by (auto simp: qos_at_def intro: writer_str)
  then show ?thesis
    using assms(2)
    by (simp add: qkd_qos_to_stream_def [abs_def] qkd_mimetype_to_stream_def [abs_def] enc_qos_def qos_at_def
        writer_bind writer_u32)
qed

lemma writer_ocq:
  assumes "wf_mem m" "ocq_at m x X" "ocq_outside b x"
  shows "writer b m (qkd_open_connect_request_to_stream x) (enc_ocq X)"
  using assms
  by (simp add: qkd_open_connect_request_to_stream_def [abs_def] qkd_uri_to_stream_def [abs_def] enc_ocq_def
      ocq_at_def ocq_outside_def writer_bind writer_str writer_qos writer_uuid)

lemma writer_ocs:
  assumes "wf_mem m" "ocs_at m x X" "ocs_outside b x"
  shows "writer b m (qkd_open_connect_response_to_stream x) (enc_ocs X)"
  using assms
  by (simp add: qkd_open_connect_response_to_stream_def [abs_def] enc_ocs_def
      ocs_at_def ocs_outside_def writer_bind writer_u32 writer_qos writer_uuid)

lemma writer_gkq:
  assumes "gkq_at m x X" "gkq_outside b x"
  shows "writer b m (qkd_get_key_request_to_stream x) (enc_gkq X)"
  using assms
  by (simp add: qkd_get_key_request_to_stream_def [abs_def] qkd_metadata_to_stream_def [abs_def] enc_gkq_def
      gkq_at_def gkq_outside_def writer_bind writer_u32 writer_uuid writer_bytes)

lemma writer_gks:
  assumes "gks_at m x X" "gks_outside b x"
  shows "writer b m (qkd_get_key_response_to_stream x) (enc_gks X)"
  using assms
  by (simp add: qkd_get_key_response_to_stream_def [abs_def] qkd_metadata_to_stream_def [abs_def]
      qkd_key_buffer_to_stream_def [abs_def] enc_gks_def gks_at_def gks_outside_def writer_bind writer_u32
      writer_bytes)

lemma writer_clq:
  "clq_at m x X \<Longrightarrow> writer b m (qkd_close_request_to_stream x) (enc_clq X)"
  by (simp add: qkd_close_request_to_stream_def [abs_def] enc_clq_def clq_at_def writer_uuid)

lemma writer_cls:
  "cls_at m x X \<Longrightarrow> writer b m (qkd_close_response_to_stream x) (enc_cls X)"
  by (simp add: qkd_close_response_to_stream_def [abs_def] enc_cls_def cls_at_def writer_u32)

section \<open>Readers\<close>

text \<open>
  \<open>readable m b c\<close>: block \<open>b\<close> holds the untrusted bytes \<open>c\<close>. The rule
  \<open>read_step\<close> takes one call of a reader against one step of a decoder, with the stream at
  offset \<open>i\<close> before and at \<open>j\<close> after.
\<close>

definition readable :: "'z mem_scheme \<Rightarrow> nat \<Rightarrow> bytes \<Rightarrow> bool" where
  "readable m b c \<longleftrightarrow> wf_mem m \<and> no_oom m \<and> blocks m b = Some c"

definition suffix_dec :: "(bytes \<Rightarrow> ('v \<times> bytes) option) \<Rightarrow> bool" where
  "suffix_dec dec \<longleftrightarrow> (\<forall>bs v r. dec bs = Some (v, r) \<longrightarrow> (\<exists>p. bs = p @ r))"

interpretation uuid: wire_codec "\<lambda>u. u" "dec_take 16" "\<lambda>u. length u = 16"
  by unfold_locales (auto simp: dec_take_iff)

lemma suffix_decs:
  "suffix_dec dec_u32" "suffix_dec dec_str" "suffix_dec dec_bytes" "suffix_dec (dec_take 16)"
  "suffix_dec dec_qos"
  by (auto simp: suffix_dec_def dest: u32.dec_sound str.dec_sound blob.dec_sound uuid.dec_sound
      qos.dec_sound)

lemma read_step:
  assumes dec: "suffix_dec dec"
    and F: "F = (case dec (drop i c) of None \<Rightarrow> Inl OutOfBounds
                 | Some (v, r) \<Rightarrow> Inr (X v (length c - length r)))"
    and step: "\<And>v j. j \<le> length c \<Longrightarrow> dec (drop i c) = Some (v, drop j c) \<Longrightarrow> G (X v j) = H (v, drop j c)"
  shows "bind_res F G = (case dec (drop i c) of None \<Rightarrow> Inl OutOfBounds | Some vr \<Rightarrow> H vr)"
proof (cases "dec (drop i c)")
  case (Some vr)
  obtain v r where vr: "vr = (v, r)" by (cases vr)
  with Some dec obtain p where p: "drop i c = p @ r"
    unfolding suffix_dec_def by blast
  define j where "j = length c - length r"
  have len: "length r \<le> length c - i"
    using arg_cong [OF p, of length] by simp
  have "drop j c = r"
  proof (cases "i \<le> length c")
    case True
    then have "j = i + length p"
      using arg_cong [OF p, of length] by (simp add: j_def)
    with p show ?thesis by (simp add: drop_append_prefix)
  next
    case False
    with p have "r = []" by simp
    then show ?thesis by (simp add: j_def)
  qed
  with step [of j v] Some vr F show ?thesis
    by (simp add: j_def)
qed (simp add: F)

lemma case_option_bind:
  "case_option E F (Option.bind a f) = case_option E (\<lambda>x. case_option E F (f x)) a"
  by (cases a) simp_all

lemma case_option_case_prod:
  "case_option E F (case p of (x, y) \<Rightarrow> f x y) = (case p of (x, y) \<Rightarrow> case_option E F (f x y))"
  by (cases p) simp

lemma readable_new_block:
  assumes "readable m b c" "length x \<le> length c"
  shows "readable (new_block a x m) b c"
proof -
  have "length x < 2 ^ 64"
    using assms by (auto simp: readable_def dest: wf_mem_length)
  then show ?thesis
    using assms by (auto simp: readable_def dest: wf_mem_live)
qed

lemma readable_kill_block: "readable m b c \<Longrightarrow> k \<noteq> b \<Longrightarrow> readable (kill_block k m) b c"
  by (simp add: readable_def)

lemma readable_neq: "readable m b c \<Longrightarrow> nxt m + k \<noteq> b"
  by (auto simp: readable_def dest: wf_mem_live)

definition str_block :: "bytes \<Rightarrow> 'z mem_scheme \<Rightarrow> 'z mem_scheme" where
  "str_block s m = new_block False (s @ [0]) m"

definition uuid_temp :: "bytes \<Rightarrow> 'z mem_scheme \<Rightarrow> 'z mem_scheme" where
  "uuid_temp u m = kill_block (nxt m) (new_block False u m)"

lemma read_u32:
  assumes "readable m b c"
  shows "qkd_uint32_from_stream (Ptr b i) m =
    (case dec_u32 (drop i c) of None \<Rightarrow> Inl OutOfBounds
     | Some (w, r) \<Rightarrow> Inr (w, Ptr b (length c - length r)))"
  using assms
  by (auto simp: qkd_uint32_from_stream_def readable_def load_def dec_u32_def dec_take_def
      ntohl_obj_word)

lemma read_uuid:
  assumes "readable m b c" "uuid_laws L"
  shows "take_uuid L (Ptr b i) m =
    (case dec_take 16 (drop i c) of None \<Rightarrow> Inl OutOfBounds
     | Some (u, r) \<Rightarrow>
         Inr (u, Ptr b (length c - length r), uuid_temp u m))"
proof -
  have "b \<noteq> nxt m"
    using readable_neq [OF assms(1), of 0] by simp
  then show ?thesis
    using assms
    by (auto simp: take_uuid_def qkd_uuid_from_stream_def readable_def malloc_no_oom load_def
        dec_take_def store_room put_new_block free_live uuid_temp_def)
qed

lemma read_bytes:
  assumes "readable m b c"
  shows "qkd_bytes_data_from_stream (Ptr b i) m =
    (case dec_bytes (drop i c) of None \<Rightarrow> Inl OutOfBounds
     | Some (bs, r) \<Rightarrow>
         Inr (\<lparr>bytes_size = of_nat (length bs), bytes_data = Ptr (nxt m) 0\<rparr>,
              Ptr b (length c - length r), new_block False bs m))"
proof -
  have "b \<noteq> nxt m"
    using readable_neq [OF assms(1), of 0] by simp
  then show ?thesis
    using assms
    unfolding qkd_bytes_data_from_stream_def dec_bytes_def case_option_bind
    by (intro read_step [OF suffix_decs(1) read_u32 [OF assms]])
      (auto simp: readable_def malloc_no_oom memcpy_def load_def dec_take_def store_room
        put_new_block Let_def split: option.splits)
qed

lemma strlen_dec:
  assumes "blocks m b = Some c"
  shows "strlen (Ptr b i) m =
    (case dec_str (drop i c) of None \<Rightarrow> Inl OutOfBounds | Some (s, r) \<Rightarrow> Inr (of_nat (length s)))"
  using assms by (auto simp: strlen_def dec_str_def Let_def)

lemma read_str:
  assumes "readable m b c"
  shows "qkd_str_from_stream (Ptr b i) m =
    (case dec_str (drop i c) of None \<Rightarrow> Inl OutOfBounds
     | Some (s, r) \<Rightarrow>
         Inr (Ptr (nxt m) 0, Ptr b (length c - length r), str_block s m))"
proof (cases "dec_str (drop i c)")
  case None
  with assms show ?thesis
    by (simp add: qkd_str_from_stream_def qkd_sizeof_str_def strlen_dec readable_def)
next
  case (Some sr)
  obtain s r where sr: "sr = (s, r)" by (cases sr)
  with Some have s: "drop i c = s @ 0 # r" "0 \<notin> set s"
    using str.dec_sound [of "drop i c" s r] by (auto simp: enc_str_def valid_str_def)
  have m: "wf_mem m" "no_oom m" "blocks m b = Some c" "b \<noteq> nxt m"
    using assms readable_neq [OF assms, of 0] by (simp_all add: readable_def)
  have len: "length c - i = length s + Suc (length r)"
    using arg_cong [OF s(1), of length] by simp
  have p: "cstr m (Ptr b i) s"
    using s m(3) len by (simp add: cstr_def)
  have n: "unat (1 + of_nat (length s) :: size_t) = Suc (length s)"
    using unat_strlen_Suc [OF m(1) p] by (simp add: add.commute)
  have "cstr (new_block False (junk_bytes (Suc (length s)) m) m) (Ptr b i) s"
    using m(1) p by (rule cstr_new_block(1))
  from load_cstr [OF this] sr Some p n m len show ?thesis
    by (simp add: qkd_str_from_stream_def sizeof_str_enc length_enc malloc_no_oom memcpy_def
        store_room put_new_block str_block_def)
qed

definition qos_struct :: "bytes qkd_qos \<Rightarrow> ptr \<Rightarrow> ptr qkd_qos" where
  "qos_struct Q p =
     \<lparr>key_chunk_size = key_chunk_size Q, max_bps = max_bps Q, min_bps = min_bps Q, jitter = jitter Q,
      priority = priority Q, timeout = timeout Q, ttl = ttl Q, metadata_mimetype = p\<rparr>"

lemma read_qos:
  assumes "readable m b c"
  shows "qkd_qos_from_stream (Ptr b i) m =
    (case dec_qos (drop i c) of None \<Rightarrow> Inl OutOfBounds
     | Some (Q, r) \<Rightarrow>
         Inr (qos_struct Q (Ptr (nxt m) 0), Ptr b (length c - length r),
              str_block (metadata_mimetype Q) m))"
  unfolding qkd_qos_from_stream_def dec_qos_def case_option_bind case_option_case_prod
    qkd_mimetype_from_stream_def
  apply (rule read_step [OF suffix_decs(1) read_u32 [OF assms]], clarsimp)+
  apply (rule read_step [OF suffix_decs(2) read_str [OF assms]])
  apply (simp add: qos_struct_def)
  done

text \<open>
  The structure a reader returns for a value, and the memory it leaves: a block per string or
  buffer, and the temporary of the key stream identifier allocated and freed again.
\<close>

definition ocq_struct :: "bytes qkd_open_connect_request \<Rightarrow> nat \<Rightarrow> ptr qkd_open_connect_request" where
  "ocq_struct X n =
     \<lparr>ocq_source = Ptr n 0, ocq_destination = Ptr (Suc n) 0,
      ocq_qos = qos_struct (ocq_qos X) (Ptr (Suc (Suc n)) 0),
      ocq_key_stream_id = ocq_key_stream_id X\<rparr>"

definition ocq_mem :: "bytes qkd_open_connect_request \<Rightarrow> 'z mem_scheme \<Rightarrow> 'z mem_scheme" where
  "ocq_mem X m =
     uuid_temp (ocq_key_stream_id X) (str_block (metadata_mimetype (ocq_qos X))
       (str_block (ocq_destination X) (str_block (ocq_source X) m)))"

definition ocs_struct :: "bytes qkd_open_connect_response \<Rightarrow> nat \<Rightarrow> ptr qkd_open_connect_response" where
  "ocs_struct X n =
     \<lparr>ocs_status = ocs_status X, ocs_qos = qos_struct (ocs_qos X) (Ptr n 0),
      ocs_key_stream_id = ocs_key_stream_id X\<rparr>"

definition ocs_mem :: "bytes qkd_open_connect_response \<Rightarrow> 'z mem_scheme \<Rightarrow> 'z mem_scheme" where
  "ocs_mem X m =
     uuid_temp (ocs_key_stream_id X) (str_block (metadata_mimetype (ocs_qos X)) m)"

definition blob_struct :: "bytes \<Rightarrow> nat \<Rightarrow> qkd_bytes" where
  "blob_struct bs n = \<lparr>bytes_size = of_nat (length bs), bytes_data = Ptr n 0\<rparr>"

definition gkq_struct :: "bytes qkd_get_key_request \<Rightarrow> nat \<Rightarrow> qkd_bytes qkd_get_key_request" where
  "gkq_struct X n =
     \<lparr>gkq_key_stream_id = gkq_key_stream_id X, gkq_index = gkq_index X,
      gkq_metadata = blob_struct (gkq_metadata X) (Suc n)\<rparr>"

definition gkq_mem :: "bytes qkd_get_key_request \<Rightarrow> 'z mem_scheme \<Rightarrow> 'z mem_scheme" where
  "gkq_mem X m = new_block False (gkq_metadata X) (uuid_temp (gkq_key_stream_id X) m)"

definition gks_struct :: "bytes qkd_get_key_response \<Rightarrow> nat \<Rightarrow> qkd_bytes qkd_get_key_response" where
  "gks_struct X n =
     \<lparr>gks_status = gks_status X, gks_index = gks_index X,
      gks_key_buffer = blob_struct (gks_key_buffer X) n,
      gks_metadata = blob_struct (gks_metadata X) (Suc n)\<rparr>"

definition gks_mem :: "bytes qkd_get_key_response \<Rightarrow> 'z mem_scheme \<Rightarrow> 'z mem_scheme" where
  "gks_mem X m = new_block False (gks_metadata X) (new_block False (gks_key_buffer X) m)"

lemmas reader_results =
  str_block_def uuid_temp_def ocq_struct_def ocq_mem_def ocs_struct_def ocs_mem_def
  blob_struct_def gkq_struct_def gkq_mem_def gks_struct_def gks_mem_def qos_struct_def

lemma dec_str_length: "dec_str (drop i c) = Some (s, drop j c) \<Longrightarrow> length (s @ [0]) \<le> length c"
  by (drule str.dec_length) (simp add: enc_str_def)

lemma dec_take_length: "dec_take n (drop i c) = Some (u, r) \<Longrightarrow> length u \<le> length c"
  by (auto simp: dec_take_def split: if_splits)

lemma dec_bytes_length: "dec_bytes (drop i c) = Some (u, r) \<Longrightarrow> length u \<le> length c"
  by (drule blob.dec_length) (simp add: length_enc)

lemma dec_qos_length:
  "dec_qos (drop i c) = Some (Q, r) \<Longrightarrow> length (metadata_mimetype Q @ [0]) \<le> length c"
  by (drule qos.dec_length) (simp add: length_enc)

lemma readable_str_block:
  "readable m b c \<Longrightarrow> length (s @ [0]) \<le> length c \<Longrightarrow> readable (str_block s m) b c"
  unfolding str_block_def by (rule readable_new_block)

lemma readable_uuid_temp:
  "readable m b c \<Longrightarrow> length u \<le> length c \<Longrightarrow> readable (uuid_temp u m) b c"
  using readable_neq [of m b c 0]
  by (simp add: uuid_temp_def readable_kill_block readable_new_block)

text \<open>One step of each reader, with what the next step needs of the memory.\<close>

lemma read_u32_step:
  assumes "readable m b c"
    and "\<And>w j. j \<le> length c \<Longrightarrow> G (w, Ptr b j) = H (w, drop j c)"
  shows "bind_res (qkd_uint32_from_stream (Ptr b i) m) G =
    (case dec_u32 (drop i c) of None \<Rightarrow> Inl OutOfBounds | Some vr \<Rightarrow> H vr)"
  by (rule read_step [OF suffix_decs(1) read_u32 [OF assms(1)]]) (rule assms(2))

lemma read_str_step:
  assumes "readable m b c"
    and "\<And>s j. j \<le> length c \<Longrightarrow> readable (str_block s m) b c \<Longrightarrow>
      G (Ptr (nxt m) 0, Ptr b j, str_block s m) = H (s, drop j c)"
  shows "bind_res (qkd_str_from_stream (Ptr b i) m) G =
    (case dec_str (drop i c) of None \<Rightarrow> Inl OutOfBounds | Some vr \<Rightarrow> H vr)"
  by (rule read_step [OF suffix_decs(2) read_str [OF assms(1)]])
    (rule assms(2) [OF _ readable_str_block [OF assms(1) dec_str_length]])

lemma read_qos_step:
  assumes "readable m b c"
    and "\<And>Q j. j \<le> length c \<Longrightarrow> readable (str_block (metadata_mimetype Q) m) b c \<Longrightarrow>
      G (qos_struct Q (Ptr (nxt m) 0), Ptr b j, str_block (metadata_mimetype Q) m) = H (Q, drop j c)"
  shows "bind_res (qkd_qos_from_stream (Ptr b i) m) G =
    (case dec_qos (drop i c) of None \<Rightarrow> Inl OutOfBounds | Some vr \<Rightarrow> H vr)"
  by (rule read_step [OF suffix_decs(5) read_qos [OF assms(1)]])
    (rule assms(2) [OF _ readable_str_block [OF assms(1) dec_qos_length]])

lemma read_bytes_step:
  assumes "readable m b c"
    and "\<And>bs j. j \<le> length c \<Longrightarrow> readable (new_block False bs m) b c \<Longrightarrow>
      G (blob_struct bs (nxt m), Ptr b j, new_block False bs m) = H (bs, drop j c)"
  shows "bind_res (qkd_bytes_data_from_stream (Ptr b i) m) G =
    (case dec_bytes (drop i c) of None \<Rightarrow> Inl OutOfBounds | Some vr \<Rightarrow> H vr)"
  using assms
  by (intro read_step [OF suffix_decs(3) read_bytes [OF assms(1)]])
    (simp add: blob_struct_def dec_bytes_length readable_new_block)

lemma read_uuid_step:
  assumes "readable m b c" "uuid_laws L"
    and "\<And>u j. j \<le> length c \<Longrightarrow> readable (uuid_temp u m) b c \<Longrightarrow>
      G (u, Ptr b j, uuid_temp u m) = H (u, drop j c)"
  shows "bind_res (take_uuid L (Ptr b i) m) G =
    (case dec_take 16 (drop i c) of None \<Rightarrow> Inl OutOfBounds | Some vr \<Rightarrow> H vr)"
  by (rule read_step [OF suffix_decs(4) read_uuid [OF assms(1,2)]])
    (rule assms(3) [OF _ readable_uuid_temp [OF assms(1) dec_take_length]])

lemmas read_steps = read_u32_step read_str_step read_qos_step read_bytes_step read_uuid_step

lemma nxt_readers [simp]:
  "nxt (str_block s m) = Suc (nxt m)" "nxt (uuid_temp u m) = Suc (nxt m)"
  by (simp_all add: str_block_def uuid_temp_def)

lemma read_ocq:
  assumes m: "readable m b c" and L: "uuid_laws L"
  shows "qkd_open_connect_request_from_stream L (Ptr b i) m =
    (case dec_ocq (drop i c) of None \<Rightarrow> Inl OutOfBounds
     | Some (X, r) \<Rightarrow> Inr (ocq_struct X (nxt m), Ptr b (length c - length r), ocq_mem X m))"
  unfolding qkd_open_connect_request_from_stream_def dec_ocq_def case_option_bind
    case_option_case_prod qkd_uri_from_stream_def
  by (insert m L, (rule read_steps, assumption+, clarsimp simp: ocq_struct_def ocq_mem_def)+)

lemma read_ocs:
  assumes m: "readable m b c" and L: "uuid_laws L"
  shows "qkd_open_connect_response_from_stream L (Ptr b i) m =
    (case dec_ocs (drop i c) of None \<Rightarrow> Inl OutOfBounds
     | Some (X, r) \<Rightarrow> Inr (ocs_struct X (nxt m), Ptr b (length c - length r), ocs_mem X m))"
  unfolding qkd_open_connect_response_from_stream_def dec_ocs_def case_option_bind
    case_option_case_prod
  by (insert m L, (rule read_steps, assumption+, clarsimp simp: ocs_struct_def ocs_mem_def)+)

lemma read_gkq:
  assumes m: "readable m b c" and L: "uuid_laws L"
  shows "qkd_get_key_request_from_stream L (Ptr b i) m =
    (case dec_gkq (drop i c) of None \<Rightarrow> Inl OutOfBounds
     | Some (X, r) \<Rightarrow> Inr (gkq_struct X (nxt m), Ptr b (length c - length r), gkq_mem X m))"
  unfolding qkd_get_key_request_from_stream_def dec_gkq_def case_option_bind
    case_option_case_prod qkd_metadata_from_stream_def
  by (insert m L, (rule read_steps, assumption+, clarsimp simp: gkq_struct_def gkq_mem_def)+)

lemma read_gks:
  assumes m: "readable m b c"
  shows "qkd_get_key_response_from_stream (Ptr b i) m =
    (case dec_gks (drop i c) of None \<Rightarrow> Inl OutOfBounds
     | Some (X, r) \<Rightarrow> Inr (gks_struct X (nxt m), Ptr b (length c - length r), gks_mem X m))"
  unfolding qkd_get_key_response_from_stream_def dec_gks_def case_option_bind
    case_option_case_prod qkd_metadata_from_stream_def qkd_key_buffer_from_stream_def
  by (insert m, (rule read_steps, assumption+, clarsimp simp: gks_struct_def gks_mem_def)+)

lemma read_clq:
  assumes m: "readable m b c" and L: "uuid_laws L"
  shows "qkd_close_request_from_stream L (Ptr b i) m =
    (case dec_clq (drop i c) of None \<Rightarrow> Inl OutOfBounds
     | Some (X, r) \<Rightarrow> Inr (X, Ptr b (length c - length r), uuid_temp (clq_key_stream_id X) m))"
  unfolding qkd_close_request_from_stream_def dec_clq_def case_option_bind case_option_case_prod
  by (insert m L, (rule read_steps, assumption+, clarsimp)+)

lemma read_cls:
  assumes m: "readable m b c"
  shows "qkd_close_response_from_stream (Ptr b i) m =
    (case dec_cls (drop i c) of None \<Rightarrow> Inl OutOfBounds
     | Some (X, r) \<Rightarrow> Inr (X, Ptr b (length c - length r)))"
  unfolding qkd_close_response_from_stream_def dec_cls_def case_option_bind case_option_case_prod
  by (insert m, (rule read_steps, assumption+, clarsimp)+)

lemma read_header:
  assumes "readable m b c"
  shows "qkd_header_from_stream (Ptr b i) m =
    (case dec_header (drop i c) of None \<Rightarrow> Inl OutOfBounds
     | Some (h, r) \<Rightarrow> Inr (h, Ptr b (length c - length r)))"
  using assms
  by (auto simp: qkd_header_from_stream_def readable_def load_def dec_header_def dec_take_def
      object_header_def ntohl_obj_word)

section \<open>What the readers leave in memory\<close>

lemma grows_str_block:
  "grows m A m' \<Longrightarrow> wf_mem m' \<Longrightarrow> grows m (insert (nxt m') A) (str_block s m')"
  by (simp add: str_block_def grows_new_block)

lemma grows_uuid_temp:
  assumes "grows m A m'" "wf_mem m'"
  shows "grows m A (uuid_temp u m')"
proof -
  have "nxt m' \<notin> A"
    using assms by (auto simp: grows_def dest: wf_mem_live)
  then show ?thesis
    using grows_kill_block [OF grows_new_block [OF assms, of u], of "nxt m'"]
    by (simp add: uuid_temp_def)
qed

lemma wf_mem_str_block: "wf_mem m \<Longrightarrow> length s + 1 < 2 ^ 64 \<Longrightarrow> wf_mem (str_block s m)"
  by (simp add: str_block_def)

lemma wf_mem_uuid_temp: "wf_mem m \<Longrightarrow> length u = 16 \<Longrightarrow> wf_mem (uuid_temp u m)"
  by (simp add: uuid_temp_def)

lemma fields_readers [simp]:
  "no_oom (str_block s m) = no_oom m" "no_oom (uuid_temp u m) = no_oom m"
  "blocks (str_block s m) b = (if b = nxt m then Some (s @ [0]) else blocks m b)"
  "blocks (uuid_temp u m) b = (if b = nxt m then None else blocks m b)"
  by (simp_all add: str_block_def uuid_temp_def)

lemma cstr_block: "blocks m b = Some (s @ [0]) \<Longrightarrow> valid_str s \<Longrightarrow> cstr m (Ptr b 0) s"
  by (simp add: cstr_def valid_str_def)

lemma bytes_at_block: "blocks m b = Some bs \<Longrightarrow> valid_bytes bs \<Longrightarrow> bytes_at m (blob_struct bs b) bs"
  by (simp add: bytes_at_def blob_struct_def valid_bytes_def cbytes_def load_def unat_of_nat
      take_bit_nat_eq_self)

lemma qos_at_struct:
  "blocks m b = Some (metadata_mimetype Q @ [0]) \<Longrightarrow> valid_qos Q \<Longrightarrow> qos_at m (qos_struct Q (Ptr b 0)) Q"
  by (simp add: qos_at_def qos_struct_def valid_qos_def cstr_block)

text \<open>
  Every reader returns a structure that denotes the decoded value, in a memory that differs from
  the old one by exactly the blocks the structure owns.
\<close>

lemma ocq_result:
  assumes "readable m b c" "dec_ocq (drop i c) = Some (X, r)"
  shows "wf_mem (ocq_mem X m)" "no_oom (ocq_mem X m)"
    "ocq_at (ocq_mem X m) (ocq_struct X (nxt m)) X"
    "grows m {nxt m, Suc (nxt m), Suc (Suc (nxt m))} (ocq_mem X m)"
proof -
  have m: "wf_mem m" "no_oom m" "length c < 2 ^ 64"
    using assms(1) by (auto simp: readable_def dest: wf_mem_length)
  have X: "drop i c = enc_ocq X @ r" "valid_ocq X"
    using ocq.dec_sound [OF assms(2)] by simp_all
  have "length (enc_ocq X) \<le> length c"
    using arg_cong [OF X(1), of length] by simp
  with m(3) have len: "length (ocq_source X) + 1 < 2 ^ 64" "length (ocq_destination X) + 1 < 2 ^ 64"
      "length (metadata_mimetype (ocq_qos X)) + 1 < 2 ^ 64"
    by (simp_all add: enc_ocq_def length_enc)
  note v = X(2) [unfolded valid_ocq_def]
  show "wf_mem (ocq_mem X m)" "no_oom (ocq_mem X m)"
    using m len v by (simp_all add: ocq_mem_def wf_mem_str_block wf_mem_uuid_temp)
  show "ocq_at (ocq_mem X m) (ocq_struct X (nxt m)) X"
    using v by (simp add: ocq_at_def ocq_struct_def ocq_mem_def cstr_block qos_at_struct)
  have w: "wf_mem (str_block (ocq_source X) m)"
      "wf_mem (str_block (ocq_destination X) (str_block (ocq_source X) m))"
    using m len by (simp_all add: wf_mem_str_block)
  have "grows m {Suc (Suc (nxt m)), Suc (nxt m), nxt m}
      (str_block (metadata_mimetype (ocq_qos X)) (str_block (ocq_destination X) (str_block (ocq_source X) m)))"
    using grows_str_block [OF grows_str_block [OF grows_str_block [OF grows_refl [OF m(1)] m(1)] w(1)] w(2)]
    by simp
  then show "grows m {nxt m, Suc (nxt m), Suc (Suc (nxt m))} (ocq_mem X m)"
    using w(2) len by (simp add: ocq_mem_def grows_uuid_temp wf_mem_str_block insert_commute)
qed

lemma ocs_result:
  assumes "readable m b c" "dec_ocs (drop i c) = Some (X, r)"
  shows "wf_mem (ocs_mem X m)" "no_oom (ocs_mem X m)"
    "ocs_at (ocs_mem X m) (ocs_struct X (nxt m)) X" "grows m {nxt m} (ocs_mem X m)"
proof -
  have m: "wf_mem m" "no_oom m" "length c < 2 ^ 64"
    using assms(1) by (auto simp: readable_def dest: wf_mem_length)
  have X: "drop i c = enc_ocs X @ r" "valid_ocs X"
    using ocs.dec_sound [OF assms(2)] by simp_all
  have len: "length (metadata_mimetype (ocs_qos X)) + 1 < 2 ^ 64"
    using arg_cong [OF X(1), of length] m(3) by (simp add: enc_ocs_def length_enc)
  note v = X(2) [unfolded valid_ocs_def]
  show "wf_mem (ocs_mem X m)" "no_oom (ocs_mem X m)"
    using m len v by (simp_all add: ocs_mem_def wf_mem_str_block wf_mem_uuid_temp)
  show "ocs_at (ocs_mem X m) (ocs_struct X (nxt m)) X"
    using v by (simp add: ocs_at_def ocs_struct_def ocs_mem_def qos_at_struct)
  show "grows m {nxt m} (ocs_mem X m)"
    using grows_str_block [OF grows_refl [OF m(1)] m(1)] m len
    by (simp add: ocs_mem_def grows_uuid_temp wf_mem_str_block)
qed

lemma gkq_result:
  assumes "readable m b c" "dec_gkq (drop i c) = Some (X, r)"
  shows "wf_mem (gkq_mem X m)" "no_oom (gkq_mem X m)"
    "gkq_at (gkq_mem X m) (gkq_struct X (nxt m)) X" "grows m {Suc (nxt m)} (gkq_mem X m)"
proof -
  have m: "wf_mem m" "no_oom m"
    using assms(1) by (simp_all add: readable_def)
  have v: "length (gkq_key_stream_id X) = 16" "valid_bytes (gkq_metadata X)"
    using gkq.dec_sound [OF assms(2)] by (simp_all add: valid_gkq_def)
  then show "wf_mem (gkq_mem X m)" "no_oom (gkq_mem X m)"
    using m by (simp_all add: gkq_mem_def wf_mem_uuid_temp valid_bytes_def)
  show "gkq_at (gkq_mem X m) (gkq_struct X (nxt m)) X"
    using v by (simp add: gkq_at_def gkq_struct_def gkq_mem_def bytes_at_block)
  show "grows m {Suc (nxt m)} (gkq_mem X m)"
    using grows_new_block [OF grows_uuid_temp [OF grows_refl [OF m(1)] m(1)]] m v
    by (simp add: gkq_mem_def wf_mem_uuid_temp)
qed

lemma gks_result:
  assumes "readable m b c" "dec_gks (drop i c) = Some (X, r)"
  shows "wf_mem (gks_mem X m)" "no_oom (gks_mem X m)"
    "gks_at (gks_mem X m) (gks_struct X (nxt m)) X" "grows m {nxt m, Suc (nxt m)} (gks_mem X m)"
proof -
  have m: "wf_mem m" "no_oom m"
    using assms(1) by (simp_all add: readable_def)
  have v: "valid_bytes (gks_key_buffer X)" "valid_bytes (gks_metadata X)"
    using gks.dec_sound [OF assms(2)] by (simp_all add: valid_gks_def)
  then show "wf_mem (gks_mem X m)" "no_oom (gks_mem X m)"
    using m by (simp_all add: gks_mem_def valid_bytes_def)
  show "gks_at (gks_mem X m) (gks_struct X (nxt m)) X"
    using v by (simp add: gks_at_def gks_struct_def gks_mem_def bytes_at_block)
  show "grows m {nxt m, Suc (nxt m)} (gks_mem X m)"
    using grows_new_block [OF grows_new_block [OF grows_refl [OF m(1)] m(1)]] m v
    by (simp add: gks_mem_def valid_bytes_def insert_commute)
qed

end
