(* ===== verification/Packets.thy ===== *)
theory Packets
  imports Serializers
begin

text \<open>
  The packet: a header and a payload in one freshly allocated buffer. The same statement
  sequence stands six times in the sources, once for each request in \<open>ssl_socket_client.c\<close>
  and once for each response in \<open>ssl_socket_server.c\<close>; \<open>make_packet\<close> is that sequence
  with the size function and the serializer of the message as arguments.

  The locale \<open>message_writer\<close> is the interface between the packet code and the serializers:
  the size function announces the length of the encoding, the serializer writes the encoding, and
  allocating the buffer does not disturb the message. Its one client lemma is that the buffer then
  holds exactly the packet: nothing is written outside it and no byte of it is left uninitialised.
\<close>

definition make_packet ::
  "u8 \<Rightarrow> ('x \<Rightarrow> 'z mem_scheme \<Rightarrow> size_t res) \<Rightarrow>
   ('x \<Rightarrow> ptr \<Rightarrow> 'z mem_scheme \<Rightarrow> (ptr \<times> 'z mem_scheme) res) \<Rightarrow>
   'x \<Rightarrow> 'z mem_scheme \<Rightarrow> (size_t \<times> ptr \<times> 'z mem_scheme) res" where
  "make_packet service sizeof to_stream x m =
     bind_res (sizeof x m) (\<lambda>payload.
     let header = \<lparr>hdr_version = QKD_004_VERSION, hdr_service = service, hdr_payload_size = ucast payload\<rparr>;
         size = 8 + ucast (hdr_payload_size header);
         (buf, m) = malloc size m in
     bind_res (qkd_header_to_stream header buf m) (\<lambda>(stream, m).
     bind_res (to_stream x stream m) (\<lambda>(stream, m).
     Inr (size, buf, m))))"

definition packet :: "u8 \<Rightarrow> bytes \<Rightarrow> bytes" where
  "packet service payload =
     enc_header \<lparr>hdr_version = QKD_004_VERSION, hdr_service = service,
       hdr_payload_size = of_nat (length payload)\<rparr> @ payload"

locale message_writer =
  fixes sizeof :: "'x \<Rightarrow> 'z mem_scheme \<Rightarrow> size_t res"
    and to_stream :: "'x \<Rightarrow> ptr \<Rightarrow> 'z mem_scheme \<Rightarrow> (ptr \<times> 'z mem_scheme) res"
    and at :: "'z mem_scheme \<Rightarrow> 'x \<Rightarrow> 'v \<Rightarrow> bool"
    and outside :: "nat \<Rightarrow> 'x \<Rightarrow> bool"
    and enc :: "'v \<Rightarrow> bytes"
    and fits :: "'v \<Rightarrow> bool"
  assumes sizeof_enc: "wf_mem m \<Longrightarrow> at m x X \<Longrightarrow> fits X \<Longrightarrow> sizeof x m = Inr (of_nat (length (enc X)))"
    and writer_enc: "wf_mem m \<Longrightarrow> at m x X \<Longrightarrow> outside b x \<Longrightarrow> writer b m (to_stream x) (enc X)"
    and at_new_block: "wf_mem m \<Longrightarrow> at m x X \<Longrightarrow> at (new_block False c m) x X"
    and outside_new_block: "wf_mem m \<Longrightarrow> at m x X \<Longrightarrow> outside (nxt m) x"
begin

lemma make_packet_exact:
  assumes m: "wf_mem m" "no_oom m" and x: "at m x X" "fits X" and len: "length (enc X) < 2 ^ 32"
  shows "make_packet service sizeof to_stream x m =
    Inr (of_nat (8 + length (enc X)), Ptr (nxt m) 0, new_block False (packet service (enc X)) m)"
proof -
  let ?n = "length (enc X)"
  let ?h = "\<lparr>hdr_version = QKD_004_VERSION, hdr_service = service, hdr_payload_size = of_nat ?n\<rparr>"
  have u: "unat (of_nat ?n :: size_t) = ?n" "unat (of_nat ?n :: u32) = ?n"
    using len by (simp_all add: unat_of_nat take_bit_nat_eq_self)
  have payload: "ucast (of_nat ?n :: size_t) = (of_nat ?n :: u32)"
    by (rule word_unat_eq_iff [THEN iffD2])
      (use len in \<open>simp add: u unsigned_ucast_eq take_bit_nat_eq_self\<close>)
  have total: "8 + ucast (of_nat ?n :: u32) = (of_nat (8 + ?n) :: size_t)"
    by (rule word_unat_eq_iff [THEN iffD2])
      (use len in \<open>simp add: u unat_word_ariths unat_of_nat take_bit_nat_eq_self\<close>)
  have size: "unat (of_nat (8 + ?n) :: size_t) = 8 + ?n"
    by (rule unat_of_nat_size) (use len in simp)
  define m0 where "m0 = new_block False (junk_bytes (8 + ?n) m) m"
  have m0: "wf_mem m0" "at m0 x X" "outside (nxt m) x" "blocks m0 (nxt m) = Some (junk_bytes (8 + ?n) m)"
    using m x(1) len at_new_block outside_new_block by (simp_all add: m0_def)
  have "writer (nxt m) m0
      (\<lambda>s m. bind_res (qkd_header_to_stream ?h s m) (\<lambda>(s, m). to_stream x s m)) (enc_header ?h @ enc X)"
    by (rule writer_bind [OF writer_header writer_enc [OF m0(1-3)]])
  moreover have "room m0 (nxt m) 0 (length (enc_header ?h @ enc X))"
    using m0(4) by (simp add: room_def length_enc)
  ultimately have "bind_res (qkd_header_to_stream ?h (Ptr (nxt m) 0) m0) (\<lambda>(s, m). to_stream x s m) =
      Inr (Ptr (nxt m) (8 + ?n), put (nxt m) 0 (packet service (enc X)) m0)"
    using scribbled_refl [OF m0(4)] by (simp add: writer_def packet_def length_enc)
  moreover have "put (nxt m) 0 (packet service (enc X)) m0 = new_block False (packet service (enc X)) m"
    unfolding m0_def by (rule put_new_block) (simp add: packet_def length_enc)
  ultimately show ?thesis
    by (auto simp: make_packet_def sizeof_enc [OF m(1) x] payload malloc_no_oom [OF m(2)] Let_def
        total size m0_def [symmetric] bind_res_eq_Inr simp del: of_nat_add)
qed

end

section \<open>The six messages keep the contract\<close>

lemmas message_at_defs =
  ocq_at_def ocs_at_def gkq_at_def gks_at_def clq_at_def cls_at_def
  ocq_outside_def ocs_outside_def gkq_outside_def gks_outside_def

lemmas fresh_blocks = cstr_new_block cbytes_new_block qos_new_block bytes_new_block

interpretation ocq_w: message_writer qkd_sizeof_open_connect_request
  qkd_open_connect_request_to_stream ocq_at ocq_outside enc_ocq fits_ocq
  by unfold_locales (auto intro: sizeof_ocq_enc writer_ocq simp: message_at_defs dest: fresh_blocks)

interpretation ocs_w: message_writer qkd_sizeof_open_connect_response
  qkd_open_connect_response_to_stream ocs_at ocs_outside enc_ocs fits_ocs
  by unfold_locales (auto intro: sizeof_ocs_enc writer_ocs simp: message_at_defs dest: fresh_blocks)

interpretation gkq_w: message_writer qkd_sizeof_get_key_request
  qkd_get_key_request_to_stream gkq_at gkq_outside enc_gkq fits_gkq
  by unfold_locales (auto intro: sizeof_gkq_enc writer_gkq simp: message_at_defs dest: fresh_blocks)

interpretation gks_w: message_writer qkd_sizeof_get_key_response
  qkd_get_key_response_to_stream gks_at gks_outside enc_gks fits_gks
  by unfold_locales (auto intro: sizeof_gks_enc writer_gks simp: message_at_defs dest: fresh_blocks)

interpretation clq_w: message_writer qkd_sizeof_close_request
  qkd_close_request_to_stream clq_at "\<lambda>b x. True" enc_clq valid_clq
  by unfold_locales (auto intro: sizeof_clq_enc writer_clq simp: message_at_defs)

interpretation cls_w: message_writer qkd_sizeof_close_response
  qkd_close_response_to_stream cls_at "\<lambda>b x. True" enc_cls valid_any
  by unfold_locales (auto intro: sizeof_cls_enc writer_cls simp: message_at_defs)

section \<open>The reader of a message\<close>

text \<open>
  The locale \<open>message_channel\<close> adds the other end: a reader of untrusted bytes that computes
  the decoder of the format. When the decoder has a value, the reader returns a structure that
  denotes it, and the memory has grown by exactly the blocks that structure owns; when it has none,
  the reader leaves the buffer.
\<close>

locale message_channel =
  message_writer sizeof to_stream at outside enc fits + wire_codec enc dec valid
  for sizeof :: "'x \<Rightarrow> 'z mem_scheme \<Rightarrow> size_t res"
    and to_stream :: "'x \<Rightarrow> ptr \<Rightarrow> 'z mem_scheme \<Rightarrow> (ptr \<times> 'z mem_scheme) res"
    and at :: "'z mem_scheme \<Rightarrow> 'x \<Rightarrow> 'v \<Rightarrow> bool"
    and outside :: "nat \<Rightarrow> 'x \<Rightarrow> bool"
    and enc :: "'v \<Rightarrow> bytes"
    and fits :: "'v \<Rightarrow> bool"
    and dec :: "bytes \<Rightarrow> ('v \<times> bytes) option"
    and valid :: "'v \<Rightarrow> bool" +
  fixes from_stream :: "libuuid \<Rightarrow> ptr \<Rightarrow> 'z mem_scheme \<Rightarrow> ('x \<times> ptr \<times> 'z mem_scheme) res"
    and owned :: "nat \<Rightarrow> nat set"
  assumes read_value: "uuid_laws L \<Longrightarrow> readable m b c \<Longrightarrow> dec (drop i c) = Some (X, r) \<Longrightarrow>
      \<exists>x m'. from_stream L (Ptr b i) m = Inr (x, Ptr b (length c - length r), m') \<and> at m' x X \<and>
        wf_mem m' \<and> no_oom m' \<and> grows m (owned (nxt m)) m'"
    and read_fault: "uuid_laws L \<Longrightarrow> readable m b c \<Longrightarrow> dec (drop i c) = None \<Longrightarrow>
      from_stream L (Ptr b i) m = Inl OutOfBounds"
    and at_valid: "at m x X \<Longrightarrow> valid X"
begin

lemma reader_exact:
  assumes "uuid_laws L" "readable m b (enc X)" "valid X"
  shows "\<exists>x m'. from_stream L (Ptr b 0) m = Inr (x, Ptr b (length (enc X)), m') \<and> at m' x X \<and>
    wf_mem m' \<and> no_oom m' \<and> grows m (owned (nxt m)) m'"
  using read_value [OF assms(1,2), of 0 X "[]"] dec_enc [OF assms(3), of "[]"] by simp

lemma dec_truncated:
  assumes "valid X" "k < length (enc X)"
  shows "dec (take k (enc X)) = None"
proof (rule ccontr)
  assume "dec (take k (enc X)) \<noteq> None"
  then obtain Y r where "dec (take k (enc X)) = Some (Y, r)"
    by auto
  then have Y: "valid Y" "take k (enc X) = enc Y @ r"
    by (simp_all add: dec_iff)
  then have "enc Y @ (r @ drop k (enc X)) = enc X @ []"
    by (metis append.assoc append_Nil2 append_take_drop_id)
  then have "r @ drop k (enc X) = []"
    using prefix_free [OF Y(1) assms(1)] by blast
  with assms(2) show False by simp
qed

lemma reader_truncated:
  assumes "uuid_laws L" "valid X" "k < length (enc X)" "readable m b (take k (enc X))"
  shows "from_stream L (Ptr b 0) m = Inl OutOfBounds"
  using read_fault [OF assms(1,4), of 0] dec_truncated [OF assms(2,3)] by simp

text \<open>
  A packet whose first eight bytes are put into one buffer and whose rest into a second one, as the
  receive functions do, is read back as the header and the message it was built from. Nothing is
  assumed about the byte order of the host.
\<close>

lemma packet_read:
  assumes L: "uuid_laws L" and X: "valid X"
    and m: "readable m b (take 8 (packet service (enc X)))" "readable m b' (drop 8 (packet service (enc X)))"
  shows "qkd_header_from_stream (Ptr b 0) m =
      Inr (\<lparr>hdr_version = QKD_004_VERSION, hdr_service = service,
            hdr_payload_size = of_nat (length (enc X))\<rparr>, Ptr b 8)"
    "\<exists>y m'. from_stream L (Ptr b' 0) m = Inr (y, Ptr b' (length (enc X)), m') \<and>
      at m' y X \<and> grows m (owned (nxt m)) m'"
proof -
  let ?h = "\<lparr>hdr_version = QKD_004_VERSION, hdr_service = service,
    hdr_payload_size = of_nat (length (enc X))\<rparr>"
  have c: "take 8 (packet service (enc X)) = enc_header ?h" "drop 8 (packet service (enc X)) = enc X"
    by (simp_all add: packet_def length_enc)
  show "qkd_header_from_stream (Ptr b 0) m = Inr (?h, Ptr b 8)"
    using read_header [OF m(1), of 0] c(1) header.dec_enc [of ?h "[]"]
    by (simp add: length_enc valid_any_def)
  show "\<exists>y m'. from_stream L (Ptr b' 0) m = Inr (y, Ptr b' (length (enc X)), m') \<and>
      at m' y X \<and> grows m (owned (nxt m)) m'"
    using reader_exact [OF L, of m b' X] m(2) c(2) X by auto
qed

end

section \<open>The six messages can be read back\<close>

lemma valid_at:
  "cstr m p s \<Longrightarrow> valid_str s" "bytes_at m d bs \<Longrightarrow> valid_bytes bs" "qos_at m q Q \<Longrightarrow> valid_qos Q"
  using unsigned_less [of "bytes_size d"]
  by (auto simp: cstr_def valid_str_def bytes_at_def valid_bytes_def qos_at_def valid_qos_def
      split: ptr.splits option.splits)

lemma grows_uuid_only: "wf_mem m \<Longrightarrow> grows m {} (uuid_temp u m)"
  by (simp add: grows_uuid_temp)

interpretation ocq_c: message_channel qkd_sizeof_open_connect_request
  qkd_open_connect_request_to_stream ocq_at ocq_outside enc_ocq fits_ocq dec_ocq valid_ocq
  qkd_open_connect_request_from_stream "\<lambda>n. {n, Suc n, Suc (Suc n)}"
  by unfold_locales
    (auto simp: read_ocq ocq_at_def valid_ocq_def dest: ocq_result valid_at)

interpretation ocs_c: message_channel qkd_sizeof_open_connect_response
  qkd_open_connect_response_to_stream ocs_at ocs_outside enc_ocs fits_ocs dec_ocs valid_ocs
  qkd_open_connect_response_from_stream "\<lambda>n. {n}"
  by unfold_locales
    (auto simp: read_ocs ocs_at_def valid_ocs_def dest: ocs_result valid_at)

interpretation gkq_c: message_channel qkd_sizeof_get_key_request
  qkd_get_key_request_to_stream gkq_at gkq_outside enc_gkq fits_gkq dec_gkq valid_gkq
  qkd_get_key_request_from_stream "\<lambda>n. {Suc n}"
  by unfold_locales
    (auto simp: read_gkq gkq_at_def valid_gkq_def dest: gkq_result valid_at)

interpretation gks_c: message_channel qkd_sizeof_get_key_response
  qkd_get_key_response_to_stream gks_at gks_outside enc_gks fits_gks dec_gks valid_gks
  "\<lambda>L. qkd_get_key_response_from_stream" "\<lambda>n. {n, Suc n}"
  by unfold_locales
    (auto simp: read_gks gks_at_def valid_gks_def dest: gks_result valid_at)

interpretation clq_c: message_channel qkd_sizeof_close_request
  qkd_close_request_to_stream clq_at "\<lambda>b x. True" enc_clq valid_clq dec_clq valid_clq
  qkd_close_request_from_stream "\<lambda>n. {}"
  by unfold_locales
    (auto simp: read_clq clq_at_def valid_clq_def readable_def wf_mem_uuid_temp grows_uuid_only
      dest: clq.dec_sound)

interpretation cls_c: message_channel qkd_sizeof_close_response
  qkd_close_response_to_stream cls_at "\<lambda>b x. True" enc_cls valid_any dec_cls valid_any
  "\<lambda>L p m. bind_res (qkd_close_response_from_stream p m) (\<lambda>(x, p). Inr (x, p, m))" "\<lambda>n. {}"
  by unfold_locales (auto simp: read_cls cls_at_def valid_any_def readable_def)

end
