(* ===== verification/Samples.thy ===== *)
theory Samples
  imports Packets
begin

text \<open>
  Concrete hosts and messages on which the properties are exercised: a memory whose blocks are
  given as a list, with either byte order, an implementation of the libuuid calls, and one message
  of each kind.
\<close>

definition sample_mem :: "bool \<Rightarrow> bytes list \<Rightarrow> mem" where
  "sample_mem be cs =
     \<lparr>blocks = (\<lambda>i. if i < length cs then Some (cs ! i) else None), autos = (\<lambda>_. False),
      nxt = length cs, alloc_ok = (\<lambda>_ _. True), junk = (\<lambda>_ _. 0), host_be = be,
      stack_size = 8388608\<rparr>"

definition sample_uuid :: libuuid where
  "sample_uuid =
     \<lparr>uuid_copy = (\<lambda>u. u), uuid_compare = (\<lambda>u v. if u = v then 0 else 1),
      uuid_generate_random = (\<lambda>i. be_bytes (of_nat i) @ replicate 12 7)\<rparr>"

definition sample_qos :: "'p \<Rightarrow> 'p qkd_qos" where
  "sample_qos p =
     \<lparr>key_chunk_size = 2, max_bps = 40000, min_bps = 5000, jitter = 10, priority = 0,
      timeout = 5000, ttl = 3600, metadata_mimetype = p\<rparr>"

definition sample_ocq :: "'p \<Rightarrow> 'p \<Rightarrow> 'p \<Rightarrow> 'p qkd_open_connect_request" where
  "sample_ocq s d p =
     \<lparr>ocq_source = s, ocq_destination = d, ocq_qos = sample_qos p, ocq_key_stream_id = nil_uuid\<rparr>"

definition sample_ocs :: "'p \<Rightarrow> 'p qkd_open_connect_response" where
  "sample_ocs p = \<lparr>ocs_status = 0, ocs_qos = sample_qos p, ocs_key_stream_id = replicate 16 9\<rparr>"

definition sample_gkq :: "'b \<Rightarrow> 'b qkd_get_key_request" where
  "sample_gkq d = \<lparr>gkq_key_stream_id = replicate 16 9, gkq_index = 258, gkq_metadata = d\<rparr>"

definition sample_gks :: "'b \<Rightarrow> 'b \<Rightarrow> 'b qkd_get_key_response" where
  "sample_gks k d = \<lparr>gks_status = 0, gks_index = 258, gks_key_buffer = k, gks_metadata = d\<rparr>"

lemmas sample_messages = sample_qos_def sample_ocq_def sample_ocs_def sample_gkq_def sample_gks_def

lemma sample_mem_fields [simp]:
  "blocks (sample_mem be cs) i = (if i < length cs then Some (cs ! i) else None)"
  "nxt (sample_mem be cs) = length cs" "no_oom (sample_mem be cs)" "\<not> autos (sample_mem be cs) i"
  "stack_size (sample_mem be cs) = 8388608" "host_be (sample_mem be cs) = be"
  by (simp_all add: sample_mem_def no_oom_def)

lemma wf_sample_mem: "wf_mem (sample_mem be cs) \<longleftrightarrow> (\<forall>i < length cs. length (cs ! i) < 2 ^ 64)"
  by (auto simp: wf_mem_def)

lemma readable_sample_mem:
  "readable (sample_mem be cs) b c \<longleftrightarrow>
     (\<forall>i < length cs. length (cs ! i) < 2 ^ 64) \<and> b < length cs \<and> cs ! b = c"
  by (auto simp: readable_def wf_sample_mem)

lemma uuid_laws_sample [simp]: "uuid_laws sample_uuid"
  by (auto simp: uuid_laws_def sample_uuid_def)

lemmas sample_at =
  ocq_at_def ocs_at_def gkq_at_def gks_at_def qos_at_def bytes_at_def cbytes_def cstr_def load_def

end
