(* ===== verification/Copy.thy ===== *)
theory Copy
  imports Serializers
begin

text \<open>
  The deep copies of \<open>copy.c\<close>. A destination is the old value of the pointer variable and the
  result is its new value: the old string is freed, a fresh copy is allocated.
\<close>

definition qkd_copy_str :: "ptr \<Rightarrow> ptr \<Rightarrow> 'z mem_scheme \<Rightarrow> (ptr \<times> 'z mem_scheme) res" where
  "qkd_copy_str dst src m =
     bind_res (qkd_sizeof_str src m) (\<lambda>str_size.
     bind_res (if dst \<noteq> NULL then free dst m else Inr m) (\<lambda>m.
     let (dst, m) = malloc str_size m in
     bind_res (memcpy dst src str_size m) (\<lambda>m.
     Inr (dst, m))))"

definition qkd_copy_uri :: "ptr \<Rightarrow> ptr \<Rightarrow> 'z mem_scheme \<Rightarrow> (ptr \<times> 'z mem_scheme) res" where
  "qkd_copy_uri dst src m = qkd_copy_str dst src m"

definition qkd_copy_mimetype :: "ptr \<Rightarrow> ptr \<Rightarrow> 'z mem_scheme \<Rightarrow> (ptr \<times> 'z mem_scheme) res" where
  "qkd_copy_mimetype dst src m = qkd_copy_str dst src m"

definition qkd_copy_qos ::
  "ptr qkd_qos \<Rightarrow> ptr qkd_qos \<Rightarrow> 'z mem_scheme \<Rightarrow> (ptr qkd_qos \<times> 'z mem_scheme) res" where
  "qkd_copy_qos dst src m =
     bind_res (qkd_copy_mimetype (metadata_mimetype dst) (metadata_mimetype src) m) (\<lambda>(p, m).
     Inr (dst\<lparr>key_chunk_size := key_chunk_size src, max_bps := max_bps src, min_bps := min_bps src,
              jitter := jitter src, priority := priority src, timeout := timeout src,
              ttl := ttl src, metadata_mimetype := p\<rparr>, m))"

section \<open>Lemmas\<close>

lemma load_kill_other: "\<not> in_block b p \<Longrightarrow> load p n (kill_block b m) = load p n m"
  by (cases p) (auto simp: load_def)

lemma cstr_kill_other: "\<not> in_block b p \<Longrightarrow> cstr (kill_block b m) p s = cstr m p s"
  by (cases p) (auto simp: cstr_def)

text \<open>Copying into an empty variable.\<close>

lemma copy_str_fresh:
  assumes "wf_mem m" "no_oom m" "cstr m src s"
  shows "qkd_copy_str NULL src m = Inr (Ptr (nxt m) 0, str_block s m)"
proof -
  have n: "unat (of_nat (length (enc_str s)) :: size_t) = Suc (length s)"
    using unat_strlen_Suc [OF assms(1,3)] by (simp add: enc_str_def ac_simps)
  have "cstr (new_block False (junk_bytes (Suc (length s)) m) m) src s"
    using assms(1,3) by (rule cstr_new_block)
  from load_cstr [OF this] n assms show ?thesis
    by (simp add: qkd_copy_str_def sizeof_str_enc malloc_no_oom memcpy_def store_room
        put_new_block str_block_def)
qed

text \<open>Copying over a string the variable owns; the source lies elsewhere.\<close>

lemma copy_str_over:
  assumes "wf_mem m" "no_oom m" "cstr m src s" "blocks m b = Some c" "\<not> autos m b" "\<not> in_block b src"
  shows "qkd_copy_str (Ptr b 0) src m = Inr (Ptr (nxt m) 0, str_block s (kill_block b m))"
proof -
  have "qkd_copy_str NULL src (kill_block b m) = Inr (Ptr (nxt m) 0, str_block s (kill_block b m))"
    using copy_str_fresh [of "kill_block b m" src s] assms by (simp add: cstr_kill_other)
  then show ?thesis
    using assms(3-6)
    by (simp add: qkd_copy_str_def sizeof_str_enc [of m src s]
        sizeof_str_enc [of "kill_block b m" src s] free_live cstr_kill_other)
qed

text \<open>Copying a variable onto itself frees the source before it is read.\<close>

lemma copy_str_self:
  assumes "wf_mem m" "no_oom m" "cstr m (Ptr b 0) s" "\<not> autos m b"
  shows "qkd_copy_str (Ptr b 0) (Ptr b 0) m = Inl DeadBlock"
proof -
  from assms(3) obtain c where c: "blocks m b = Some c"
    by (auto simp: cstr_Ptr)
  have n: "unat (of_nat (length (enc_str s)) :: size_t) = Suc (length s)"
    using unat_strlen_Suc [OF assms(1,3)] by (simp add: enc_str_def ac_simps)
  have "b \<noteq> nxt m"
    using assms(1) c by (auto dest: wf_mem_live)
  with c n assms show ?thesis
    by (simp add: qkd_copy_str_def sizeof_str_enc free_live malloc_no_oom memcpy_def load_def)
qed

lemma copy_qos_fresh:
  assumes "wf_mem m" "no_oom m" "qos_at m q Q" "metadata_mimetype d = NULL"
  shows "qkd_copy_qos d q m =
    Inr (qos_struct Q (Ptr (nxt m) 0), str_block (metadata_mimetype Q) m)"
proof -
  have "qkd_copy_str NULL (metadata_mimetype q) m =
      Inr (Ptr (nxt m) 0, str_block (metadata_mimetype Q) m)"
    using assms(1-3) by (intro copy_str_fresh) (simp_all add: qos_at_def)
  with assms(3,4) show ?thesis
    by (simp add: qkd_copy_qos_def qkd_copy_mimetype_def qos_struct_def qos_at_def)
qed

lemma copy_qos_over:
  assumes "wf_mem m" "no_oom m" "qos_at m q Q" "metadata_mimetype d = Ptr b 0"
    "blocks m b = Some c" "\<not> autos m b" "\<not> in_block b (metadata_mimetype q)"
  shows "qkd_copy_qos d q m =
    Inr (qos_struct Q (Ptr (nxt m) 0), str_block (metadata_mimetype Q) (kill_block b m))"
proof -
  have "qkd_copy_str (Ptr b 0) (metadata_mimetype q) m =
      Inr (Ptr (nxt m) 0, str_block (metadata_mimetype Q) (kill_block b m))"
    using assms by (intro copy_str_over) (simp_all add: qos_at_def)
  with assms(3,4) show ?thesis
    by (simp add: qkd_copy_qos_def qkd_copy_mimetype_def qos_struct_def qos_at_def)
qed

end
