(* ===== verification/FreeUtils.thy ===== *)
theory FreeUtils
  imports Serializers
begin

text \<open>
  The release functions of \<open>memory_free_utils.c\<close>. An argument is the structure behind the
  pointer the caller passes, \<open>None\<close> for a null pointer; the result is the structure afterwards.
  Members are reset to NULL, so that releasing a structure twice releases its blocks once.
\<close>

definition free_qkd_bytes ::
  "qkd_bytes option \<Rightarrow> 'z mem_scheme \<Rightarrow> (qkd_bytes option \<times> 'z mem_scheme) res" where
  "free_qkd_bytes d m =
     (case d of
        None \<Rightarrow> Inr (None, m)
      | Some d \<Rightarrow>
          bind_res (free (bytes_data d) m) (\<lambda>m. Inr (Some (d\<lparr>bytes_data := NULL\<rparr>), m)))"

definition free_qkd_qos ::
  "ptr qkd_qos option \<Rightarrow> 'z mem_scheme \<Rightarrow> (ptr qkd_qos option \<times> 'z mem_scheme) res" where
  "free_qkd_qos q m =
     (case q of
        None \<Rightarrow> Inr (None, m)
      | Some q \<Rightarrow>
          bind_res (free (metadata_mimetype q) m) (\<lambda>m. Inr (Some (q\<lparr>metadata_mimetype := NULL\<rparr>), m)))"

definition free_qkd_open_connect_request ::
  "ptr qkd_open_connect_request option \<Rightarrow> 'z mem_scheme \<Rightarrow>
   (ptr qkd_open_connect_request option \<times> 'z mem_scheme) res" where
  "free_qkd_open_connect_request x m =
     (case x of
        None \<Rightarrow> Inr (None, m)
      | Some x \<Rightarrow>
          bind_res (free (ocq_source x) m) (\<lambda>m.
          let x = x\<lparr>ocq_source := NULL\<rparr> in
          bind_res (free (ocq_destination x) m) (\<lambda>m.
          let x = x\<lparr>ocq_destination := NULL\<rparr> in
          bind_res (free_qkd_qos (Some (ocq_qos x)) m) (\<lambda>(q, m).
          Inr (Some (x\<lparr>ocq_qos := the q\<rparr>), m)))))"

definition free_qkd_open_connect_response ::
  "ptr qkd_open_connect_response option \<Rightarrow> 'z mem_scheme \<Rightarrow>
   (ptr qkd_open_connect_response option \<times> 'z mem_scheme) res" where
  "free_qkd_open_connect_response x m =
     (case x of
        None \<Rightarrow> Inl NullDeref
      | Some x \<Rightarrow>
          bind_res (free_qkd_qos (Some (ocs_qos x)) m) (\<lambda>(q, m).
          Inr (Some (x\<lparr>ocs_qos := the q\<rparr>), m)))"

text \<open>The body of this one is commented out in the source.\<close>

definition free_qkd_get_key_request ::
  "qkd_bytes qkd_get_key_request option \<Rightarrow> 'z mem_scheme \<Rightarrow>
   (qkd_bytes qkd_get_key_request option \<times> 'z mem_scheme) res" where
  "free_qkd_get_key_request x m = Inr (x, m)"

definition free_qkd_get_key_response ::
  "qkd_bytes qkd_get_key_response option \<Rightarrow> 'z mem_scheme \<Rightarrow>
   (qkd_bytes qkd_get_key_response option \<times> 'z mem_scheme) res" where
  "free_qkd_get_key_response x m =
     (case x of
        None \<Rightarrow> Inl NullDeref
      | Some x \<Rightarrow>
          bind_res (free_qkd_bytes (Some (gks_key_buffer x)) m) (\<lambda>(k, m).
          bind_res (free_qkd_bytes (Some (gks_metadata x)) m) (\<lambda>(md, m).
          Inr (Some (x\<lparr>gks_key_buffer := the k, gks_metadata := the md\<rparr>), m))))"

section \<open>What is released\<close>

definition live :: "'z mem_scheme \<Rightarrow> nat \<Rightarrow> bool" where
  "live m b \<longleftrightarrow> blocks m b \<noteq> None \<and> \<not> autos m b"

lemma free_live_block: "live m b \<Longrightarrow> free (Ptr b 0) m = Inr (kill_block b m)"
  by (auto simp: live_def free_def)

lemma live_kill_block [simp]: "live (kill_block c m) b \<longleftrightarrow> live m b \<and> b \<noteq> c"
  by (simp add: live_def)

lemma free_qos_struct:
  "live m b \<Longrightarrow> free_qkd_qos (Some (qos_struct Q (Ptr b 0))) m =
     Inr (Some (qos_struct Q NULL), kill_block b m)"
  by (simp add: free_qkd_qos_def free_live_block qos_struct_def)

lemma free_ocq_struct:
  assumes "live m n" "live m (Suc n)" "live m (Suc (Suc n))"
  shows "free_qkd_open_connect_request (Some (ocq_struct X n)) m =
    Inr (Some \<lparr>ocq_source = NULL, ocq_destination = NULL, ocq_qos = qos_struct (ocq_qos X) NULL,
         ocq_key_stream_id = ocq_key_stream_id X\<rparr>,
      kill_block (Suc (Suc n)) (kill_block (Suc n) (kill_block n m)))"
  using assms
  by (simp add: free_qkd_open_connect_request_def ocq_struct_def free_live_block free_qos_struct)

lemma free_ocs_qos_struct:
  "live m b \<Longrightarrow>
   free_qkd_open_connect_response (Some \<lparr>ocs_status = st, ocs_qos = qos_struct Q (Ptr b 0), ocs_key_stream_id = k\<rparr>) m =
     Inr (Some \<lparr>ocs_status = st, ocs_qos = qos_struct Q NULL, ocs_key_stream_id = k\<rparr>, kill_block b m)"
  by (simp add: free_qkd_open_connect_response_def free_qos_struct)

lemma free_gks_blobs:
  assumes "live m b" "live m b'" "b \<noteq> b'"
  shows "free_qkd_get_key_response (Some \<lparr>gks_status = st, gks_index = i,
      gks_key_buffer = blob_struct k b, gks_metadata = blob_struct d b'\<rparr>) m =
    Inr (Some \<lparr>gks_status = st, gks_index = i, gks_key_buffer = (blob_struct k b)\<lparr>bytes_data := NULL\<rparr>,
         gks_metadata = (blob_struct d b')\<lparr>bytes_data := NULL\<rparr>\<rparr>,
      kill_block b' (kill_block b m))"
  using assms
  by (simp add: free_qkd_get_key_response_def free_qkd_bytes_def blob_struct_def free_live_block)

text \<open>A second release of what a release left has no effect.\<close>

lemma free_ocq_twice:
  assumes "free_qkd_open_connect_request x m = Inr (y, m')"
  shows "free_qkd_open_connect_request y m' = Inr (y, m')"
  using assms
  by (auto simp: free_qkd_open_connect_request_def free_qkd_qos_def Let_def bind_res_eq_Inr
      split: option.splits)

end
