(* ===== verification/Interfaces.thy ===== *)
theory Interfaces
  imports Copy FreeUtils
begin

text \<open>
  The structure-based calls of \<open>interfaces.c\<close>. The three functions they call,
  \<open>qkd_open_connect\<close>, \<open>qkd_get_key\<close> and \<open>qkd_close\<close>, have two implementations that
  are chosen at link time: the remote one of \<open>ssl_socket_client.c\<close> and the one of the server
  application. They are arguments here. In-out parameters are passed and returned by value, and
  the state behind \<open>app_context_data\<close> is part of the state that is threaded through.
\<close>

type_synonym 's open_connect_impl =
  "qkd_uri_t \<Rightarrow> qkd_uri_t \<Rightarrow> qkd_mimetype_t qkd_qos \<Rightarrow> bytes \<Rightarrow> qkd_status_t \<Rightarrow> 's \<Rightarrow>
   (qkd_mimetype_t qkd_qos \<times> bytes \<times> qkd_status_t \<times> 's) res"

type_synonym 's get_key_impl =
  "bytes \<Rightarrow> u32 \<Rightarrow> qkd_key_buffer_t \<Rightarrow> qkd_metadata_t \<Rightarrow> qkd_status_t \<Rightarrow> 's \<Rightarrow>
   (u32 \<times> qkd_key_buffer_t \<times> qkd_metadata_t \<times> qkd_status_t \<times> 's) res"

type_synonym 's close_impl = "bytes \<Rightarrow> qkd_status_t \<Rightarrow> 's \<Rightarrow> (qkd_status_t \<times> 's) res"

text \<open>The value of a structure that was initialised with \<open>{}\<close>.\<close>

definition zero_qos :: "ptr qkd_qos" where
  "zero_qos = \<lparr>key_chunk_size = 0, max_bps = 0, min_bps = 0, jitter = 0, priority = 0, timeout = 0,
     ttl = 0, metadata_mimetype = NULL\<rparr>"

definition zero_bytes :: qkd_bytes where
  "zero_bytes = \<lparr>bytes_size = 0, bytes_data = NULL\<rparr>"

definition zero_get_key_response :: "qkd_bytes qkd_get_key_response" where
  "zero_get_key_response =
     \<lparr>gks_status = 0, gks_index = 0, gks_key_buffer = zero_bytes, gks_metadata = zero_bytes\<rparr>"

definition qkd_open_connect_struct ::
  "'z mem_scheme open_connect_impl \<Rightarrow> ptr qkd_open_connect_request \<Rightarrow> 'z mem_scheme \<Rightarrow>
   (ptr qkd_open_connect_response \<times> 'z mem_scheme) res" where
  "qkd_open_connect_struct qkd_open_connect req m =
     bind_res (qkd_copy_qos zero_qos (ocq_qos req) m) (\<lambda>(q, m).
     bind_res (qkd_open_connect (ocq_source req) (ocq_destination req) q (ocq_key_stream_id req) 0 m)
       (\<lambda>(q, ksid, status, m).
     Inr (\<lparr>ocs_status = status, ocs_qos = q, ocs_key_stream_id = ksid\<rparr>, m)))"

definition qkd_get_key_struct ::
  "'z mem_scheme get_key_impl \<Rightarrow> qkd_bytes qkd_get_key_request \<Rightarrow> 'z mem_scheme \<Rightarrow>
   (qkd_bytes qkd_get_key_response \<times> 'z mem_scheme) res" where
  "qkd_get_key_struct qkd_get_key req m =
     (let res = zero_get_key_response\<lparr>gks_index := gkq_index req, gks_metadata := gkq_metadata req\<rparr> in
     bind_res (qkd_get_key (gkq_key_stream_id req) (gks_index res) (gks_key_buffer res)
         (gks_metadata res) (gks_status res) m) (\<lambda>(index, key_buffer, metadata, status, m).
     Inr (\<lparr>gks_status = status, gks_index = index, gks_key_buffer = key_buffer,
           gks_metadata = metadata\<rparr>, m)))"

definition qkd_close_struct ::
  "'z mem_scheme close_impl \<Rightarrow> qkd_close_request \<Rightarrow> 'z mem_scheme \<Rightarrow>
   (qkd_close_response \<times> 'z mem_scheme) res" where
  "qkd_close_struct qkd_close req m =
     bind_res (qkd_close (clq_key_stream_id req) 0 m) (\<lambda>(status, m).
     Inr (\<lparr>cls_status = status\<rparr>, m))"

end
