(* ===== verification/WireProps.thy ===== *)
theory WireProps
  imports Samples Interfaces
begin

text \<open>
  The properties of the message layer: the other messages survive the wire, readers on bytes that
  are not a message, sizes that wrap around or are refused, copies and releases.
\<close>

section \<open>Round trips\<close>

text \<open>
  C21. OPEN_CONNECT responses survive the wire: the packet is built without a fault in a buffer of
  its own, and a receiver of any byte order reads back the header and a response that denotes the
  same value, allocating exactly the MIME type string.
\<close>

theorem open_connect_response_round_trip:
  assumes m1: "wf_mem m1" "no_oom m1" "ocs_at m1 x X" "fits_ocs X" "length (enc_ocs X) < 2 ^ 32"
    and L: "uuid_laws L"
    and m2: "readable m2 b (take 8 (packet service (enc_ocs X)))"
      "readable m2 b' (drop 8 (packet service (enc_ocs X)))"
  shows "make_packet service qkd_sizeof_open_connect_response qkd_open_connect_response_to_stream x m1 =
      Inr (of_nat (8 + length (enc_ocs X)), Ptr (nxt m1) 0,
           new_block False (packet service (enc_ocs X)) m1) \<and>
    qkd_header_from_stream (Ptr b 0) m2 =
      Inr (\<lparr>hdr_version = QKD_004_VERSION, hdr_service = service,
            hdr_payload_size = of_nat (length (enc_ocs X))\<rparr>, Ptr b 8) \<and>
    (\<exists>y m2'. qkd_open_connect_response_from_stream L (Ptr b' 0) m2 =
        Inr (y, Ptr b' (length (enc_ocs X)), m2') \<and>
      ocs_at m2' y X \<and> grows m2 {nxt m2} m2')"
  using ocs_w.make_packet_exact [OF m1] ocs_c.packet_read [OF L ocs_c.at_valid [OF m1(3)] m2] by blast

theorem open_connect_response_round_trip_witness:
  "\<exists>y m2'. qkd_open_connect_response_from_stream sample_uuid (Ptr 1 0)
      (sample_mem True [take 8 (packet 3 (enc_ocs (sample_ocs [97]))),
         drop 8 (packet 3 (enc_ocs (sample_ocs [97])))]) = Inr (y, Ptr 1 50, m2') \<and>
    ocs_at m2' y (sample_ocs [97])"
proof -
  let ?X = "sample_ocs [97] :: bytes qkd_open_connect_response" and ?m1 = "sample_mem False [[97, 0]]"
  let ?m2 = "sample_mem True [take 8 (packet 3 (enc_ocs ?X)), drop 8 (packet 3 (enc_ocs ?X))]"
  have "ocs_at ?m1 (sample_ocs (Ptr 0 0)) ?X" "fits_ocs ?X"
    by (simp_all add: sample_messages sample_at fits_ocs_def fits_mime_def)
  moreover have n: "length (enc_ocs ?X) = 50"
    by (simp add: sample_messages enc_ocs_def length_enc)
  moreover have "readable ?m2 0 (take 8 (packet 3 (enc_ocs ?X)))" "readable ?m2 1 (drop 8 (packet 3 (enc_ocs ?X)))"
    using n by (auto simp: readable_sample_mem less_Suc_eq packet_def length_enc)
  ultimately show ?thesis
    using open_connect_response_round_trip [of ?m1 "sample_ocs (Ptr 0 0)" ?X sample_uuid ?m2 0 3 1]
    by (auto simp: wf_sample_mem less_Suc_eq)
qed

text \<open>
  C20. GET_KEY requests survive the wire, whatever bytes their metadata holds: the receiver
  allocates exactly one buffer, the metadata.
\<close>

theorem get_key_request_round_trip:
  assumes m1: "wf_mem m1" "no_oom m1" "gkq_at m1 x X" "fits_gkq X" "length (enc_gkq X) < 2 ^ 32"
    and L: "uuid_laws L"
    and m2: "readable m2 b (take 8 (packet service (enc_gkq X)))"
      "readable m2 b' (drop 8 (packet service (enc_gkq X)))"
  shows "make_packet service qkd_sizeof_get_key_request qkd_get_key_request_to_stream x m1 =
      Inr (of_nat (8 + length (enc_gkq X)), Ptr (nxt m1) 0,
           new_block False (packet service (enc_gkq X)) m1) \<and>
    qkd_header_from_stream (Ptr b 0) m2 =
      Inr (\<lparr>hdr_version = QKD_004_VERSION, hdr_service = service,
            hdr_payload_size = of_nat (length (enc_gkq X))\<rparr>, Ptr b 8) \<and>
    (\<exists>y m2'. qkd_get_key_request_from_stream L (Ptr b' 0) m2 =
        Inr (y, Ptr b' (length (enc_gkq X)), m2') \<and>
      gkq_at m2' y X \<and> grows m2 {Suc (nxt m2)} m2')"
  using gkq_w.make_packet_exact [OF m1] gkq_c.packet_read [OF L gkq_c.at_valid [OF m1(3)] m2] by blast

theorem get_key_request_round_trip_witness:
  "\<exists>y m2'. qkd_get_key_request_from_stream sample_uuid (Ptr 1 0)
      (sample_mem True [take 8 (packet 4 (enc_gkq (sample_gkq [1, 16]))),
         drop 8 (packet 4 (enc_gkq (sample_gkq [1, 16])))]) = Inr (y, Ptr 1 26, m2') \<and>
    gkq_at m2' y (sample_gkq [1, 16])"
proof -
  let ?X = "sample_gkq [1, 16] :: bytes qkd_get_key_request" and ?m1 = "sample_mem False [[1, 16]]"
  let ?x = "sample_gkq \<lparr>bytes_size = 2, bytes_data = Ptr 0 0\<rparr>"
  let ?m2 = "sample_mem True [take 8 (packet 4 (enc_gkq ?X)), drop 8 (packet 4 (enc_gkq ?X))]"
  have "gkq_at ?m1 ?x ?X" "fits_gkq ?X"
    by (simp_all add: sample_messages sample_at fits_gkq_def fits_bytes_def)
  moreover have n: "length (enc_gkq ?X) = 26"
    by (simp add: sample_messages enc_gkq_def length_enc)
  moreover have "readable ?m2 0 (take 8 (packet 4 (enc_gkq ?X)))" "readable ?m2 1 (drop 8 (packet 4 (enc_gkq ?X)))"
    using n by (auto simp: readable_sample_mem less_Suc_eq packet_def length_enc)
  ultimately show ?thesis
    using get_key_request_round_trip [of ?m1 ?x ?X sample_uuid ?m2 0 4 1]
    by (auto simp: wf_sample_mem less_Suc_eq)
qed

text \<open>
  C19. GET_KEY responses survive the wire: key and metadata arrive byte for byte, in two buffers of
  their own.
\<close>

theorem get_key_response_round_trip:
  assumes m1: "wf_mem m1" "no_oom m1" "gks_at m1 x X" "fits_gks X" "length (enc_gks X) < 2 ^ 32"
    and m2: "readable m2 b (take 8 (packet service (enc_gks X)))"
      "readable m2 b' (drop 8 (packet service (enc_gks X)))"
  shows "make_packet service qkd_sizeof_get_key_response qkd_get_key_response_to_stream x m1 =
      Inr (of_nat (8 + length (enc_gks X)), Ptr (nxt m1) 0,
           new_block False (packet service (enc_gks X)) m1) \<and>
    qkd_header_from_stream (Ptr b 0) m2 =
      Inr (\<lparr>hdr_version = QKD_004_VERSION, hdr_service = service,
            hdr_payload_size = of_nat (length (enc_gks X))\<rparr>, Ptr b 8) \<and>
    (\<exists>y m2'. qkd_get_key_response_from_stream (Ptr b' 0) m2 =
        Inr (y, Ptr b' (length (enc_gks X)), m2') \<and>
      gks_at m2' y X \<and> grows m2 {nxt m2, Suc (nxt m2)} m2')"
  using gks_w.make_packet_exact [OF m1] gks_c.packet_read [OF uuid_laws_sample gks_c.at_valid [OF m1(3)] m2]
  by blast

theorem get_key_response_round_trip_witness:
  "\<exists>y m2'. qkd_get_key_response_from_stream (Ptr 1 0)
      (sample_mem True [take 8 (packet 5 (enc_gks (sample_gks [7, 0, 7] [65]))),
         drop 8 (packet 5 (enc_gks (sample_gks [7, 0, 7] [65])))]) = Inr (y, Ptr 1 20, m2') \<and>
    gks_at m2' y (sample_gks [7, 0, 7] [65])"
proof -
  let ?X = "sample_gks [7, 0, 7] [65] :: bytes qkd_get_key_response"
  let ?m1 = "sample_mem False [[7, 0, 7], [65]]"
  let ?x = "sample_gks \<lparr>bytes_size = 3, bytes_data = Ptr 0 0\<rparr> \<lparr>bytes_size = 1, bytes_data = Ptr 1 0\<rparr>"
  let ?m2 = "sample_mem True [take 8 (packet 5 (enc_gks ?X)), drop 8 (packet 5 (enc_gks ?X))]"
  have "gks_at ?m1 ?x ?X" "fits_gks ?X"
    by (simp_all add: sample_messages sample_at fits_gks_def fits_bytes_def)
  moreover have n: "length (enc_gks ?X) = 20"
    by (simp add: sample_messages enc_gks_def length_enc)
  moreover have "readable ?m2 0 (take 8 (packet 5 (enc_gks ?X)))" "readable ?m2 1 (drop 8 (packet 5 (enc_gks ?X)))"
    using n by (auto simp: readable_sample_mem less_Suc_eq packet_def length_enc)
  ultimately show ?thesis
    using get_key_response_round_trip [of ?m1 ?x ?X ?m2 0 5 1]
    by (auto simp: wf_sample_mem less_Suc_eq)
qed

section \<open>Bytes that are not a message\<close>

text \<open>
  C39. The readers trust the lengths inside the message: on every proper prefix of an OPEN_CONNECT
  request or of a GET_KEY request the reader leaves the payload buffer, instead of reporting that
  the message is incomplete.
\<close>

theorem truncated_request_overread:
  assumes L: "uuid_laws L"
    and X: "valid_ocq X" "k < length (enc_ocq X)" "readable m b (take k (enc_ocq X))"
    and Y: "valid_gkq Y" "k' < length (enc_gkq Y)" "readable m b' (take k' (enc_gkq Y))"
  shows "qkd_open_connect_request_from_stream L (Ptr b 0) m = Inl OutOfBounds \<and>
    qkd_get_key_request_from_stream L (Ptr b' 0) m = Inl OutOfBounds"
  using ocq_c.reader_truncated [OF L X] gkq_c.reader_truncated [OF L Y] by blast

theorem truncated_request_overread_witness:
  "qkd_get_key_request_from_stream sample_uuid (Ptr 1 0)
     (sample_mem False [[97], take 20 (enc_gkq (sample_gkq [1, 16]))]) = Inl OutOfBounds"
proof -
  let ?X = "sample_ocq [97, 97] [] [] :: bytes qkd_open_connect_request"
  let ?Y = "sample_gkq [1, 16] :: bytes qkd_get_key_request"
  let ?m = "sample_mem False [[97], take 20 (enc_gkq ?Y)]"
  have "valid_ocq ?X" "valid_gkq ?Y" "20 < length (enc_gkq ?Y)" "1 < length (enc_ocq ?X)" "take 1 (enc_ocq ?X) = [97]"
    by (simp_all add: sample_messages valid_ocq_def valid_gkq_def valid_str_def valid_qos_def valid_bytes_def
        enc_gkq_def enc_ocq_def enc_str_def length_enc)
  moreover have "readable ?m 0 [97]" "readable ?m 1 (take 20 (enc_gkq ?Y))"
    by (auto simp: readable_sample_mem less_Suc_eq)
  ultimately show ?thesis
    using truncated_request_overread [OF uuid_laws_sample, of ?X 1 ?m 0 ?Y 20 1] by simp
qed

section \<open>Sizes\<close>

text \<open>
  The size of a byte buffer is computed in 32 bits: it is the length of the encoding reduced
  modulo \<open>2^32\<close>, so exactly the buffers of at least \<open>2^32 - 4\<close> bytes get a size that is too
  small.
\<close>

theorem sizeof_bytes_wraps:
  "unat (qkd_sizeof_bytes d) = (4 + unat (bytes_size d)) mod 2 ^ 32 \<and>
   (unat (qkd_sizeof_bytes d) < 4 + unat (bytes_size d) \<longleftrightarrow> 2 ^ 32 - 4 \<le> unat (bytes_size d))"
proof -
  have "unat (bytes_size d) < 2 ^ 32"
    using unsigned_less [of "bytes_size d"] by simp
  then show ?thesis
    unfolding unat_qkd_sizeof_bytes by (auto simp: mod_if)
qed



section \<open>Copies and releases\<close>

text \<open>
  C28. Copying a quality of service over another one releases the old MIME type, allocates a fresh
  copy of the new one, and yields a structure with the value of the source that shares no memory
  with it. No other block is touched.
\<close>

theorem copy_qos_replaces:
  assumes "wf_mem m" "no_oom m" "qos_at m q Q" "metadata_mimetype d = Ptr b 0"
    and "blocks m b = Some c" "\<not> autos m b" "\<not> in_block b (metadata_mimetype q)"
  shows "\<exists>d' m'. qkd_copy_qos d q m = Inr (d', m') \<and> qos_at m' d' Q \<and> qos_at m' q Q \<and>
    metadata_mimetype d' = Ptr (nxt m) 0 \<and> grows (kill_block b m) {nxt m} m'"
proof -
  let ?s = "metadata_mimetype Q" and ?m = "kill_block b m"
  have c: "cstr m (metadata_mimetype q) ?s"
    using assms(3) by (simp add: qos_at_def)
  then have s: "0 \<notin> set ?s"
    by (auto simp: cstr_def split: ptr.splits option.splits)
  have "cstr (str_block ?s ?m) (metadata_mimetype q) ?s"
    using c assms(1,7) by (simp add: str_block_def cstr_new_block cstr_kill_other)
  then have "qos_at (str_block ?s ?m) q Q" "qos_at (str_block ?s ?m) (qos_struct Q (Ptr (nxt m) 0)) Q"
    using assms(3) s by (simp_all add: qos_at_def qos_struct_def str_block_def cstr_def)
  moreover have "grows ?m {nxt m} (str_block ?s ?m)"
    using grows_str_block [OF grows_refl, of ?m ?s] assms(1) by simp
  ultimately show ?thesis
    using copy_qos_over [OF assms] by (simp add: qos_struct_def)
qed

theorem copy_qos_replaces_witness:
  "\<exists>d' m'. qkd_copy_qos (sample_qos (Ptr 0 0)) (sample_qos (Ptr 1 0)) (sample_mem False [[97, 0], [98, 99, 0]]) =
      Inr (d', m') \<and> qos_at m' d' (sample_qos [98, 99])"
proof -
  have "qos_at (sample_mem False [[97, 0], [98, 99, 0]]) (sample_qos (Ptr 1 0)) (sample_qos [98, 99])"
    by (simp add: sample_messages sample_at)
  then show ?thesis
    using copy_qos_replaces [of "sample_mem False [[97, 0], [98, 99, 0]]" "sample_qos (Ptr 1 0)" "sample_qos [98, 99]"
        "sample_qos (Ptr 0 0)" 0 "[97, 0]"]
    by (fastforce simp: wf_sample_mem less_Suc_eq sample_messages)
qed

text \<open>
  Copying a string variable onto itself reads the string after it was released.
\<close>

theorem copy_onto_itself_reads_freed:
  assumes "wf_mem m" "no_oom m" "cstr m (Ptr b 0) s" "\<not> autos m b"
  shows "qkd_copy_str (Ptr b 0) (Ptr b 0) m = Inl DeadBlock"
  using assms by (rule copy_str_self)

theorem copy_onto_itself_reads_freed_witness:
  "qkd_copy_str (Ptr 0 0) (Ptr 0 0) (sample_mem False [[97, 0]]) = Inl DeadBlock"
  by (rule copy_onto_itself_reads_freed [where s = "[97]"]) (simp_all add: wf_sample_mem sample_at)

text \<open>
  C27. Reading an OPEN_CONNECT request and releasing it leaves no memory behind: every block the
  reader allocated is released, each exactly once, and nothing else; releasing the structure a
  second time is harmless.
\<close>

theorem request_read_and_released:
  assumes "uuid_laws L" "readable m b (enc_ocq X)" "valid_ocq X"
  shows "\<exists>x m1 y m2. qkd_open_connect_request_from_stream L (Ptr b 0) m =
      Inr (x, Ptr b (length (enc_ocq X)), m1) \<and> ocq_at m1 x X \<and>
    free_qkd_open_connect_request (Some x) m1 = Inr (y, m2) \<and> grows m {} m2 \<and>
    free_qkd_open_connect_request y m2 = Inr (y, m2)"
proof -
  let ?n = "nxt m" and ?m1 = "ocq_mem X m"
  have dec: "dec_ocq (drop 0 (enc_ocq X)) = Some (X, [])"
    using ocq.dec_enc [OF assms(3), of "[]"] by simp
  note r = ocq_result [OF assms(2) dec]
  have "live ?m1 ?n" "live ?m1 (Suc ?n)" "live ?m1 (Suc (Suc ?n))"
    using r(4) by (auto simp: live_def grows_def)
  note f = free_ocq_struct [OF this, of X]
  have "grows m ({?n, Suc ?n, Suc (Suc ?n)} - {?n} - {Suc ?n} - {Suc (Suc ?n)})
      (kill_block (Suc (Suc ?n)) (kill_block (Suc ?n) (kill_block ?n ?m1)))"
    using r(4) by (intro grows_kill_block) simp_all
  then have "grows m {} (kill_block (Suc (Suc ?n)) (kill_block (Suc ?n) (kill_block ?n ?m1)))"
    by (rule grows_weaken) auto
  then show ?thesis
    using read_ocq [OF assms(2,1), of 0] dec r(3) f free_ocq_twice [OF f]
    by (intro exI conjI) (simp_all only: option.case prod.case, simp_all)
qed

theorem request_read_and_released_witness:
  "\<exists>x m1 y m2. qkd_open_connect_request_from_stream sample_uuid (Ptr 0 0)
      (sample_mem False [enc_ocq (sample_ocq [97] [98, 99] [])]) = Inr (x, Ptr 0 50, m1) \<and>
    free_qkd_open_connect_request (Some x) m1 = Inr (y, m2) \<and>
    grows (sample_mem False [enc_ocq (sample_ocq [97] [98, 99] [])]) {} m2"
proof -
  let ?X = "sample_ocq [97] [98, 99] [] :: bytes qkd_open_connect_request"
  have "length (enc_ocq ?X) = 50" "valid_ocq ?X"
    by (simp_all add: sample_messages enc_ocq_def length_enc valid_ocq_def valid_str_def valid_qos_def)
  moreover from this(1) have "readable (sample_mem False [enc_ocq ?X]) 0 (enc_ocq ?X)"
    by (simp add: readable_sample_mem)
  ultimately show ?thesis
    using request_read_and_released [OF uuid_laws_sample, of "sample_mem False [enc_ocq ?X]" 0 ?X] by auto
qed

end
