(* ===== verification/SslErrors.thy ===== *)
theory SslErrors
  imports Prelude
begin

text \<open>
  The diagnostics of \<open>ssl_socket.c\<close>. OpenSSL keeps a queue of error codes; its functions on the
  queue are the fields of a parameter, over a state of an arbitrary type, with what the manual says of
  them as \<open>err_laws\<close>: \<open>ERR_get_error\<close> removes and returns the earliest code (0 when there is none),
  \<open>ERR_print_errors_fp\<close> prints all codes and empties the queue. What is printed is the list of
  the codes printed.
\<close>

section \<open>log\_ssl\<close>

record 'e err_api =
  ERR_get_error :: "'e \<Rightarrow> 64 word \<times> 'e"
  ERR_error_string :: "64 word \<Rightarrow> string option"
  ERR_print_errors_fp :: "'e \<Rightarrow> 64 word list \<times> 'e"

partial_function (option) log_ssl :: "'e err_api \<Rightarrow> 'e \<Rightarrow> (64 word list \<times> 'e) option" where
  "log_ssl E q =
     (case ERR_get_error E q of (err, q) \<Rightarrow>
        if err = 0 then Some ([], q)
        else
          (case ERR_error_string E err of
             None \<Rightarrow> Some ([], q)
           | Some err_msg \<Rightarrow>
               (case ERR_print_errors_fp E q of (out, q) \<Rightarrow>
                  Option.bind (log_ssl E q) (\<lambda>(out', q). Some (out @ out', q)))))"

section \<open>What it prints\<close>

definition err_laws :: "'e err_api \<Rightarrow> ('e \<Rightarrow> 64 word list) \<Rightarrow> bool" where
  "err_laws E codes \<longleftrightarrow>
     (\<forall>q. 0 \<notin> set (codes q)) \<and>
     (\<forall>q. codes q = [] \<longrightarrow> fst (ERR_get_error E q) = 0 \<and> codes (snd (ERR_get_error E q)) = []) \<and>
     (\<forall>q x xs. codes q = x # xs \<longrightarrow> fst (ERR_get_error E q) = x \<and> codes (snd (ERR_get_error E q)) = xs) \<and>
     (\<forall>x. x \<noteq> 0 \<longrightarrow> ERR_error_string E x \<noteq> None) \<and>
     (\<forall>q. fst (ERR_print_errors_fp E q) = codes q \<and> codes (snd (ERR_print_errors_fp E q)) = [])"

lemma log_ssl_empty:
  assumes "err_laws E codes" "codes q = []"
  shows "\<exists>q'. log_ssl E q = Some ([], q') \<and> codes q' = []"
  using assms by (subst log_ssl.simps) (auto simp: err_laws_def split: prod.splits)

lemma log_ssl_prints_tail:
  assumes E: "err_laws E codes" and q: "codes q = x # xs"
  shows "\<exists>q'. log_ssl E q = Some (xs, q') \<and> codes q' = []"
proof -
  obtain q1 where q1: "ERR_get_error E q = (x, q1)" "codes q1 = xs" "x \<noteq> 0"
    using E q unfolding err_laws_def by (metis list.set_intros(1) prod.collapse)
  obtain msg q2 where q2: "ERR_error_string E x = Some msg" "ERR_print_errors_fp E q1 = (xs, q2)" "codes q2 = []"
    using E q1(2,3) unfolding err_laws_def by (metis not_Some_eq prod.collapse)
  obtain q' where "log_ssl E q2 = Some ([], q')" "codes q' = []"
    using log_ssl_empty [OF E q2(3)] by blast
  with q1(1,3) q2(1,2) show ?thesis
    by (subst log_ssl.simps) simp
qed

end
