(* ===== verification/SslSocket.thy ===== *)
theory SslSocket
  imports Models
begin

text \<open>
  The TLS sockets of \<open>ssl_socket.c\<close>. OpenSSL, the socket calls and the user id are outside the
  repository: they are the fields of a parameter \<open>'n openssl\<close>, functions that read and change a
  network state of an arbitrary type \<open>'n\<close> (the state of the one connection in use). Contexts are
  records of what was configured on them. Diagnostic output is not modelled; \<open>exit\<close> is the
  fault \<open>Exited\<close>, with \<open>EXIT_FAILURE\<close> = 1.

  The receive loop may run forever (a negative return of \<open>SSL_read\<close> is added to the byte count
  as a huge unsigned number), so it is a partial function and not returning is the fault
  \<open>Diverges\<close>.
\<close>

datatype role_t = ROLE_CLIENT | ROLE_SERVER

datatype server_status_t = SERVER_FINISHED | SERVER_LISTENING

datatype ssl_error =
    SSL_ERROR_WANT_WRITE | SSL_ERROR_WANT_READ | SSL_ERROR_ZERO_RETURN | SSL_ERROR_SYSCALL
  | SSL_ERROR_SSL | SSL_ERROR_OTHER

datatype verify_mode = SSL_VERIFY_NONE | SSL_VERIFY_PEER | SSL_VERIFY_PEER_FAIL_IF_NO_PEER_CERT

record ssl_ctx =
  ctx_role :: role_t
  ctx_max_proto :: int
  ctx_ciphers :: string
  ctx_cert :: "string option"
  ctx_key :: "string option"
  ctx_peer_ca :: "string option"
  ctx_verify :: verify_mode

record 'n openssl =
  SSL_CTX_new :: "role_t \<Rightarrow> bool"
  SSL_CTX_set_cipher_list :: "string \<Rightarrow> int"
  SSL_CTX_use_certificate_file :: "string \<Rightarrow> int"
  SSL_CTX_use_PrivateKey_file :: "string \<Rightarrow> int"
  SSL_CTX_check_private_key :: "string \<Rightarrow> string \<Rightarrow> int"
  SSL_CTX_load_verify_locations :: "string \<Rightarrow> int"
  SSL_new :: "ssl_ctx \<Rightarrow> bool"
  SSL_get_error :: "'n \<Rightarrow> int \<Rightarrow> ssl_error"
  SSL_read :: "'n \<Rightarrow> int \<Rightarrow> int \<times> bytes \<times> 'n"
  SSL_write :: "'n \<Rightarrow> int \<Rightarrow> bytes \<Rightarrow> int \<times> 'n"
  SSL_connect :: "'n \<Rightarrow> int \<times> 'n"
  SSL_accept :: "'n \<Rightarrow> int \<times> 'n"
  SSL_shutdown :: "'n \<Rightarrow> int \<times> 'n"
  SSL_free :: "'n \<Rightarrow> 'n"
  sys_socket :: "'n \<Rightarrow> int \<times> 'n"
  sys_connect :: "string \<Rightarrow> u16 \<Rightarrow> 'n \<Rightarrow> int \<times> 'n"
  sys_setsockopt :: "'n \<Rightarrow> int \<times> 'n"
  sys_bind :: "string \<Rightarrow> u16 \<Rightarrow> 'n \<Rightarrow> int \<times> 'n"
  sys_listen :: "'n \<Rightarrow> int \<times> 'n"
  sys_close :: "'n \<Rightarrow> int \<times> 'n"
  sys_getuid :: nat

definition EXIT_FAILURE :: nat where
  "EXIT_FAILURE = 1"

section \<open>Receiving and sending\<close>

text \<open>The only effect is a diagnostic; the result says whether one is printed.\<close>

definition socket_ssl_check_errors :: "'n openssl \<Rightarrow> 'n \<Rightarrow> int \<Rightarrow> bool" where
  "socket_ssl_check_errors T c len =
     (if len < 0 then
        (case SSL_get_error T c len of
           SSL_ERROR_WANT_WRITE \<Rightarrow> False
         | SSL_ERROR_WANT_READ \<Rightarrow> False
         | _ \<Rightarrow> True)
      else False)"

text \<open>
  The body of the loop passes \<open>buf\<close>, not \<open>buf + buf_len\<close>, to \<open>SSL_read\<close>: every read
  overwrites the buffer from its start.
\<close>

partial_function (option) recv_loop ::
  "'n openssl \<Rightarrow> size_t \<Rightarrow> bytes \<Rightarrow> size_t \<Rightarrow> 'n \<Rightarrow> (bytes \<times> size_t \<times> 'n) res option" where
  "recv_loop T buffer_max_size buf buf_len c =
     (if buf_len < buffer_max_size then
        (case SSL_read T c (sint (ucast (buffer_max_size - buf_len) :: 32 word)) of
           (r, bs, c) \<Rightarrow>
             (let len = word_of_int r :: size_t;
                  buf = write_at 0 bs buf
              in if len = 0 then Some (Inl (Exited EXIT_FAILURE))
                 else if buffer_max_size = SSL3_RT_MAX_PLAIN_LENGTH then Some (Inr (buf, buf_len + len, c))
                 else recv_loop T buffer_max_size buf (buf_len + len) c))
      else Some (Inr (buf, buf_len, c)))"

type_synonym socket_data_t = qkd_bytes

definition socket_ssl_recv ::
  "'n openssl \<Rightarrow> size_t \<Rightarrow> 'n \<Rightarrow> 'z mem_scheme \<Rightarrow> (socket_data_t \<times> 'n \<times> 'z mem_scheme) res" where
  "socket_ssl_recv T buffer_max_size c m =
     (let buffer_max_size =
            (if buffer_max_size = 0 then SSL3_RT_MAX_PLAIN_LENGTH else buffer_max_size)
      in if stack_size m < unat buffer_max_size then Inl StackOverflow
         else case recv_loop T buffer_max_size (junk_bytes (unat buffer_max_size) m) 0 c of
           None \<Rightarrow> Inl Diverges
         | Some (Inl e) \<Rightarrow> Inl e
         | Some (Inr (buf, buf_len, c)) \<Rightarrow>
             (let (p, m) = malloc buf_len m
              in if unat buf_len \<le> length buf
                 then bind_res (store p (take (unat buf_len) buf) m) (\<lambda>m.
                      Inr (\<lparr>bytes_size = ucast buf_len, bytes_data = p\<rparr>, c, m))
                 else Inl OutOfBounds))"

definition socket_ssl_send ::
  "'n openssl \<Rightarrow> socket_data_t \<Rightarrow> 'n \<Rightarrow> 'z mem_scheme \<Rightarrow> 'n res" where
  "socket_ssl_send T d c m =
     (if bytes_size d = 0 then Inr c
      else let num = sint (bytes_size d) in
        bind_res (load (bytes_data d) (nat num) m) (\<lambda>bs.
        case SSL_write T c num bs of (len, c) \<Rightarrow> Inr c))"

section \<open>Contexts and connections\<close>

definition socket_ssl_context_load_certs ::
  "'n openssl \<Rightarrow> ssl_ctx \<Rightarrow> string option \<Rightarrow> string option \<Rightarrow> ssl_ctx res" where
  "socket_ssl_context_load_certs T ctx cert_file key_file =
     (case (cert_file, key_file) of
        (Some cert, Some key) \<Rightarrow>
          (if SSL_CTX_use_certificate_file T cert \<le> 0 then Inl (Exited EXIT_FAILURE)
           else if SSL_CTX_use_PrivateKey_file T key \<le> 0 then Inl (Exited EXIT_FAILURE)
           else if SSL_CTX_check_private_key T cert key = 0 then Inl (Exited EXIT_FAILURE)
           else Inr (ctx\<lparr>ctx_cert := Some cert, ctx_key := Some key\<rparr>))
      | _ \<Rightarrow> Inr ctx)"

definition socket_ssl_context_load_peer_CA ::
  "'n openssl \<Rightarrow> ssl_ctx \<Rightarrow> string option \<Rightarrow> role_t \<Rightarrow> ssl_ctx res" where
  "socket_ssl_context_load_peer_CA T ctx peer_ca_file role =
     (case peer_ca_file of
        None \<Rightarrow> Inr (ctx\<lparr>ctx_verify := SSL_VERIFY_NONE\<rparr>)
      | Some ca \<Rightarrow>
          (if SSL_CTX_load_verify_locations T ca \<le> 0 then Inl (Exited EXIT_FAILURE)
           else Inr (ctx\<lparr>ctx_peer_ca := Some ca,
                        ctx_verify := (if role = ROLE_CLIENT then SSL_VERIFY_PEER
                                       else SSL_VERIFY_PEER_FAIL_IF_NO_PEER_CERT)\<rparr>)))"

text \<open>A fresh context verifies nothing and has no certificate; the peer is verified only when asked.\<close>

definition fresh_ctx :: "role_t \<Rightarrow> int \<Rightarrow> ssl_ctx" where
  "fresh_ctx role max_proto =
     \<lparr>ctx_role = role, ctx_max_proto = max_proto, ctx_ciphers = '''', ctx_cert = None,
      ctx_key = None, ctx_peer_ca = None, ctx_verify = SSL_VERIFY_NONE\<rparr>"

definition socket_ssl_context_create ::
  "'n openssl \<Rightarrow> role_t \<Rightarrow> string option \<Rightarrow> string option \<Rightarrow> string option \<Rightarrow> int \<Rightarrow> ssl_ctx res" where
  "socket_ssl_context_create T role cert_pem key_pem peer_ca_pem max_proto_version =
     (if role = ROLE_SERVER \<and> (cert_pem = None \<or> key_pem = None) then Inl (Exited EXIT_FAILURE)
      else if \<not> SSL_CTX_new T role then Inl (Exited EXIT_FAILURE)
      else if SSL_CTX_set_cipher_list T ''HIGH'' \<le> 0 then Inl (Exited EXIT_FAILURE)
      else
        let ctx = (fresh_ctx role max_proto_version)\<lparr>ctx_ciphers := ''HIGH''\<rparr> in
        bind_res (socket_ssl_context_load_certs T ctx cert_pem key_pem) (\<lambda>ctx.
        socket_ssl_context_load_peer_CA T ctx peer_ca_pem role))"

definition socket_ssl_init :: "'n openssl \<Rightarrow> ssl_ctx \<Rightarrow> unit res" where
  "socket_ssl_init T ctx = (if SSL_new T ctx then Inr () else Inl (Exited EXIT_FAILURE))"

definition socket_create_connection ::
  "'n openssl \<Rightarrow> string \<Rightarrow> u16 \<Rightarrow> 'n \<Rightarrow> (int \<times> 'n) res" where
  "socket_create_connection T host port c =
     (case sys_socket T c of (s, c) \<Rightarrow>
        if s < 0 then Inl (Exited EXIT_FAILURE)
        else case sys_connect T host port c of (r, c) \<Rightarrow>
          if r \<noteq> 0 then Inl (Exited EXIT_FAILURE) else Inr (s, c))"

definition socket_client_init ::
  "'n openssl \<Rightarrow> string \<Rightarrow> u16 \<Rightarrow> string option \<Rightarrow> string option \<Rightarrow> string option \<Rightarrow> int \<Rightarrow> 'n \<Rightarrow>
   (ssl_ctx \<times> 'n) res" where
  "socket_client_init T host port cert_pem key_pem peer_ca_pem max_proto_version c =
     bind_res (socket_create_connection T host port c) (\<lambda>(s, c).
     bind_res (socket_ssl_context_create T ROLE_CLIENT cert_pem key_pem peer_ca_pem max_proto_version)
       (\<lambda>ctx.
     bind_res (socket_ssl_init T ctx) (\<lambda>_.
     case SSL_connect T c of (err, c) \<Rightarrow>
       if err \<le> 0 then Inl (Exited EXIT_FAILURE) else Inr (ctx, c))))"

definition socket_create_server :: "'n openssl \<Rightarrow> string \<Rightarrow> u16 \<Rightarrow> 'n \<Rightarrow> (int \<times> 'n) res" where
  "socket_create_server T host port c =
     (case sys_socket T c of (s, c) \<Rightarrow>
      case sys_setsockopt T c of (r, c) \<Rightarrow>
        if r < 0 then Inl (Exited EXIT_FAILURE)
        else case sys_bind T host port c of (r, c) \<Rightarrow>
          if r \<noteq> 0 then Inl (Exited EXIT_FAILURE)
          else case sys_listen T c of (r, c) \<Rightarrow>
            if r \<noteq> 0 then Inl (Exited EXIT_FAILURE) else Inr (s, c))"

text \<open>
  The accept loop. The list holds the connections that \<open>accept\<close> will return, in order; at its
  end the server waits in \<open>accept\<close>, which is the result \<open>SERVER_LISTENING\<close>. The servlet
  gets the connection and the state of the server and returns the new status with both. Whether it
  was served or its handshake failed, the connection is then shut down, released and closed; the
  result lists the connections in the state they were left in.
\<close>

definition hang_up :: "'n openssl \<Rightarrow> 'n \<Rightarrow> 'n" where
  "hang_up T c = snd (sys_close T (SSL_free T (snd (SSL_shutdown T c))))"

fun accept_loop ::
  "'n openssl \<Rightarrow> ssl_ctx \<Rightarrow> ('n \<Rightarrow> 's \<Rightarrow> (server_status_t \<times> 'n \<times> 's) res) \<Rightarrow> 'n list \<Rightarrow> 's \<Rightarrow>
   (server_status_t \<times> 'n list \<times> 's) res" where
  "accept_loop T ctx servlet [] w = Inr (SERVER_LISTENING, [], w)"
| "accept_loop T ctx servlet (c # cs) w =
     bind_res (socket_ssl_init T ctx) (\<lambda>_.
     case SSL_accept T c of (r, c) \<Rightarrow>
     bind_res (if r = -1 then Inr (SERVER_LISTENING, c, w) else servlet c w) (\<lambda>(server_status, c, w).
     if server_status = SERVER_LISTENING
     then bind_res (accept_loop T ctx servlet cs w) (\<lambda>(server_status, done, w).
          Inr (server_status, hang_up T c # done, w))
     else Inr (server_status, [hang_up T c], w)))"

text \<open>
  The result holds the state of the listening socket too: it is closed when the loop has ended, and
  open as long as the server waits.
\<close>

definition socket_server_init ::
  "'n openssl \<Rightarrow> string \<Rightarrow> u16 \<Rightarrow> string option \<Rightarrow> string option \<Rightarrow> string option \<Rightarrow> int \<Rightarrow>
   ('n \<Rightarrow> 's \<Rightarrow> (server_status_t \<times> 'n \<times> 's) res) \<Rightarrow> 'n \<Rightarrow> 'n list \<Rightarrow> 's \<Rightarrow>
   (server_status_t \<times> 'n \<times> 'n list \<times> 's) res" where
  "socket_server_init T host port cert_pem key_pem ca_pem max_proto_version servlet net conns w =
     (if port < 1024 \<and> sys_getuid T \<noteq> 0 then Inl (Exited 0)
      else
        bind_res (socket_ssl_context_create T ROLE_SERVER cert_pem key_pem ca_pem max_proto_version) (\<lambda>ctx.
        bind_res (socket_create_server T host port net) (\<lambda>(_, server_socket).
        bind_res (accept_loop T ctx servlet conns w) (\<lambda>(server_status, done, w).
        Inr (server_status,
             if server_status = SERVER_LISTENING then server_socket else snd (sys_close T server_socket),
             done, w)))))"

section \<open>What the code relies on in OpenSSL\<close>

text \<open>
  \<open>tls_records T recs\<close>: \<open>recs c\<close> are the TLS records that arrived and were not consumed.
  \<open>SSL_read\<close> returns bytes of the first one only, as many as asked for or as it has; the rest
  of it stays for the next call. \<open>tls_progress T\<close>: \<open>SSL_read\<close> never fails; it returns at least
  one byte and at most as many as asked for.
\<close>

definition tls_records :: "'n openssl \<Rightarrow> ('n \<Rightarrow> bytes list) \<Rightarrow> bool" where
  "tls_records T recs \<longleftrightarrow>
     (\<forall>c n x xs. 0 < n \<longrightarrow> recs c = x # xs \<longrightarrow> x \<noteq> [] \<longrightarrow>
        (\<exists>c'. SSL_read T c n = (int (length (take (nat n) x)), take (nat n) x, c') \<and>
              recs c' = (if length x \<le> nat n then xs else drop (nat n) x # xs)))"

definition tls_progress :: "'n openssl \<Rightarrow> bool" where
  "tls_progress T \<longleftrightarrow>
     (\<forall>c n r bs c'. 0 < n \<longrightarrow> SSL_read T c n = (r, bs, c') \<longrightarrow> 0 < r \<and> r \<le> n \<and> length bs = nat r)"

lemma tls_recordsE:
  assumes "tls_records T recs" "recs c = x # xs" "x \<noteq> []" "0 < n"
  obtains c' where "SSL_read T c n = (int (length (take (nat n) x)), take (nat n) x, c')"
    "recs c' = (if length x \<le> nat n then xs else drop (nat n) x # xs)"
  using assms unfolding tls_records_def by blast

section \<open>The receive loop\<close>

lemma recv_loop_done: "\<not> buf_len < n \<Longrightarrow> recv_loop T n buf buf_len c = Some (Inr (buf, buf_len, c))"
  by (subst recv_loop.simps) simp

lemma recv_loop_step:
  assumes "buf_len < n" "SSL_read T c (sint (ucast (n - buf_len) :: 32 word)) = (r, bs, c')"
    "word_of_int r \<noteq> (0 :: size_t)"
  shows "recv_loop T n buf buf_len c =
    (if n = SSL3_RT_MAX_PLAIN_LENGTH then Some (Inr (write_at 0 bs buf, buf_len + word_of_int r, c'))
     else recv_loop T n (write_at 0 bs buf) (buf_len + word_of_int r) c')"
  by (subst recv_loop.simps) (simp only: assms if_True if_False prod.case Let_def)

lemma recv_loop_once:
  assumes T: "tls_records T recs" and c: "recs c = x # xs"
    and n: "0 < unat n" "unat n \<le> length x" "unat n < 2 ^ 31" and buf: "length buf = unat n"
  shows "\<exists>c'. recv_loop T n buf 0 c = Some (Inr (take (unat n) x, n, c')) \<and>
    recs c' = (if length x \<le> unat n then xs else drop (unat n) x # xs)"
proof -
  have pos: "0 < sint (ucast n :: 32 word)" and num: "nat (sint (ucast n :: 32 word)) = unat n"
    using n(1) by (simp_all only: sint_ucast_small [OF n(3)] of_nat_0_less_iff nat_int)
  have "x \<noteq> []"
    using n by auto
  from tls_recordsE [OF T c this pos] n(2) obtain c' where c':
      "SSL_read T c (sint (ucast n :: 32 word)) = (int (unat n), take (unat n) x, c')"
      "recs c' = (if length x \<le> unat n then xs else drop (unat n) x # xs)"
    unfolding num length_take by (metis min.absorb2)
  have "recv_loop T n buf 0 c =
    (if n = SSL3_RT_MAX_PLAIN_LENGTH then Some (Inr (write_at 0 (take (unat n) x) buf, 0 + n, c'))
     else recv_loop T n (write_at 0 (take (unat n) x) buf) (0 + n) c')"
    by (subst recv_loop_step [where r = "int (unat n)"])
      (use c'(1) n in \<open>auto simp: word_less_nat_alt unat_eq_0\<close>)
  also have "write_at 0 (take (unat n) x) buf = take (unat n) x"
    using n(2) buf by (simp add: write_at_all)
  also have "(if n = SSL3_RT_MAX_PLAIN_LENGTH then Some (Inr (take (unat n) x, 0 + n, c'))
     else recv_loop T n (take (unat n) x) (0 + n) c') = Some (Inr (take (unat n) x, n, c'))"
    by (simp add: recv_loop_done)
  finally show ?thesis
    using c'(2) by blast
qed

lemma recv_exact:
  assumes T: "tls_records T recs" and c: "recs c = x # xs"
    and n: "0 < unat n" "unat n \<le> length x" "unat n < 2 ^ 31"
    and m: "no_oom m" "unat n \<le> stack_size m"
  shows "\<exists>c'. socket_ssl_recv T n c m =
      Inr (\<lparr>bytes_size = ucast n, bytes_data = Ptr (nxt m) 0\<rparr>, c', new_block False (take (unat n) x) m) \<and>
    recs c' = (if length x \<le> unat n then xs else drop (unat n) x # xs)"
proof -
  have "n \<noteq> 0" using n(1) by auto
  moreover obtain c' where c': "recv_loop T n (junk_bytes (unat n) m) 0 c = Some (Inr (take (unat n) x, n, c'))"
      "recs c' = (if length x \<le> unat n then xs else drop (unat n) x # xs)"
    using recv_loop_once [OF T c n, of "junk_bytes (unat n) m"] by auto
  moreover have "store (Ptr (nxt m) 0) (take (unat n) x) (new_block False (junk_bytes (unat n) m) m) =
      Inr (new_block False (take (unat n) x) m)"
    using n(2) by (simp add: store_room put_new_block)
  ultimately show ?thesis
    using m n(2) by (simp add: socket_ssl_recv_def malloc_no_oom Let_def)
qed

text \<open>
  When the peer never fails, the loop ends: every turn adds at least one byte and never more than
  are missing.
\<close>

lemma recv_loop_total:
  assumes T: "tls_progress T" and n: "unat n < 2 ^ 31"
    and "buf_len \<le> n" "length buf = unat n"
  shows "\<exists>buf' k c'. recv_loop T n buf buf_len c = Some (Inr (buf', k, c')) \<and>
    length buf' = unat n \<and> k \<le> n \<and> (n \<noteq> SSL3_RT_MAX_PLAIN_LENGTH \<longrightarrow> k = n)"
  using assms(3,4)
proof (induction "unat n - unat buf_len" arbitrary: buf buf_len c rule: less_induct)
  case less
  show ?case
  proof (cases "buf_len < n")
    case True
    define d where "d = n - buf_len"
    have d: "unat d = unat n - unat buf_len" "0 < unat d"
      using True by (auto simp: d_def unat_sub_if_size word_less_nat_alt)
    then have sint_d: "sint (ucast d :: 32 word) = int (unat d)"
      using n by (intro sint_ucast_small) simp
    obtain r bs c' where r: "SSL_read T c (int (unat d)) = (r, bs, c')"
      by (cases "SSL_read T c (int (unat d))")
    have "0 < int (unat d)"
      using d(2) by (simp only: of_nat_0_less_iff)
    with T r have r': "0 < r" "r \<le> int (unat d)" "length bs = nat r"
      unfolding tls_progress_def by blast+
    define k where "k = nat r"
    have k: "r = int k" "0 < k" "k \<le> unat d" "length bs = k"
      using r'(1,3) r'(2) [folded nat_le_iff] by (simp_all add: k_def)
    let ?len = "word_of_int r :: size_t"
    have len: "unat ?len = k"
      using k(3) d(1) n by (simp add: k(1))
    have sum: "unat (buf_len + ?len) = unat buf_len + k"
      using len k(3) d(1) n True
      by (subst unat_add_lem [THEN iffD1]) (simp_all add: word_less_nat_alt)
    have le: "buf_len + ?len \<le> n" "unat n - unat (buf_len + ?len) < unat n - unat buf_len"
      using sum k d by (simp_all add: word_le_nat_alt)
    have buf: "length (write_at 0 bs buf) = unat n"
      using k d(1) less.prems(2) by simp
    have "recv_loop T n buf buf_len c =
        (if n = SSL3_RT_MAX_PLAIN_LENGTH then Some (Inr (write_at 0 bs buf, buf_len + ?len, c'))
         else recv_loop T n (write_at 0 bs buf) (buf_len + ?len) c')"
      using True
    proof (rule recv_loop_step)
      show "SSL_read T c (sint (ucast (n - buf_len) :: 32 word)) = (r, bs, c')"
        using r by (simp only: d_def [symmetric] sint_d)
      show "?len \<noteq> 0"
        using len k(2) by (metis less_irrefl unsigned_0)
    qed
    then show ?thesis
      using less.hyps [OF le(2,1) buf, of c'] le(1) buf by auto
  next
    case False
    then show ?thesis
      using less.prems by (auto simp: recv_loop_done)
  qed
qed

text \<open>
  A message that arrives in two records is not put together: the second read lands on top of the
  first.
\<close>

lemma recv_two_records:
  assumes T: "tls_records T recs" and c: "recs c = [x, y]" "x \<noteq> []" "y \<noteq> []"
    and n: "unat n = length x + length y" "unat n < 2 ^ 31" "n \<noteq> SSL3_RT_MAX_PLAIN_LENGTH"
    and m: "no_oom m" "unat n \<le> stack_size m"
  shows "\<exists>c'. socket_ssl_recv T n c m =
      Inr (\<lparr>bytes_size = ucast n, bytes_data = Ptr (nxt m) 0\<rparr>, c',
        new_block False (write_at 0 y (write_at 0 x (junk_bytes (unat n) m))) m)"
proof -
  define lx where "lx = (of_nat (length x) :: size_t)"
  let ?j = "junk_bytes (unat n) m"
  have lx: "unat lx = length x"
    using n by (simp add: lx_def)
  have lt: "0 < n" "lx < n" and ly: "n - lx = of_nat (length y)"
    using n c lx by (auto simp: word_less_nat_alt word_unat_eq_iff unat_sub_if_size)
  have uy: "unat (of_nat (length y) :: size_t) = length y"
    using n by simp
  have nn: "n \<noteq> 0" using lt(1) by auto
  have num: "nat (sint (ucast n :: 32 word)) = unat n" "0 < sint (ucast n :: 32 word)"
    using n c by (simp_all only: sint_ucast_small nat_int of_nat_0_less_iff) simp
  have "sint (ucast (n - lx) :: 32 word) = int (length y)"
    using n uy unfolding ly by (subst sint_ucast_small) simp_all
  then have num': "nat (sint (ucast (n - lx) :: 32 word)) = length y" "0 < sint (ucast (n - lx) :: 32 word)"
    using c(3) by simp_all
  obtain c1 where c1: "SSL_read T c (sint (ucast n :: 32 word)) = (int (length x), x, c1)" "recs c1 = [y]"
    using tls_recordsE [OF T c(1,2) num(2)] n(1) unfolding num(1) by auto
  obtain c2 where c2: "SSL_read T c1 (sint (ucast (n - lx) :: 32 word)) = (int (length y), y, c2)"
    using tls_recordsE [OF T c1(2) c(3) num'(2)] unfolding num'(1) by auto
  have "recv_loop T n ?j 0 c = recv_loop T n (write_at 0 x ?j) lx c1"
    using lt(1) c1(1) lx c(2) n(3)
    by (subst recv_loop_step [where r = "int (length x)"]) (auto simp: lx_def)
  also have "\<dots> = recv_loop T n (write_at 0 y (write_at 0 x ?j)) n c2"
    using lt(2) c2 uy c(3) n(3) ly
    by (subst recv_loop_step [where r = "int (length y)"]) (auto simp: algebra_simps)
  also have "\<dots> = Some (Inr (write_at 0 y (write_at 0 x ?j), n, c2))"
    by (simp add: recv_loop_done)
  finally show ?thesis
    using m n(1) nn by (simp add: socket_ssl_recv_def malloc_no_oom Let_def store_room put_new_block)
qed

text \<open>A failing \<open>SSL_read\<close> is not an error path: its return value becomes a size.\<close>

lemma recv_failed_read:
  assumes r: "SSL_read T c (sint (ucast n :: 32 word)) = (-1, [], c')" and n: "n \<noteq> 0" "n \<noteq> -1"
    and m: "unat n \<le> stack_size m"
  shows "socket_ssl_recv T n c m = Inl OutOfBounds"
proof -
  have big: "\<not> (-1 :: size_t) < n"
    by (simp add: not_less)
  have "recv_loop T n (junk_bytes (unat n) m) 0 c = Some (Inr (junk_bytes (unat n) m, -1, c'))"
    using r n big
    by (subst recv_loop_step [where r = "-1"]) (auto simp: word_neq_0_conv recv_loop_done)
  moreover have "unat n < unat (-1 :: size_t)"
    using n(2) by (metis word_less_nat_alt word_order.not_eq_extremum)
  ultimately show ?thesis
    using n(1) m by (simp add: socket_ssl_recv_def Let_def not_le split: prod.splits)
qed

text \<open>A peer that has closed the connection ends the process.\<close>

lemma recv_closed:
  assumes "fst (SSL_read T c (sint (ucast n :: 32 word))) = 0" "n \<noteq> 0" "unat n \<le> stack_size m"
  shows "socket_ssl_recv T n c m = Inl (Exited EXIT_FAILURE)"
proof -
  have "recv_loop T n buf 0 c = Some (Inl (Exited EXIT_FAILURE))" for buf
    using assms(1,2) by (subst recv_loop.simps) (auto simp: word_neq_0_conv Let_def split: prod.splits)
  then show ?thesis
    using assms(2,3) by (simp add: socket_ssl_recv_def)
qed

text \<open>What every \<open>SSL_read\<close> keeps of the network, receiving keeps.\<close>

lemma recv_loop_keeps:
  assumes "recv_loop T n buf k c = Some y"
  shows "(\<forall>c n. I c \<longrightarrow> I (snd (snd (SSL_read T c n)))) \<longrightarrow> I c \<longrightarrow>
    (case y of Inl e \<Rightarrow> True | Inr (buf', k', c') \<Rightarrow> I c')"
  using assms
proof (induction rule: recv_loop.raw_induct [rotated, consumes 1, case_names turn])
  case (turn loop T n buf k c y)
  obtain r bs c' where "SSL_read T c (sint (ucast (n - k) :: 32 word)) = (r, bs, c')"
    by (cases "SSL_read T c (sint (ucast (n - k) :: 32 word))")
  moreover from this have "I c'" if "\<forall>c n. I c \<longrightarrow> I (snd (snd (SSL_read T c n)))" "I c"
    using that by (metis snd_conv)
  ultimately show ?case
    using turn by (auto simp: Let_def split: if_splits)
qed

lemma recv_keeps:
  assumes "socket_ssl_recv T n c m = Inr (d, c', m')" "I c" "\<And>c n. I c \<Longrightarrow> I (snd (snd (SSL_read T c n)))"
  shows "I c'"
proof -
  from assms(1) obtain n' buf k where
      "recv_loop T n' (junk_bytes (unat n') m) 0 c = Some (Inr (buf, k, c'))"
    by (auto simp: socket_ssl_recv_def Let_def bind_res_eq_Inr split: if_splits option.splits sum.splits prod.splits)
  from recv_loop_keeps [OF this, of I] assms(2,3) show ?thesis by simp
qed

end
