(* ===== verification/Transport.thy ===== *)
theory Transport
  imports Packets SslSocket
begin

text \<open>
  Packets over a connection: what the send function hands to TLS, and what the two receive calls of
  a header and its payload return when the packet arrived in one record. The server and the client
  share these facts.
\<close>

lemma packet_split:
  "take 8 (packet service p) = enc_header \<lparr>hdr_version = QKD_004_VERSION, hdr_service = service,
     hdr_payload_size = of_nat (length p)\<rparr>"
  "drop 8 (packet service p) = p" "length (packet service p) = 8 + length p"
  by (simp_all add: packet_def length_enc)

text \<open>
  A header that starts a record, whatever it says: it is received in a buffer of its own and read
  back, and the rest of the record stays.
\<close>

lemma recv_record_header:
  assumes T: "tls_records T recs" and c: "recs c = (enc_header h @ q) # xs"
    and m: "no_oom m" "wf_mem m" "8 \<le> stack_size m"
  shows "\<exists>c1. socket_ssl_recv T 8 c m = Inr (\<lparr>bytes_size = 8, bytes_data = Ptr (nxt m) 0\<rparr>, c1,
      new_block False (enc_header h) m) \<and> recs c1 = (if q = [] then xs else q # xs) \<and>
    qkd_header_from_stream (Ptr (nxt m) 0) (new_block False (enc_header h) m) = Inr (h, Ptr (nxt m) 8)"
proof -
  let ?m = "new_block False (enc_header h) m"
  have "readable ?m (nxt m) (enc_header h)"
    using m by (simp add: readable_def length_enc)
  from read_header [OF this, of 0] have "qkd_header_from_stream (Ptr (nxt m) 0) ?m = Inr (h, Ptr (nxt m) 8)"
    using header.dec_enc [of h "[]"] by (simp add: length_enc valid_any_def)
  moreover have "take 8 (enc_header h @ q) = enc_header h" "drop 8 (enc_header h @ q) = q"
      "length (enc_header h @ q) \<le> 8 \<longleftrightarrow> q = []" "8 \<le> length (enc_header h @ q)"
    by (simp_all add: length_enc)
  ultimately show ?thesis
    using recv_exact [OF T c, of 8 m] m by (cases "q = []") simp_all
qed

lemma recv_any_header:
  assumes T: "tls_records T recs" and c: "recs c = packet service p # xs"
    and m: "no_oom m" "wf_mem m" "8 \<le> stack_size m"
  shows "\<exists>c1. socket_ssl_recv T 8 c m = Inr (\<lparr>bytes_size = 8, bytes_data = Ptr (nxt m) 0\<rparr>, c1,
      new_block False (take 8 (packet service p)) m) \<and> recs c1 = (if p = [] then xs else p # xs) \<and>
    qkd_header_from_stream (Ptr (nxt m) 0) (new_block False (take 8 (packet service p)) m) =
      Inr (\<lparr>hdr_version = QKD_004_VERSION, hdr_service = service, hdr_payload_size = of_nat (length p)\<rparr>,
           Ptr (nxt m) 8)"
  using recv_record_header [OF T c [unfolded packet_def] m] by (simp add: packet_split)

lemma recv_header:
  assumes T: "tls_records T recs" and c: "recs c = packet service p # xs"
    and m: "no_oom m" "wf_mem m" "8 \<le> stack_size m" and p: "p \<noteq> []"
  shows "\<exists>c1. socket_ssl_recv T 8 c m = Inr (\<lparr>bytes_size = 8, bytes_data = Ptr (nxt m) 0\<rparr>, c1,
      new_block False (take 8 (packet service p)) m) \<and> recs c1 = p # xs \<and>
    qkd_header_from_stream (Ptr (nxt m) 0) (new_block False (take 8 (packet service p)) m) =
      Inr (\<lparr>hdr_version = QKD_004_VERSION, hdr_service = service, hdr_payload_size = of_nat (length p)\<rparr>,
           Ptr (nxt m) 8)"
  using recv_any_header [OF T c m] p by simp

lemma recv_payload:
  assumes T: "tls_records T recs" and c: "recs c = p # xs"
    and m: "no_oom m" "length p \<le> stack_size m" and p: "p \<noteq> []" "length p < 2 ^ 31"
  shows "\<exists>c'. socket_ssl_recv T (ucast (of_nat (length p) :: u32)) c m =
      Inr (\<lparr>bytes_size = of_nat (length p), bytes_data = Ptr (nxt m) 0\<rparr>, c', new_block False p m) \<and>
    recs c' = xs"
proof -
  let ?n = "ucast (of_nat (length p) :: u32) :: size_t"
  have "unat ?n = length p"
    using p(2) by (simp add: unat_of_nat take_bit_nat_eq_self)
  then show ?thesis
    using recv_exact [OF T c, of ?n m] p m by simp
qed

lemma send_exact:
  assumes "load (Ptr b i) (length r) m = Inr r" "r \<noteq> []" "length r < 2 ^ 31"
  shows "socket_ssl_send T \<lparr>bytes_size = of_nat (length r), bytes_data = Ptr b i\<rparr> c m =
    Inr (snd (SSL_write T c (int (length r)) r))"
proof -
  have n: "unat (of_nat (length r) :: u32) = length r"
    using assms(3) by (simp add: unat_of_nat take_bit_nat_eq_self)
  have "sint (of_nat (length r) :: u32) = int (length r)"
    using sint_u32_small [of "of_nat (length r)"] assms(3) unfolding n by blast
  moreover have "(of_nat (length r) :: u32) \<noteq> 0"
    using n assms(2) by (metis length_0_conv unsigned_0)
  ultimately show ?thesis
    using assms(1) by (simp add: socket_ssl_send_def Let_def split: prod.splits)
qed

end
