(* ===== verification/Servlet.thy ===== *)
theory Servlet
  imports Transport Interfaces
begin

text \<open>
  The request handler of \<open>ssl_socket_server.c\<close>: it receives a header and a payload, calls the
  implementation of the requested service through \<open>interfaces.c\<close>, and sends the response.
  \<open>serve_request\<close> is the part between the two transfers. The three implementations are
  arguments; the locale \<open>key_service\<close> states what the handler relies on in them, and proves
  for any implementation that keeps it what a transaction does to the connection, to the state
  and to the memory of the server.
\<close>

section \<open>ssl\_socket\_server.c\<close>

definition serve_request ::
  "libuuid \<Rightarrow> 'z mem_scheme open_connect_impl \<Rightarrow> 'z mem_scheme get_key_impl \<Rightarrow> 'z mem_scheme close_impl \<Rightarrow>
   u8 \<Rightarrow> ptr \<Rightarrow> 'z mem_scheme \<Rightarrow> (size_t \<times> ptr \<times> 'z mem_scheme) res" where
  "serve_request L open_connect get_key close service payload m =
     (if service = service_code QKD_SERVICE_OPEN_CONNECT_REQUEST then
        bind_res (qkd_open_connect_request_from_stream L payload m) (\<lambda>(oc_request, _, m).
        bind_res (qkd_open_connect_struct open_connect oc_request m) (\<lambda>(oc_response, m).
        bind_res (make_packet (service_code QKD_SERVICE_OPEN_CONNECT_RESPONSE)
            qkd_sizeof_open_connect_response qkd_open_connect_response_to_stream oc_response m)
          (\<lambda>(response_size, response_buf, m).
        bind_res (free_qkd_open_connect_request (Some oc_request) m) (\<lambda>(_, m).
        bind_res (free_qkd_open_connect_response (Some oc_response) m) (\<lambda>(_, m).
        Inr (response_size, response_buf, m))))))
      else if service = service_code QKD_SERVICE_GET_KEY_REQUEST then
        bind_res (qkd_get_key_request_from_stream L payload m) (\<lambda>(gk_request, _, m).
        bind_res (qkd_get_key_struct get_key gk_request m) (\<lambda>(gk_response, m).
        bind_res (make_packet (service_code QKD_SERVICE_GET_KEY_RESPONSE)
            qkd_sizeof_get_key_response qkd_get_key_response_to_stream gk_response m)
          (\<lambda>(response_size, response_buf, m).
        bind_res (free_qkd_get_key_request (Some gk_request) m) (\<lambda>(_, m).
        bind_res (free_qkd_get_key_response (Some gk_response) m) (\<lambda>(_, m).
        Inr (response_size, response_buf, m))))))
      else if service = service_code QKD_SERVICE_CLOSE_REQUEST then
        bind_res (qkd_close_request_from_stream L payload m) (\<lambda>(cl_request, _, m).
        bind_res (qkd_close_struct close cl_request m) (\<lambda>(cl_response, m).
        make_packet (service_code QKD_SERVICE_CLOSE_RESPONSE)
            qkd_sizeof_close_response qkd_close_response_to_stream cl_response m))
      else Inr (8, NULL, m))"

definition qkd_servlet ::
  "'n openssl \<Rightarrow> libuuid \<Rightarrow> 'z mem_scheme open_connect_impl \<Rightarrow> 'z mem_scheme get_key_impl \<Rightarrow>
   'z mem_scheme close_impl \<Rightarrow> 'n \<Rightarrow> 'z mem_scheme \<Rightarrow> (server_status_t \<times> 'n \<times> 'z mem_scheme) res" where
  "qkd_servlet T L open_connect get_key close client m =
     bind_res (socket_ssl_recv T 8 client m) (\<lambda>(header_data, client, m).
     bind_res (qkd_header_from_stream (bytes_data header_data) m) (\<lambda>(header, _).
     bind_res (if bytes_data header_data \<noteq> NULL then free (bytes_data header_data) m else Inr m) (\<lambda>m.
     if hdr_service header = service_code QKD_SERVICE_CLOSE_SERVER then Inr (SERVER_FINISHED, client, m)
     else
       bind_res (socket_ssl_recv T (ucast (hdr_payload_size header)) client m) (\<lambda>(payload, client, m).
       bind_res (serve_request L open_connect get_key close (hdr_service header) (bytes_data payload) m)
         (\<lambda>(response_size, response_buf, m).
       bind_res (if bytes_data payload \<noteq> NULL then free (bytes_data payload) m else Inr m) (\<lambda>m.
       bind_res (socket_ssl_send T \<lparr>bytes_size = ucast response_size, bytes_data = response_buf\<rparr> client m)
         (\<lambda>client.
       bind_res (if response_buf \<noteq> NULL then free response_buf m else Inr m) (\<lambda>m.
       Inr (SERVER_LISTENING, client, m)))))))))"

definition qkd_socket_server_init ::
  "'n openssl \<Rightarrow> libuuid \<Rightarrow> 'z mem_scheme open_connect_impl \<Rightarrow> 'z mem_scheme get_key_impl \<Rightarrow>
   'z mem_scheme close_impl \<Rightarrow> string \<Rightarrow> u16 \<Rightarrow> string option \<Rightarrow> string option \<Rightarrow> string option \<Rightarrow> int \<Rightarrow>
   'n \<Rightarrow> 'n list \<Rightarrow> 'z mem_scheme \<Rightarrow> (server_status_t \<times> 'n \<times> 'n list \<times> 'z mem_scheme) res" where
  "qkd_socket_server_init T L open_connect get_key close host port cert_pem key_pem ca_pem
     max_proto_version net conns m =
     socket_server_init T host port cert_pem key_pem ca_pem max_proto_version
       (qkd_servlet T L open_connect get_key close) net conns m"

section \<open>A transaction\<close>

text \<open>The memory in which a request is served: the header was read and released, the payload is there.\<close>

definition request_mem :: "u8 \<Rightarrow> bytes \<Rightarrow> 'z mem_scheme \<Rightarrow> 'z mem_scheme" where
  "request_mem service p m =
     new_block False p (kill_block (nxt m) (new_block False (take 8 (packet service p)) m))"

lemma request_mem_fields [simp]:
  "nxt (request_mem service p m) = Suc (Suc (nxt m))"
  "blocks (request_mem service p m) b =
     (if b = Suc (nxt m) then Some p else if b = nxt m then None else blocks m b)"
  "no_oom (request_mem service p m) = no_oom m"
  "mem.more (request_mem service p m) = mem.more m"
  by (simp_all add: request_mem_def)

lemma request_mem_facts:
  assumes "wf_mem m" "length p < 2 ^ 64"
  shows "wf_mem (request_mem service p m)" "grows m {Suc (nxt m)} (request_mem service p m)"
proof -
  let ?h = "new_block False (take 8 (packet service p)) m"
  have h: "wf_mem ?h" "grows m {nxt m} ?h"
    using assms(1) grows_new_block [OF grows_refl [OF assms(1)] assms(1)]
    by (simp_all add: packet_split length_enc)
  then show "wf_mem (request_mem service p m)"
    using assms(2) by (simp add: request_mem_def)
  have "grows m ({nxt m} - {nxt m}) (kill_block (nxt m) ?h)"
    using h(2) by (rule grows_kill_block) simp
  then show "grows m {Suc (nxt m)} (request_mem service p m)"
    using grows_new_block [of m "{}" "kill_block (nxt m) ?h" p] h(1) by (simp add: request_mem_def)
qed

lemma servlet_receives:
  assumes T: "tls_records T recs" and c: "recs c = packet service p # xs"
    and m: "no_oom m" "wf_mem m" "8 \<le> stack_size m" "length p \<le> stack_size m"
    and p: "p \<noteq> []" "length p < 2 ^ 31" and s: "service \<noteq> service_code QKD_SERVICE_CLOSE_SERVER"
  shows "\<exists>c2. recs c2 = xs \<and> qkd_servlet T L open_connect get_key close c m =
    bind_res (serve_request L open_connect get_key close service (Ptr (Suc (nxt m)) 0)
        (request_mem service p m)) (\<lambda>(response_size, response_buf, m').
    bind_res (free (Ptr (Suc (nxt m)) 0) m') (\<lambda>m'.
    bind_res (socket_ssl_send T \<lparr>bytes_size = ucast response_size, bytes_data = response_buf\<rparr> c2 m') (\<lambda>c3.
    bind_res (if response_buf \<noteq> NULL then free response_buf m' else Inr m') (\<lambda>m'.
    Inr (SERVER_LISTENING, c3, m')))))"
proof -
  let ?h = "new_block False (take 8 (packet service p)) m"
  let ?m1 = "kill_block (nxt m) ?h"
  let ?n = "ucast (of_nat (length p) :: u32) :: size_t"
  obtain c1 where c1: "socket_ssl_recv T 8 c m = Inr (\<lparr>bytes_size = 8, bytes_data = Ptr (nxt m) 0\<rparr>, c1, ?h)"
      "recs c1 = p # xs" "qkd_header_from_stream (Ptr (nxt m) 0) ?h =
        Inr (\<lparr>hdr_version = QKD_004_VERSION, hdr_service = service, hdr_payload_size = of_nat (length p)\<rparr>,
             Ptr (nxt m) 8)"
    using recv_header [OF T c m(1-3) p(1)] by blast
  have n: "unat ?n = length p"
    using p(2) by (simp add: unat_of_nat take_bit_nat_eq_self)
  have "\<exists>c2. socket_ssl_recv T ?n c1 ?m1 =
      Inr (\<lparr>bytes_size = ucast ?n, bytes_data = Ptr (Suc (nxt m)) 0\<rparr>, c2, request_mem service p m) \<and>
      recs c2 = xs"
    using recv_exact [OF T c1(2), of ?n ?m1] n p m(1,4) by (simp add: request_mem_def)
  then obtain c2 where "socket_ssl_recv T ?n c1 ?m1 =
      Inr (\<lparr>bytes_size = ucast ?n, bytes_data = Ptr (Suc (nxt m)) 0\<rparr>, c2, request_mem service p m)"
      "recs c2 = xs" by blast
  moreover have "free (Ptr (nxt m) 0) ?h = Inr ?m1"
    by (simp add: free_live)
  ultimately show ?thesis
    using c1(1,3) s by (intro exI [of _ c2]) (simp add: qkd_servlet_def)
qed

lemma servlet_transaction:
  assumes rcv: "tls_records T recs" "recs c = packet service p # xs" "no_oom m" "wf_mem m"
      "8 \<le> stack_size m" "length p \<le> stack_size m" "p \<noteq> []" "length p < 2 ^ 31"
      "service \<noteq> service_code QKD_SERVICE_CLOSE_SERVER"
    and serve: "serve_request L open_connect get_key close service (Ptr (Suc (nxt m)) 0)
        (request_mem service p m) = Inr (of_nat (length r), Ptr b 0, m')"
    and m': "grows m (insert (Suc (nxt m)) (insert b B)) m'" "blocks m' b = Some r"
      "b \<noteq> Suc (nxt m)" "Suc (nxt m) \<notin> B" "b \<notin> B"
    and r: "r \<noteq> []" "length r < 2 ^ 31"
  shows "\<exists>c2. recs c2 = xs \<and> qkd_servlet T L open_connect get_key close c m =
      Inr (SERVER_LISTENING, snd (SSL_write T c2 (int (length r)) r),
        kill_block b (kill_block (Suc (nxt m)) m'))"
    "grows m B (kill_block b (kill_block (Suc (nxt m)) m'))"
proof -
  let ?p = "Suc (nxt m)"
  have g: "grows m (insert b B) (kill_block ?p m')"
    using grows_kill_block [OF m'(1), of ?p] m'(3,4) by (simp add: insert_Diff_if)
  then show "grows m B (kill_block b (kill_block ?p m'))"
    using grows_kill_block [OF g, of b] m'(5) by simp
  have ld: "load (Ptr b 0) (length r) (kill_block ?p m') = Inr r"
    using m'(2,3) by (simp add: load_def)
  have u: "ucast (of_nat (length r) :: size_t) = (of_nat (length r) :: u32)"
    using r(2) by (intro ucast_of_nat_64_32) simp
  have fr: "free (Ptr ?p 0) m' = Inr (kill_block ?p m')"
      "free (Ptr b 0) (kill_block ?p m') = Inr (kill_block b (kill_block ?p m'))"
    using grows_free [OF m'(1), of ?p] grows_free [OF g, of b] by simp_all
  show "\<exists>c2. recs c2 = xs \<and> qkd_servlet T L open_connect get_key close c m =
      Inr (SERVER_LISTENING, snd (SSL_write T c2 (int (length r)) r),
        kill_block b (kill_block ?p m'))"
    using servlet_receives [OF rcv, of L open_connect get_key close]
    by (auto simp: serve u send_exact [OF ld r] fr)
qed

section \<open>Serving an OPEN\_CONNECT\<close>

text \<open>The memory in which the implementation is called, and the response it leads to.\<close>

definition oc_call_mem :: "bytes qkd_open_connect_request \<Rightarrow> 'z mem_scheme \<Rightarrow> 'z mem_scheme" where
  "oc_call_mem X m =
     str_block (metadata_mimetype (ocq_qos X)) (ocq_mem X (request_mem 2 (enc_ocq X) m))"

definition oc_answer :: "bytes qkd_open_connect_request \<Rightarrow> bytes \<Rightarrow> bytes qkd_open_connect_response" where
  "oc_answer X ksid = \<lparr>ocs_status = 0, ocs_qos = ocq_qos X, ocs_key_stream_id = ksid\<rparr>"

lemma oc_call_mem_fields:
  "nxt (oc_call_mem X m) = nxt m + 7" "mem.more (oc_call_mem X m) = mem.more m"
  "blocks (oc_call_mem X m) (nxt m + 6) = Some (metadata_mimetype (ocq_qos X) @ [0])"
  by (simp_all add: oc_call_mem_def ocq_mem_def) (simp_all add: str_block_def uuid_temp_def)

lemma oc_request_read:
  assumes L: "uuid_laws L" and m: "wf_mem m" "no_oom m"
    and X: "valid_ocq X" "length (enc_ocq X) < 2 ^ 31"
  defines "x \<equiv> ocq_struct X (nxt m + 2)" and "q \<equiv> qos_struct (ocq_qos X) (Ptr (nxt m + 6) 0)"
  shows "qkd_open_connect_request_from_stream L (Ptr (Suc (nxt m)) 0) (request_mem 2 (enc_ocq X) m) =
      Inr (x, Ptr (Suc (nxt m)) (length (enc_ocq X)), ocq_mem X (request_mem 2 (enc_ocq X) m))"
    "qkd_copy_qos zero_qos (ocq_qos x) (ocq_mem X (request_mem 2 (enc_ocq X) m)) = Inr (q, oc_call_mem X m)"
    "wf_mem (oc_call_mem X m)" "no_oom (oc_call_mem X m)"
    "cstr (oc_call_mem X m) (ocq_source x) (ocq_source X)"
    "cstr (oc_call_mem X m) (ocq_destination x) (ocq_destination X)"
    "qos_at (oc_call_mem X m) q (ocq_qos X)"
    "grows m {nxt m + 1, nxt m + 2, nxt m + 3, nxt m + 4, nxt m + 6} (oc_call_mem X m)"
proof -
  let ?p = "enc_ocq X" and ?s = "metadata_mimetype (ocq_qos X)"
  define m2 where "m2 = request_mem 2 ?p m"
  define m3 where "m3 = ocq_mem X m2"
  have m2: "grows m {Suc (nxt m)} m2" "readable m2 (Suc (nxt m)) ?p" "nxt m2 = nxt m + 2" "wf_mem m2"
    using request_mem_facts [OF m(1), of ?p 2] m(2) X(2) by (simp_all add: m2_def readable_def)
  have dec: "dec_ocq (drop 0 ?p) = Some (X, [])"
    using ocq.dec_enc [OF X(1), of "[]"] by simp
  note m3 = ocq_result [OF m2(2) dec, folded m3_def, unfolded m2(3), folded x_def]
  have n3: "nxt m3 = nxt m + 6"
    by (simp add: m3_def ocq_mem_def m2(3))
  have call: "oc_call_mem X m = str_block ?s m3"
    by (simp add: oc_call_mem_def m3_def m2_def)
  have q3: "qos_at m3 (ocq_qos x) (ocq_qos X)" "cstr m3 (ocq_source x) (ocq_source X)"
      "cstr m3 (ocq_destination x) (ocq_destination X)"
    using m3(3) by (simp_all add: ocq_at_def)
  have len: "length ?s + 1 < 2 ^ 64"
    using X(2) by (simp add: enc_ocq_def length_enc)
  show "qkd_open_connect_request_from_stream L (Ptr (Suc (nxt m)) 0) (request_mem 2 ?p m) =
      Inr (x, Ptr (Suc (nxt m)) (length ?p), ocq_mem X (request_mem 2 ?p m))"
    using read_ocq [OF m2(2) L, of 0] dec m2(3) by (simp add: m2_def x_def)
  show "qkd_copy_qos zero_qos (ocq_qos x) (ocq_mem X (request_mem 2 ?p m)) = Inr (q, oc_call_mem X m)"
    using copy_qos_fresh [OF m3(1,2) q3(1), of zero_qos]
    by (simp only: call q_def n3 m3_def [symmetric] m2_def [symmetric]) (simp add: zero_qos_def)
  show "wf_mem (oc_call_mem X m)" "no_oom (oc_call_mem X m)"
    using m3(1,2) len by (simp_all add: call wf_mem_str_block)
  show "cstr (oc_call_mem X m) (ocq_source x) (ocq_source X)"
    "cstr (oc_call_mem X m) (ocq_destination x) (ocq_destination X)"
    using q3 m3(1) by (simp_all add: call str_block_def cstr_new_block)
  show "qos_at (oc_call_mem X m) q (ocq_qos X)"
    using X(1) oc_call_mem_fields(3) [of X m] by (simp add: q_def valid_ocq_def qos_at_struct)
  have "grows m ({Suc (nxt m)} \<union> {nxt m + 2, Suc (nxt m + 2), Suc (Suc (nxt m + 2))}) m3"
    using grows_trans [OF m2(1) m3(4) m2(4)] .
  from grows_str_block [OF this m3(1), of ?s]
  show "grows m {nxt m + 1, nxt m + 2, nxt m + 3, nxt m + 4, nxt m + 6} (oc_call_mem X m)"
    unfolding call n3 by (rule grows_weaken) auto
qed

text \<open>After the call: the response is built, the request and the response are released.\<close>

definition oc_end_mem :: "bytes \<Rightarrow> 'z mem_scheme \<Rightarrow> 'z mem_scheme \<Rightarrow> 'z mem_scheme" where
  "oc_end_mem r m m5 = kill_block (nxt m + 6) (kill_block (nxt m + 4) (kill_block (nxt m + 3)
     (kill_block (nxt m + 2) (new_block False r m5))))"

lemma oc_response_sent:
  assumes m: "wf_mem m" and m5: "wf_mem m5" "no_oom m5" "grows (oc_call_mem X m) A m5"
    and call: "wf_mem (oc_call_mem X m)"
      "grows m {nxt m + 1, nxt m + 2, nxt m + 3, nxt m + 4, nxt m + 6} (oc_call_mem X m)"
    and X: "valid_ocq X" "fits_ocq X" and k: "length k = 16"
  defines "r \<equiv> packet 3 (enc_ocs (oc_answer X k))" and "q \<equiv> qos_struct (ocq_qos X) (Ptr (nxt m + 6) 0)"
  defines "m7 \<equiv> kill_block (nxt m + 6) (kill_block (nxt m + 4) (kill_block (nxt m + 3)
    (kill_block (nxt m + 2) (new_block False r m5))))"
  shows "make_packet 3 qkd_sizeof_open_connect_response qkd_open_connect_response_to_stream
      \<lparr>ocs_status = 0, ocs_qos = q, ocs_key_stream_id = k\<rparr> m5 =
      Inr (of_nat (length r), Ptr (nxt m5) 0, new_block False r m5)"
    "\<exists>x' m6. free_qkd_open_connect_request (Some (ocq_struct X (nxt m + 2))) (new_block False r m5) =
        Inr (x', m6) \<and>
      (\<exists>y'. free_qkd_open_connect_response (Some \<lparr>ocs_status = 0, ocs_qos = q, ocs_key_stream_id = k\<rparr>) m6 =
        Inr (y', m7))"
    "grows m (insert (Suc (nxt m)) (insert (nxt m5) A)) m7" "wf_mem m7"
proof -
  let ?B = "{nxt m + 1, nxt m + 2, nxt m + 3, nxt m + 4, nxt m + 6}"
  let ?m6 = "new_block False r m5"
  have old: "nxt m + 7 \<le> nxt m5" "\<And>b. b < nxt m + 7 \<Longrightarrow> blocks m5 b = blocks (oc_call_mem X m) b"
    using m5(3) by (simp_all add: grows_def oc_call_mem_fields(1))
  have len: "length (enc_ocs (oc_answer X k)) < 2 ^ 32" "fits_ocs (oc_answer X k)"
    using X(2) k by (simp_all add: enc_ocs_def oc_answer_def length_enc fits_ocq_def fits_ocs_def fits_mime_def)
  have at: "ocs_at m5 \<lparr>ocs_status = 0, ocs_qos = q, ocs_key_stream_id = k\<rparr> (oc_answer X k)"
    using X(1) k old(2) [of "nxt m + 6"] oc_call_mem_fields(3) [of X m]
    by (simp add: ocs_at_def oc_answer_def q_def valid_ocq_def qos_at_struct)
  show "make_packet 3 qkd_sizeof_open_connect_response qkd_open_connect_response_to_stream
      \<lparr>ocs_status = 0, ocs_qos = q, ocs_key_stream_id = k\<rparr> m5 =
      Inr (of_nat (length r), Ptr (nxt m5) 0, ?m6)"
    using ocs_w.make_packet_exact [OF m5(1,2) at len(2,1), of 3] by (simp add: r_def packet_split)
  have lr: "length r < 2 ^ 64"
    using len(1) by (simp add: r_def packet_split)
  then show "wf_mem m7"
    using m5(1) by (simp add: m7_def)
  have A: "nxt m + 7 \<le> b" "b < nxt m5" if "b \<in> A" for b
    using that m5(1,3) grows_new [OF m5(3) that] oc_call_mem_fields(1) [of X m]
    by (auto simp: grows_def dest: wf_mem_live)
  have g6: "grows m (insert (nxt m5) (?B \<union> A)) ?m6"
    using grows_new_block [OF grows_trans [OF call(2) m5(3) call(1)] m5(1)] .
  have "nxt m + 2 \<notin> A" "nxt m + 3 \<notin> A" "nxt m + 4 \<notin> A" "nxt m + 6 \<notin> A"
    using A(1) by fastforce+
  then have "insert (nxt m5) (?B \<union> A) - {nxt m + 2} - {nxt m + 3} - {nxt m + 4} - {nxt m + 6} =
      insert (Suc (nxt m)) (insert (nxt m5) A)"
    using old(1) by auto
  moreover have "grows m (insert (nxt m5) (?B \<union> A) - {nxt m + 2} - {nxt m + 3} - {nxt m + 4} - {nxt m + 6}) m7"
    unfolding m7_def by (intro grows_kill_block g6) auto
  ultimately show "grows m (insert (Suc (nxt m)) (insert (nxt m5) A)) m7"
    by simp
  have "live ?m6 b" if "b \<in> insert (nxt m5) (?B \<union> A)" for b
    using g6 that by (auto simp: live_def grows_def simp del: blocks_new_block fields_new_block)
  then have lv: "live ?m6 (nxt m + 2)" "live ?m6 (nxt m + 3)" "live ?m6 (nxt m + 4)" "live ?m6 (nxt m + 6)"
    by simp_all
  show "\<exists>x' m6. free_qkd_open_connect_request (Some (ocq_struct X (nxt m + 2))) ?m6 = Inr (x', m6) \<and>
      (\<exists>y'. free_qkd_open_connect_response (Some \<lparr>ocs_status = 0, ocs_qos = q, ocs_key_stream_id = k\<rparr>) m6 =
        Inr (y', m7))"
    using free_ocq_struct [of ?m6 "nxt m + 2" X] lv
      free_ocs_qos_struct [of "kill_block (nxt m + 4) (kill_block (nxt m + 3) (kill_block (nxt m + 2) ?m6))"
        "nxt m + 6" 0 "ocq_qos X" k]
    by (simp add: m7_def q_def eval_nat_numeral)
qed

section \<open>Serving a GET\_KEY\<close>

definition gk_call_mem :: "bytes qkd_get_key_request \<Rightarrow> 'z mem_scheme \<Rightarrow> 'z mem_scheme" where
  "gk_call_mem X m = gkq_mem X (request_mem 4 (enc_gkq X) m)"

definition gk_answer :: "u32 \<Rightarrow> u32 \<Rightarrow> bytes \<Rightarrow> bytes \<Rightarrow> bytes qkd_get_key_response" where
  "gk_answer st index key info =
     \<lparr>gks_status = st, gks_index = index, gks_key_buffer = key, gks_metadata = info\<rparr>"

lemma gk_call_mem_fields:
  "nxt (gk_call_mem X m) = nxt m + 4" "mem.more (gk_call_mem X m) = mem.more m"
  by (simp_all add: gk_call_mem_def gkq_mem_def uuid_temp_def)

lemma gk_request_read:
  assumes L: "uuid_laws L" and m: "wf_mem m" "no_oom m"
    and X: "valid_gkq X" "length (enc_gkq X) < 2 ^ 31"
  shows "qkd_get_key_request_from_stream L (Ptr (Suc (nxt m)) 0) (request_mem 4 (enc_gkq X) m) =
      Inr (gkq_struct X (nxt m + 2), Ptr (Suc (nxt m)) (length (enc_gkq X)), gk_call_mem X m)"
    "wf_mem (gk_call_mem X m)" "no_oom (gk_call_mem X m)"
    "bytes_at (gk_call_mem X m) (blob_struct (gkq_metadata X) (nxt m + 3)) (gkq_metadata X)"
    "grows m {nxt m + 1, nxt m + 3} (gk_call_mem X m)" "length (gkq_key_stream_id X) = 16"
proof -
  let ?p = "enc_gkq X"
  define m2 where "m2 = request_mem 4 ?p m"
  have m2: "grows m {Suc (nxt m)} m2" "readable m2 (Suc (nxt m)) ?p" "nxt m2 = nxt m + 2" "wf_mem m2"
    using request_mem_facts [OF m(1), of ?p 4] m(2) X(2) by (simp_all add: m2_def readable_def)
  have dec: "dec_gkq (drop 0 ?p) = Some (X, [])"
    using gkq.dec_enc [OF X(1), of "[]"] by simp
  have call: "gk_call_mem X m = gkq_mem X m2"
    by (simp add: gk_call_mem_def m2_def)
  note m3 = gkq_result [OF m2(2) dec, folded call, unfolded m2(3)]
  show "qkd_get_key_request_from_stream L (Ptr (Suc (nxt m)) 0) (request_mem 4 ?p m) =
      Inr (gkq_struct X (nxt m + 2), Ptr (Suc (nxt m)) (length ?p), gk_call_mem X m)"
    using read_gkq [OF m2(2) L, of 0] dec m2(3) by (simp add: call) (simp add: m2_def)
  show "wf_mem (gk_call_mem X m)" "no_oom (gk_call_mem X m)"
    using m3(1,2) .
  show "bytes_at (gk_call_mem X m) (blob_struct (gkq_metadata X) (nxt m + 3)) (gkq_metadata X)"
    using m3(3) by (simp add: gkq_at_def gkq_struct_def eval_nat_numeral)
  show "grows m {nxt m + 1, nxt m + 3} (gk_call_mem X m)"
    using grows_trans [OF m2(1) m3(4) m2(4)] by (rule grows_weaken) auto
  show "length (gkq_key_stream_id X) = 16"
    using X(1) by (simp add: valid_gkq_def)
qed

lemma gk_packet:
  assumes "wf_mem m" "no_oom m" "bytes_at m k key" "bytes_at m d info"
    "length (packet 5 (enc_gks (gk_answer st index key info))) < 2 ^ 31"
  shows "make_packet 5 qkd_sizeof_get_key_response qkd_get_key_response_to_stream
      \<lparr>gks_status = st, gks_index = index, gks_key_buffer = k, gks_metadata = d\<rparr> m =
    Inr (of_nat (length (packet 5 (enc_gks (gk_answer st index key info)))), Ptr (nxt m) 0,
      new_block False (packet 5 (enc_gks (gk_answer st index key info))) m)"
proof -
  have "length (enc_gks (gk_answer st index key info)) < 2 ^ 32" "fits_gks (gk_answer st index key info)"
    using assms(5)
    by (simp_all add: packet_split enc_gks_def gk_answer_def length_enc fits_gks_def fits_bytes_def)
  moreover have "gks_at m \<lparr>gks_status = st, gks_index = index, gks_key_buffer = k, gks_metadata = d\<rparr>
      (gk_answer st index key info)"
    using assms(3,4) by (simp add: gks_at_def gk_answer_def)
  ultimately show ?thesis
    using gks_w.make_packet_exact [OF assms(1,2), of _ "gk_answer st index key info" 5]
    by (simp add: packet_split)
qed

text \<open>
  The calls that the handler makes, from the memory in which the request was read, and the memory
  in which it then sends the response.
\<close>

definition oc_called ::
  "'z mem_scheme open_connect_impl \<Rightarrow> bytes qkd_open_connect_request \<Rightarrow> bytes \<Rightarrow> 'z mem_scheme \<Rightarrow> 'z mem_scheme \<Rightarrow> bool" where
  "oc_called open_connect X k m m5 \<longleftrightarrow>
     open_connect (ocq_source (ocq_struct X (nxt m + 2))) (ocq_destination (ocq_struct X (nxt m + 2)))
         (qos_struct (ocq_qos X) (Ptr (nxt m + 6) 0)) (ocq_key_stream_id X) 0 (oc_call_mem X m) =
       Inr (qos_struct (ocq_qos X) (Ptr (nxt m + 6) 0), k, 0, m5)"

definition gk_called ::
  "'z mem_scheme get_key_impl \<Rightarrow> bytes qkd_get_key_request \<Rightarrow> bytes \<Rightarrow> bytes \<Rightarrow> 'z mem_scheme \<Rightarrow> 'z mem_scheme \<Rightarrow> bool" where
  "gk_called get_key X key info m m4 \<longleftrightarrow>
     get_key (gkq_key_stream_id X) (gkq_index X) zero_bytes (blob_struct (gkq_metadata X) (nxt m + 3)) 0 (gk_call_mem X m) =
       Inr (gkq_index X, blob_struct key (nxt m + 4), blob_struct info (nxt m + 5), 0, m4)"

definition gk_end_mem :: "bytes \<Rightarrow> 'z mem_scheme \<Rightarrow> 'z mem_scheme \<Rightarrow> 'z mem_scheme" where
  "gk_end_mem r m m4 = kill_block (nxt m + 5) (kill_block (nxt m + 4) (new_block False r m4))"

definition gk_refused_mem :: "bytes qkd_get_key_request \<Rightarrow> bytes \<Rightarrow> 'z mem_scheme \<Rightarrow> 'z mem_scheme" where
  "gk_refused_mem X r m = kill_block (nxt m + 3) (new_block False r (gk_call_mem X m))"

definition cl_end_mem :: "qkd_close_request \<Rightarrow> bytes \<Rightarrow> 'z mem_scheme \<Rightarrow> 'z mem_scheme" where
  "cl_end_mem X r m = new_block False r (uuid_temp (clq_key_stream_id X) (request_mem 8 (enc_clq X) m))"

text \<open>At the end the payload and the response are released.\<close>

definition sent_mem :: "nat \<Rightarrow> 'z mem_scheme \<Rightarrow> 'z mem_scheme \<Rightarrow> 'z mem_scheme" where
  "sent_mem b m m' = kill_block b (kill_block (Suc (nxt m)) m')"

section \<open>What the handler relies on in the implementation\<close>

text \<open>
  \<open>rel m F s\<close>: in memory \<open>m\<close> the implementation is in the abstract state \<open>s\<close>, and
  what it keeps in memory is in the blocks \<open>F\<close>. The other functions are the abstract effects of
  the calls: \<open>oc_step\<close> of an OPEN\_CONNECT, \<open>gk_step\<close> of a GET\_KEY that delivers a key and
  metadata, \<open>gk_unknown\<close> when it refuses. An implementation leaves the memory of its caller
  alone.
\<close>

locale key_service =
  fixes open_connect :: "libuuid \<Rightarrow> 'z mem_scheme open_connect_impl"
    and get_key :: "libuuid \<Rightarrow> 'z mem_scheme get_key_impl"
    and close :: "'z mem_scheme close_impl"
    and rel :: "'z mem_scheme \<Rightarrow> nat set \<Rightarrow> 's \<Rightarrow> bool"
    and oc_step :: "libuuid \<Rightarrow> bytes \<Rightarrow> bytes \<Rightarrow> bytes qkd_qos \<Rightarrow> bytes \<Rightarrow> 's \<Rightarrow> bytes \<times> 's"
    and gk_step :: "libuuid \<Rightarrow> bytes \<Rightarrow> u32 \<Rightarrow> bytes \<Rightarrow> 's \<Rightarrow> (bytes \<times> bytes \<times> 's) option"
    and gk_unknown :: "bytes \<Rightarrow> 's \<Rightarrow> bool"
  assumes rel_owned: "wf_mem m \<Longrightarrow> rel m F s \<Longrightarrow> b \<in> F \<Longrightarrow> b < nxt m"
    and rel_frame: "rel m F s \<Longrightarrow> nxt m \<le> nxt m' \<Longrightarrow> mem.more m' = mem.more m \<Longrightarrow>
      (\<And>b. b \<in> F \<Longrightarrow> blocks m' b = blocks m b) \<Longrightarrow> rel m' F s"
    and oc_impl: "uuid_laws L \<Longrightarrow> wf_mem m \<Longrightarrow> no_oom m \<Longrightarrow> rel m F s \<Longrightarrow>
      cstr m src S \<Longrightarrow> cstr m dst D \<Longrightarrow> qos_at m q Q \<Longrightarrow> length ksid = 16 \<Longrightarrow>
      oc_step L S D Q ksid s = (ksid', s') \<Longrightarrow>
      \<exists>m' A. open_connect L src dst q ksid st m = Inr (q, ksid', 0, m') \<and> length ksid' = 16 \<and>
        wf_mem m' \<and> no_oom m' \<and> rel m' (F \<union> A) s' \<and> grows m A m'"
    and gk_impl: "uuid_laws L \<Longrightarrow> wf_mem m \<Longrightarrow> no_oom m \<Longrightarrow> rel m F s \<Longrightarrow> length ksid = 16 \<Longrightarrow>
      cbytes m (bytes_data md) x \<Longrightarrow> gk_step L ksid index x s = Some (key, info, s') \<Longrightarrow>
      \<exists>m'. get_key L ksid index kb md st m =
          Inr (index, blob_struct key (nxt m), blob_struct info (Suc (nxt m)), 0, m') \<and>
        wf_mem m' \<and> no_oom m' \<and> rel m' F s' \<and> grows m {nxt m, Suc (nxt m)} m' \<and>
        blocks m' (nxt m) = Some key \<and> blocks m' (Suc (nxt m)) = Some info \<and>
        valid_bytes key \<and> valid_bytes info"
    and gk_refused: "uuid_laws L \<Longrightarrow> rel m F s \<Longrightarrow> length ksid = 16 \<Longrightarrow> gk_unknown ksid s \<Longrightarrow>
      get_key L ksid index kb md st m = Inr (index, kb, md, 3, m)"
    and cl_impl: "close ksid st m = Inr (0, m)"
begin

lemma serve_open_connect:
  assumes L: "uuid_laws L" and m: "wf_mem m" "no_oom m" "rel m F s"
    and X: "valid_ocq X" "fits_ocq X" "length (enc_ocq X) < 2 ^ 31"
    and step: "oc_step L (ocq_source X) (ocq_destination X) (ocq_qos X) (ocq_key_stream_id X) s = (k, s')"
  shows "\<exists>m' A b. serve_request L (open_connect L) (get_key L) close 2 (Ptr (Suc (nxt m)) 0)
        (request_mem 2 (enc_ocq X) m) =
      Inr (of_nat (length (packet 3 (enc_ocs (oc_answer X k)))), Ptr b 0, m') \<and>
    grows m (insert (Suc (nxt m)) (insert b A)) m' \<and>
    blocks m' b = Some (packet 3 (enc_ocs (oc_answer X k))) \<and> length k = 16 \<and>
    Suc (nxt m) < b \<and> Suc (nxt m) \<notin> A \<and> b \<notin> A \<and> b \<notin> F \<and> wf_mem m' \<and> no_oom m' \<and> rel m' (F \<union> A) s' \<and>
    (\<exists>m5. oc_called (open_connect L) X k m m5 \<and> b = nxt m5 \<and> m' = oc_end_mem (packet 3 (enc_ocs (oc_answer X k))) m m5)"
proof -
  let ?r = "packet 3 (enc_ocs (oc_answer X k))" and ?m4 = "oc_call_mem X m"
  let ?q = "qos_struct (ocq_qos X) (Ptr (nxt m + 6) 0)" and ?x = "ocq_struct X (nxt m + 2)"
  note rd = oc_request_read [OF L m(1,2) X(1,3)]
  have F: "b < nxt m" if "b \<in> F" for b
    using m(1,3) that by (rule rel_owned)
  have "rel ?m4 F s"
    by (rule rel_frame [OF m(3)]) (simp_all add: oc_call_mem_fields F grows_old [OF rd(8)])
  moreover have "length (ocq_key_stream_id X) = 16"
    using X(1) by (simp add: valid_ocq_def)
  ultimately obtain m5 A where m5: "open_connect L (ocq_source ?x) (ocq_destination ?x) ?q
        (ocq_key_stream_id X) 0 ?m4 = Inr (?q, k, 0, m5)"
      "length k = 16" "wf_mem m5" "no_oom m5" "rel m5 (F \<union> A) s'" "grows ?m4 A m5"
    using oc_impl [OF L rd(3,4) _ rd(5-7) _ step] by blast
  define m7 where "m7 = kill_block (nxt m + 6) (kill_block (nxt m + 4) (kill_block (nxt m + 3)
    (kill_block (nxt m + 2) (new_block False ?r m5))))"
  note sent = oc_response_sent [OF m(1) m5(3,4,6) rd(3,8) X(1,2) m5(2), folded m7_def]
  have n5: "nxt m + 7 \<le> nxt m5" and A: "\<And>b. b \<in> A \<Longrightarrow> nxt m + 7 \<le> b"
    using grows_le [OF m5(6)] grows_new [OF m5(6)] by (simp_all add: oc_call_mem_fields)
  have A5: "b < nxt m5" if "b \<in> F \<union> A" for b
    using m5(3,5) that by (rule rel_owned)
  have "rel m7 (F \<union> A) s'"
    using m5(5)
  proof (rule rel_frame)
    show "blocks m7 b = blocks m5 b" if "b \<in> F \<union> A" for b
      using A5 [OF that] F A that by (fastforce simp: m7_def)
  qed (simp_all add: m7_def)
  moreover have "serve_request L (open_connect L) (get_key L) close 2 (Ptr (Suc (nxt m)) 0)
      (request_mem 2 (enc_ocq X) m) = Inr (of_nat (length ?r), Ptr (nxt m5) 0, m7)"
    using sent(1,2) m5(1) rd(1,2)
    by (auto simp: serve_request_def qkd_open_connect_struct_def ocq_struct_def)
  ultimately show ?thesis
    using sent(3,4) m5(1,2,4) n5 A [of "Suc (nxt m)"] A5
    by (intro exI [of _ m7] exI [of _ A] exI [of _ "nxt m5"])
      (fastforce simp: m7_def oc_end_mem_def oc_called_def)
qed

lemma serve_get_key:
  assumes L: "uuid_laws L" and m: "wf_mem m" "no_oom m" "rel m F s"
    and X: "valid_gkq X" "length (enc_gkq X) < 2 ^ 31"
    and step: "gk_step L (gkq_key_stream_id X) (gkq_index X) (gkq_metadata X) s = Some (key, info, s')"
    and r: "length (packet 5 (enc_gks (gk_answer 0 (gkq_index X) key info))) < 2 ^ 31"
  shows "\<exists>m' b. serve_request L (open_connect L) (get_key L) close 4 (Ptr (Suc (nxt m)) 0)
        (request_mem 4 (enc_gkq X) m) =
      Inr (of_nat (length (packet 5 (enc_gks (gk_answer 0 (gkq_index X) key info)))), Ptr b 0, m') \<and>
    grows m (insert (Suc (nxt m)) (insert b {nxt m + 3})) m' \<and>
    blocks m' b = Some (packet 5 (enc_gks (gk_answer 0 (gkq_index X) key info))) \<and>
    nxt m + 3 < b \<and> b \<notin> F \<and> wf_mem m' \<and> no_oom m' \<and> rel m' F s' \<and>
    (\<exists>m4. gk_called (get_key L) X key info m m4 \<and> nxt m + 5 < nxt m4 \<and>
       blocks m4 (nxt m + 4) = Some key \<and> blocks m4 (nxt m + 5) = Some info \<and> b = nxt m4 \<and>
       m' = gk_end_mem (packet 5 (enc_gks (gk_answer 0 (gkq_index X) key info))) m m4)"
proof -
  let ?r = "packet 5 (enc_gks (gk_answer 0 (gkq_index X) key info))" and ?m3 = "gk_call_mem X m"
  note rd = gk_request_read [OF L m(1,2) X]
  have F: "b < nxt m" if "b \<in> F" for b
    using m(1,3) that by (rule rel_owned)
  have "rel ?m3 F s"
    by (rule rel_frame [OF m(3)]) (simp_all add: gk_call_mem_fields F grows_old [OF rd(5)])
  moreover have "cbytes ?m3 (bytes_data (blob_struct (gkq_metadata X) (nxt m + 3))) (gkq_metadata X)"
    using rd(4) by (simp add: bytes_at_def)
  ultimately obtain m4 where m4: "get_key L (gkq_key_stream_id X) (gkq_index X) zero_bytes
        (blob_struct (gkq_metadata X) (nxt m + 3)) 0 ?m3 =
        Inr (gkq_index X, blob_struct key (nxt m + 4), blob_struct info (nxt m + 5), 0, m4)"
      "wf_mem m4" "no_oom m4" "rel m4 F s'" "grows ?m3 {nxt m + 4, nxt m + 5} m4"
      "blocks m4 (nxt m + 4) = Some key" "blocks m4 (nxt m + 5) = Some info" "valid_bytes key" "valid_bytes info"
    using gk_impl [OF L rd(2,3) _ rd(6) _ step, of F _ zero_bytes 0]
    by (auto simp: gk_call_mem_fields eval_nat_numeral)
  define m6 where "m6 = kill_block (nxt m + 5) (kill_block (nxt m + 4) (new_block False ?r m4))"
  have n4: "nxt m + 4 \<le> nxt m4" "nxt m + 5 < nxt m4" "nxt m + 4 < nxt m4"
    using grows_le [OF m4(5)] wf_mem_live [OF m4(2) m4(7)] by (simp_all add: gk_call_mem_fields)
  have g: "grows m ({nxt m + 1, nxt m + 3} \<union> {nxt m + 4, nxt m + 5}) m4"
    using grows_trans [OF rd(5) m4(5) rd(2)] .
  have "grows m (insert (nxt m4) ({nxt m + 1, nxt m + 3} \<union> {nxt m + 4, nxt m + 5})
      - {nxt m + 4} - {nxt m + 5}) m6"
    unfolding m6_def by (intro grows_kill_block grows_new_block [OF g m4(2)]) auto
  then have g6: "grows m (insert (Suc (nxt m)) (insert (nxt m4) {nxt m + 3})) m6"
    by (rule grows_weaken) (use n4 in auto)
  have "live (new_block False ?r m4) (nxt m + 4)" "live (new_block False ?r m4) (nxt m + 5)"
    using n4 m4(6,7) g by (auto simp: live_def grows_def)
  then have fr: "\<exists>y. free_qkd_get_key_response (Some \<lparr>gks_status = 0, gks_index = gkq_index X,
        gks_key_buffer = blob_struct key (nxt m + 4), gks_metadata = blob_struct info (nxt m + 5)\<rparr>)
        (new_block False ?r m4) = Inr (y, m6)"
    by (subst free_gks_blobs) (simp_all add: m6_def)
  have "bytes_at m4 (blob_struct key (nxt m + 4)) key" "bytes_at m4 (blob_struct info (nxt m + 5)) info"
    using m4(6-9) by (simp_all add: bytes_at_block)
  note pk = gk_packet [OF m4(2,3) this r]
  have "serve_request L (open_connect L) (get_key L) close 4 (Ptr (Suc (nxt m)) 0)
      (request_mem 4 (enc_gkq X) m) = Inr (of_nat (length ?r), Ptr (nxt m4) 0, m6)"
    using rd(1) m4(1) pk fr
    by (auto simp: serve_request_def qkd_get_key_struct_def zero_get_key_response_def gkq_struct_def
        free_qkd_get_key_request_def eval_nat_numeral)
  moreover have "rel m6 F s'"
    by (rule rel_frame [OF m4(4)]) (use F n4 in \<open>fastforce simp: m6_def\<close>)+
  moreover have "nxt m4 \<notin> F" "wf_mem m6" "no_oom m6" "blocks m6 (nxt m4) = Some ?r"
    using F n4 m4(2,3) r by (auto simp: m6_def dest: F)
  ultimately show ?thesis
    using g6 n4 m4(1,6,7)
    by (intro exI [of _ m6] exI [of _ "nxt m4"]) (simp add: gk_called_def gk_end_mem_def m6_def)
qed

text \<open>
  A GET\_KEY that is refused: the response carries the metadata of the request, whose block is
  therefore released with the response.
\<close>

lemma serve_get_key_refused:
  assumes L: "uuid_laws L" and m: "wf_mem m" "no_oom m" "rel m F s"
    and X: "valid_gkq X" "length (enc_gkq X) < 2 ^ 31"
    and step: "gk_unknown (gkq_key_stream_id X) s"
    and r: "length (packet 5 (enc_gks (gk_answer 3 (gkq_index X) [] (gkq_metadata X)))) < 2 ^ 31"
  shows "\<exists>m' b. serve_request L (open_connect L) (get_key L) close 4 (Ptr (Suc (nxt m)) 0)
        (request_mem 4 (enc_gkq X) m) =
      Inr (of_nat (length (packet 5 (enc_gks (gk_answer 3 (gkq_index X) [] (gkq_metadata X))))), Ptr b 0, m') \<and>
    grows m (insert (Suc (nxt m)) (insert b {})) m' \<and>
    blocks m' b = Some (packet 5 (enc_gks (gk_answer 3 (gkq_index X) [] (gkq_metadata X)))) \<and>
    nxt m + 3 < b \<and> b \<notin> F \<and> wf_mem m' \<and> no_oom m' \<and> rel m' F s \<and>
    b = nxt m + 4 \<and> m' = gk_refused_mem X (packet 5 (enc_gks (gk_answer 3 (gkq_index X) [] (gkq_metadata X)))) m"
proof -
  let ?r = "packet 5 (enc_gks (gk_answer 3 (gkq_index X) [] (gkq_metadata X)))" and ?m3 = "gk_call_mem X m"
  let ?b = "nxt m + 4"
  note rd = gk_request_read [OF L m(1,2) X]
  have F: "b < nxt m" if "b \<in> F" for b
    using m(1,3) that by (rule rel_owned)
  have rel3: "rel ?m3 F s"
    by (rule rel_frame [OF m(3)]) (simp_all add: gk_call_mem_fields F grows_old [OF rd(5)])
  define m5 where "m5 = kill_block (nxt m + 3) (new_block False ?r ?m3)"
  have "bytes_at ?m3 zero_bytes []"
    by (simp add: bytes_at_def zero_bytes_def)
  note pk = gk_packet [OF rd(2,3) this rd(4) r, unfolded gk_call_mem_fields]
  have g4: "grows m (insert ?b {nxt m + 1, nxt m + 3}) (new_block False ?r ?m3)"
    using grows_new_block [OF rd(5,2), of ?r] by (simp add: gk_call_mem_fields)
  then have "live (new_block False ?r ?m3) (nxt m + 3)"
    by (auto simp: live_def grows_def simp del: blocks_new_block fields_new_block)
  then have fr: "\<exists>y. free_qkd_get_key_response (Some \<lparr>gks_status = 3, gks_index = gkq_index X,
        gks_key_buffer = zero_bytes, gks_metadata = blob_struct (gkq_metadata X) (nxt m + 3)\<rparr>)
        (new_block False ?r ?m3) = Inr (y, m5)"
    by (simp add: free_qkd_get_key_response_def free_qkd_bytes_def zero_bytes_def blob_struct_def
        free_live_block m5_def)
  have "serve_request L (open_connect L) (get_key L) close 4 (Ptr (Suc (nxt m)) 0)
      (request_mem 4 (enc_gkq X) m) = Inr (of_nat (length ?r), Ptr ?b 0, m5)"
    using rd(1) gk_refused [OF L rel3 rd(6) step] pk fr
    by (auto simp: serve_request_def qkd_get_key_struct_def zero_get_key_response_def gkq_struct_def
        free_qkd_get_key_request_def eval_nat_numeral)
  moreover have "rel m5 F s"
    by (rule rel_frame [OF rel3]) (use F in \<open>fastforce simp: m5_def gk_call_mem_fields\<close>)+
  moreover have "grows m (insert (Suc (nxt m)) (insert ?b {})) m5"
    unfolding m5_def using grows_kill_block [OF g4, of "nxt m + 3"] by (rule grows_weaken) auto
  moreover have "?b \<notin> F" "wf_mem m5" "no_oom m5" "blocks m5 ?b = Some ?r"
    using rd(2,3) r by (auto simp: m5_def gk_call_mem_fields dest: F)
  ultimately show ?thesis
    by (intro exI [of _ m5] exI [of _ ?b]) (simp add: gk_refused_mem_def m5_def)
qed

lemma serve_close:
  assumes L: "uuid_laws L" and m: "wf_mem m" "no_oom m" "rel m F s" and X: "valid_clq X"
  shows "\<exists>m' b. serve_request L (open_connect L) (get_key L) close 8 (Ptr (Suc (nxt m)) 0)
        (request_mem 8 (enc_clq X) m) =
      Inr (of_nat (length (packet 9 (enc_cls \<lparr>cls_status = 0\<rparr>))), Ptr b 0, m') \<and>
    grows m (insert (Suc (nxt m)) (insert b {})) m' \<and>
    blocks m' b = Some (packet 9 (enc_cls \<lparr>cls_status = 0\<rparr>)) \<and>
    Suc (nxt m) < b \<and> b \<notin> F \<and> wf_mem m' \<and> no_oom m' \<and> rel m' F s \<and>
    b = nxt m + 3 \<and> m' = cl_end_mem X (packet 9 (enc_cls \<lparr>cls_status = 0\<rparr>)) m"
proof -
  let ?r = "packet 9 (enc_cls \<lparr>cls_status = 0\<rparr>)" and ?p = "enc_clq X"
  define m2 where "m2 = request_mem 8 ?p m"
  define m3 where "m3 = uuid_temp (clq_key_stream_id X) m2"
  have len: "length ?p = 16" "length (clq_key_stream_id X) = 16" "length ?r = 12"
    using X by (simp_all add: valid_clq_def enc_clq_def packet_split enc_cls_def length_enc)
  have m2: "grows m {Suc (nxt m)} m2" "readable m2 (Suc (nxt m)) ?p" "nxt m2 = nxt m + 2" "wf_mem m2" "no_oom m2"
    using request_mem_facts [OF m(1), of ?p 8] m(2) len by (simp_all add: m2_def readable_def)
  have rd: "qkd_close_request_from_stream L (Ptr (Suc (nxt m)) 0) m2 = Inr (X, Ptr (Suc (nxt m)) 16, m3)"
    using read_clq [OF m2(2) L, of 0] clq.dec_enc [OF X, of "[]"] len by (simp add: m3_def)
  have m3: "wf_mem m3" "no_oom m3" "nxt m3 = nxt m + 3" "grows m {Suc (nxt m)} m3" "mem.more m3 = mem.more m"
    using m2 len by (simp_all add: m3_def wf_mem_uuid_temp grows_uuid_temp)
      (simp add: uuid_temp_def m2_def)
  have F: "b < nxt m" if "b \<in> F" for b
    using m(1,3) that by (rule rel_owned)
  have "rel m3 F s"
    by (rule rel_frame [OF m(3)]) (simp_all add: m3 F grows_old [OF m3(4)])
  then have "rel (new_block False ?r m3) F s"
    by (rule rel_frame) (use F m3(3) in \<open>fastforce simp:\<close>)+
  moreover have "serve_request L (open_connect L) (get_key L) close 8 (Ptr (Suc (nxt m)) 0)
      (request_mem 8 ?p m) = Inr (of_nat (length ?r), Ptr (nxt m3) 0, new_block False ?r m3)"
    using cls_w.make_packet_exact [OF m3(1,2), of "\<lparr>cls_status = 0\<rparr>" "\<lparr>cls_status = 0\<rparr>" 9] rd
    by (simp add: serve_request_def qkd_close_struct_def cl_impl m2_def cls_at_def valid_any_def
        packet_split enc_cls_def length_enc)
  moreover have "grows m (insert (Suc (nxt m)) (insert (nxt m3) {})) (new_block False ?r m3)"
    using grows_new_block [OF m3(4,1)] by (simp add: insert_commute)
  moreover have "nxt m3 \<notin> F"
    using F m3(3) by fastforce
  ultimately show ?thesis
    using m3(1-3) len(3)
    by (intro exI [of _ "new_block False ?r m3"] exI [of _ "nxt m3"]) (simp add: cl_end_mem_def m3_def m2_def)
qed

text \<open>The whole transaction: receive, serve, release, send.\<close>

lemma handled:
  assumes rcv: "tls_records T recs" "recs c = packet service p # xs" "no_oom m" "wf_mem m"
      "8 \<le> stack_size m" "length p \<le> stack_size m" "p \<noteq> []" "length p < 2 ^ 31"
      "service \<noteq> service_code QKD_SERVICE_CLOSE_SERVER"
    and serve: "serve_request L (open_connect L) (get_key L) close service (Ptr (Suc (nxt m)) 0)
        (request_mem service p m) = Inr (of_nat (length r), Ptr b 0, m')"
    and m': "grows m (insert (Suc (nxt m)) (insert b B)) m'" "blocks m' b = Some r"
      "Suc (nxt m) < b" "Suc (nxt m) \<notin> B" "b \<notin> B"
    and rel: "rel m F s" "rel m' (F \<union> G) s'" "G \<subseteq> B" "b \<notin> F" "wf_mem m'" "no_oom m'"
    and r: "r \<noteq> []" "length r < 2 ^ 31"
  shows "\<exists>c2 m''. recs c2 = xs \<and> qkd_servlet T L (open_connect L) (get_key L) close c m =
      Inr (SERVER_LISTENING, snd (SSL_write T c2 (int (length r)) r), m'') \<and>
    rel m'' (F \<union> G) s' \<and> wf_mem m'' \<and> no_oom m'' \<and> grows m B m'' \<and> m'' = sent_mem b m m'"
proof -
  let ?m = "kill_block b (kill_block (Suc (nxt m)) m')"
  have "b \<noteq> Suc (nxt m)"
    using m'(3) by simp
  note t = servlet_transaction [OF rcv serve m'(1,2) this m'(4,5) r]
  have "Suc (nxt m) \<notin> F"
    using rel_owned [OF rcv(4) rel(1)] by fastforce
  then have "rel ?m (F \<union> G) s'"
    using rel(3,4) m'(4,5) by (intro rel_frame [OF rel(2)]) auto
  with t rel(5,6) show ?thesis
    unfolding sent_mem_def by (metis fields_kill_block(8) wf_mem_kill_block)
qed

lemma handle_open_connect:
  assumes rcv: "tls_records T recs" "recs c = packet 2 (enc_ocq X) # xs" "8 \<le> stack_size m"
      "length (enc_ocq X) \<le> stack_size m"
    and L: "uuid_laws L" and m: "wf_mem m" "no_oom m" "rel m F s"
    and X: "valid_ocq X" "fits_ocq X" "length (enc_ocq X) < 2 ^ 31"
    and step: "oc_step L (ocq_source X) (ocq_destination X) (ocq_qos X) (ocq_key_stream_id X) s = (k, s')"
  shows "\<exists>c2 m' A. recs c2 = xs \<and> qkd_servlet T L (open_connect L) (get_key L) close c m =
      Inr (SERVER_LISTENING, snd (SSL_write T c2 (int (length (packet 3 (enc_ocs (oc_answer X k)))))
             (packet 3 (enc_ocs (oc_answer X k)))), m') \<and>
    rel m' (F \<union> A) s' \<and> wf_mem m' \<and> no_oom m' \<and> grows m A m' \<and> length k = 16 \<and>
    (\<exists>m5. oc_called (open_connect L) X k m m5 \<and>
       m' = sent_mem (nxt m5) m (oc_end_mem (packet 3 (enc_ocs (oc_answer X k))) m m5))"
proof -
  let ?r = "packet 3 (enc_ocs (oc_answer X k))"
  obtain m' A b m5 where s: "serve_request L (open_connect L) (get_key L) close 2 (Ptr (Suc (nxt m)) 0)
        (request_mem 2 (enc_ocq X) m) = Inr (of_nat (length ?r), Ptr b 0, m')"
      "grows m (insert (Suc (nxt m)) (insert b A)) m'" "blocks m' b = Some ?r" "length k = 16"
      "Suc (nxt m) < b" "Suc (nxt m) \<notin> A" "b \<notin> A" "b \<notin> F" "wf_mem m'" "no_oom m'" "rel m' (F \<union> A) s'"
      "oc_called (open_connect L) X k m m5" "b = nxt m5" "m' = oc_end_mem ?r m m5"
    using serve_open_connect [OF L m X step] by blast
  have "?r \<noteq> []" "length ?r < 2 ^ 31" "enc_ocq X \<noteq> []"
    using X(2) s(4) by (auto simp: packet_def enc_header_def enc_ocs_def oc_answer_def length_enc
        fits_ocq_def fits_mime_def enc_ocq_def enc_str_def)
  with handled [OF rcv(1,2) m(2,1) rcv(3,4) _ X(3) _ s(1,2,3,5,6,7) m(3) s(11) order.refl s(8,9,10)]
  obtain c2 where "recs c2 = xs" "qkd_servlet T L (open_connect L) (get_key L) close c m =
      Inr (SERVER_LISTENING, snd (SSL_write T c2 (int (length ?r)) ?r), sent_mem b m m')"
      "rel (sent_mem b m m') (F \<union> A) s'" "wf_mem (sent_mem b m m')" "no_oom (sent_mem b m m')"
      "grows m A (sent_mem b m m')"
    by auto
  then show ?thesis
    using s(4,12) unfolding s(13,14) by blast
qed

lemma handle_get_key:
  assumes rcv: "tls_records T recs" "recs c = packet 4 (enc_gkq X) # xs" "8 \<le> stack_size m"
      "length (enc_gkq X) \<le> stack_size m"
    and L: "uuid_laws L" and m: "wf_mem m" "no_oom m" "rel m F s"
    and X: "valid_gkq X" "length (enc_gkq X) < 2 ^ 31"
    and step: "gk_step L (gkq_key_stream_id X) (gkq_index X) (gkq_metadata X) s = Some (key, info, s')"
    and r: "length (packet 5 (enc_gks (gk_answer 0 (gkq_index X) key info))) < 2 ^ 31"
  shows "\<exists>c2 m'. recs c2 = xs \<and> qkd_servlet T L (open_connect L) (get_key L) close c m =
      Inr (SERVER_LISTENING, snd (SSL_write T c2
             (int (length (packet 5 (enc_gks (gk_answer 0 (gkq_index X) key info)))))
             (packet 5 (enc_gks (gk_answer 0 (gkq_index X) key info)))), m') \<and>
    rel m' F s' \<and> wf_mem m' \<and> no_oom m' \<and> grows m {nxt m + 3} m' \<and>
    (\<exists>m4. gk_called (get_key L) X key info m m4 \<and> nxt m + 5 < nxt m4 \<and>
       blocks m4 (nxt m + 4) = Some key \<and> blocks m4 (nxt m + 5) = Some info \<and>
       m' = sent_mem (nxt m4) m (gk_end_mem (packet 5 (enc_gks (gk_answer 0 (gkq_index X) key info))) m m4))"
proof -
  let ?r = "packet 5 (enc_gks (gk_answer 0 (gkq_index X) key info))"
  obtain m' b m4 where s: "serve_request L (open_connect L) (get_key L) close 4 (Ptr (Suc (nxt m)) 0)
        (request_mem 4 (enc_gkq X) m) = Inr (of_nat (length ?r), Ptr b 0, m')"
      "grows m (insert (Suc (nxt m)) (insert b {nxt m + 3})) m'" "blocks m' b = Some ?r"
      "nxt m + 3 < b" "b \<notin> F" "wf_mem m'" "no_oom m'" "rel m' (F \<union> {}) s'"
      "gk_called (get_key L) X key info m m4" "nxt m + 5 < nxt m4"
      "blocks m4 (nxt m + 4) = Some key" "blocks m4 (nxt m + 5) = Some info" "b = nxt m4" "m' = gk_end_mem ?r m m4"
    using serve_get_key [OF L m X step r] by auto
  have "?r \<noteq> []" "enc_gkq X \<noteq> []" "Suc (nxt m) < b" "Suc (nxt m) \<notin> {nxt m + 3}" "b \<notin> {nxt m + 3}"
    using X(1) s(4) by (auto simp: packet_def enc_header_def enc_gkq_def valid_gkq_def)
  with handled [OF rcv(1,2) m(2,1) rcv(3,4) _ X(2) _ s(1-3) _ _ _ m(3) s(8) empty_subsetI s(5-7) _ r]
  obtain c2 where "recs c2 = xs" "qkd_servlet T L (open_connect L) (get_key L) close c m =
      Inr (SERVER_LISTENING, snd (SSL_write T c2 (int (length ?r)) ?r), sent_mem b m m')"
      "rel (sent_mem b m m') F s'" "wf_mem (sent_mem b m m')" "no_oom (sent_mem b m m')"
      "grows m {nxt m + 3} (sent_mem b m m')"
    by auto
  then show ?thesis
    using s(9-12) unfolding s(13,14) by blast
qed

lemma handle_get_key_refused:
  assumes rcv: "tls_records T recs" "recs c = packet 4 (enc_gkq X) # xs" "8 \<le> stack_size m"
      "length (enc_gkq X) \<le> stack_size m"
    and L: "uuid_laws L" and m: "wf_mem m" "no_oom m" "rel m F s"
    and X: "valid_gkq X" "length (enc_gkq X) < 2 ^ 31"
    and step: "gk_unknown (gkq_key_stream_id X) s"
    and r: "length (packet 5 (enc_gks (gk_answer 3 (gkq_index X) [] (gkq_metadata X)))) < 2 ^ 31"
  shows "\<exists>c2 m'. recs c2 = xs \<and> qkd_servlet T L (open_connect L) (get_key L) close c m =
      Inr (SERVER_LISTENING, snd (SSL_write T c2
             (int (length (packet 5 (enc_gks (gk_answer 3 (gkq_index X) [] (gkq_metadata X))))))
             (packet 5 (enc_gks (gk_answer 3 (gkq_index X) [] (gkq_metadata X))))), m') \<and>
    rel m' F s \<and> wf_mem m' \<and> no_oom m' \<and> grows m {} m' \<and> m' = sent_mem (nxt m + 4) m
      (gk_refused_mem X (packet 5 (enc_gks (gk_answer 3 (gkq_index X) [] (gkq_metadata X)))) m)"
proof -
  let ?r = "packet 5 (enc_gks (gk_answer 3 (gkq_index X) [] (gkq_metadata X)))"
  obtain m' b where s: "serve_request L (open_connect L) (get_key L) close 4 (Ptr (Suc (nxt m)) 0)
        (request_mem 4 (enc_gkq X) m) = Inr (of_nat (length ?r), Ptr b 0, m')"
      "grows m (insert (Suc (nxt m)) (insert b {})) m'" "blocks m' b = Some ?r"
      "nxt m + 3 < b" "b \<notin> F" "wf_mem m'" "no_oom m'" "rel m' (F \<union> {}) s"
      "b = nxt m + 4" "m' = gk_refused_mem X ?r m"
    using serve_get_key_refused [OF L m X step r] by auto
  have "?r \<noteq> []" "enc_gkq X \<noteq> []" "Suc (nxt m) < b"
    using X(1) s(4) by (auto simp: packet_def enc_header_def enc_gkq_def valid_gkq_def)
  with handled [OF rcv(1,2) m(2,1) rcv(3,4) _ X(2) _ s(1-3) _ _ _ m(3) s(8) empty_subsetI s(5-7) _ r]
  show ?thesis
    unfolding s(9,10) by auto
qed

lemma handle_close:
  assumes rcv: "tls_records T recs" "recs c = packet 8 (enc_clq X) # xs" "16 \<le> stack_size m"
    and L: "uuid_laws L" and m: "wf_mem m" "no_oom m" "rel m F s" and X: "valid_clq X"
  shows "\<exists>c2 m'. recs c2 = xs \<and> qkd_servlet T L (open_connect L) (get_key L) close c m =
      Inr (SERVER_LISTENING, snd (SSL_write T c2 12 (packet 9 (enc_cls \<lparr>cls_status = 0\<rparr>))), m') \<and>
    rel m' F s \<and> wf_mem m' \<and> no_oom m' \<and> grows m {} m' \<and>
    m' = sent_mem (nxt m + 3) m (cl_end_mem X (packet 9 (enc_cls \<lparr>cls_status = 0\<rparr>)) m)"
proof -
  let ?r = "packet 9 (enc_cls \<lparr>cls_status = 0\<rparr>)"
  obtain m' b where s: "serve_request L (open_connect L) (get_key L) close 8 (Ptr (Suc (nxt m)) 0)
        (request_mem 8 (enc_clq X) m) = Inr (of_nat (length ?r), Ptr b 0, m')"
      "grows m (insert (Suc (nxt m)) (insert b {})) m'" "blocks m' b = Some ?r"
      "Suc (nxt m) < b" "b \<notin> F" "wf_mem m'" "no_oom m'" "rel m' (F \<union> {}) s"
      "b = nxt m + 3" "m' = cl_end_mem X ?r m"
    using serve_close [OF L m X] by auto
  have len: "length ?r = 12" "length (enc_clq X) = 16"
    using X by (simp_all add: packet_split enc_cls_def length_enc valid_clq_def enc_clq_def)
  have "?r \<noteq> []" "enc_clq X \<noteq> []" "8 \<le> stack_size m" "length (enc_clq X) \<le> stack_size m"
      "length (enc_clq X) < 2 ^ 31" "length ?r < 2 ^ 31"
    using len rcv(3) by (auto simp del: length_greater_0_conv length_0_conv)
  with handled [OF rcv(1,2) m(2,1) _ _ _ _ _ s(1-3) s(4) _ _ m(3) s(8) empty_subsetI s(5-7)] len(1)
  show ?thesis
    unfolding s(9,10) by auto
qed

end

section \<open>The other two kinds of request\<close>

lemma servlet_close_server:
  assumes T: "tls_records T recs" and c: "recs c = packet (service_code QKD_SERVICE_CLOSE_SERVER) p # xs"
    and m: "no_oom m" "wf_mem m" "8 \<le> stack_size m"
  shows "\<exists>c' m'. qkd_servlet T L open_connect get_key close c m = Inr (SERVER_FINISHED, c', m') \<and>
    wf_mem m' \<and> grows m {} m' \<and> mem.more m' = mem.more m"
proof -
  let ?h = "new_block False (take 8 (packet (service_code QKD_SERVICE_CLOSE_SERVER) p)) m"
  have "free (Ptr (nxt m) 0) ?h = Inr (kill_block (nxt m) ?h)"
    by (simp add: free_live)
  moreover have "grows m ({nxt m} - {nxt m}) (kill_block (nxt m) ?h)"
    using grows_new_block [OF grows_refl [OF m(2)] m(2)] by (rule grows_kill_block) simp
  moreover have "wf_mem ?h"
    using m(2) by (simp add: packet_split length_enc)
  ultimately show ?thesis
    using recv_any_header [OF T c m] by (fastforce simp: qkd_servlet_def)
qed

text \<open>
  A service the handler does not know: no response is built, but eight bytes are sent from the
  null pointer.
\<close>

lemma send_from_NULL: "socket_ssl_send T \<lparr>bytes_size = 8, bytes_data = NULL\<rparr> c m = Inl NullDeref"
  by (simp add: socket_ssl_send_def load_def)

lemma servlet_unknown_service:
  assumes rcv: "tls_records T recs" "recs c = packet service p # xs" "no_oom m" "wf_mem m"
      "8 \<le> stack_size m" "length p \<le> stack_size m" "p \<noteq> []" "length p < 2 ^ 31"
    and s: "service \<notin> {2, 4, 8, 255}"
  shows "qkd_servlet T L open_connect get_key close c m = Inl NullDeref"
proof -
  have "free (Ptr (Suc (nxt m)) 0) (request_mem service p m) =
      Inr (kill_block (Suc (nxt m)) (request_mem service p m))"
    by (simp add: request_mem_def free_live)
  then show ?thesis
    using servlet_receives [OF rcv, of L open_connect get_key close] s
    by (auto simp: serve_request_def send_from_NULL)
qed

end
