(* ===== verification/Format.thy ===== *)
theory Format
  imports Prelude
begin

text \<open>
  The conversions of the \<open>printf\<close> family that the sources use, as functions from values to
  characters: \<open>%u\<close>, \<open>%d\<close>, \<open>%02X\<close> and \<open>%f\<close>. A \<open>float\<close> is given exactly, as
  an integer over a power of two, which every finite float is; \<open>%f\<close> rounds it to six decimals,
  ties to even.
\<close>

record c_float =
  f_num :: int
  f_scale :: nat

definition str_bytes :: "string \<Rightarrow> bytes" where
  "str_bytes s = map of_char s"

definition digit_char :: "nat \<Rightarrow> char" where
  "digit_char d = char_of (48 + d)"

fun fmt_nat :: "nat \<Rightarrow> string" where
  "fmt_nat n = (if n < 10 then [digit_char n] else fmt_nat (n div 10) @ [digit_char (n mod 10)])"

definition fmt_d :: "int \<Rightarrow> string" where
  "fmt_d i = (if i < 0 then CHR ''-'' # fmt_nat (nat (- i)) else fmt_nat (nat i))"

definition fmt_u :: "u32 \<Rightarrow> string" where
  "fmt_u w = fmt_nat (unat w)"

definition hex_digit :: "nat \<Rightarrow> char" where
  "hex_digit d = (if d < 10 then char_of (48 + d) else char_of (55 + d))"

definition fmt_02X :: "u8 \<Rightarrow> string" where
  "fmt_02X b = [hex_digit (unat b div 16), hex_digit (unat b mod 16)]"

definition round_half_even :: "nat \<Rightarrow> nat \<Rightarrow> nat" where
  "round_half_even a b =
     (let q = a div b; r = a mod b
      in if 2 * r < b then q else if b < 2 * r then q + 1 else if even q then q else q + 1)"

definition pad6 :: "nat \<Rightarrow> string" where
  "pad6 n = [digit_char (n div 100000 mod 10), digit_char (n div 10000 mod 10),
     digit_char (n div 1000 mod 10), digit_char (n div 100 mod 10), digit_char (n div 10 mod 10),
     digit_char (n mod 10)]"

definition fmt_f :: "c_float \<Rightarrow> string" where
  "fmt_f x =
     (let n = round_half_even (nat \<bar>f_num x\<bar> * 10 ^ 6) (2 ^ f_scale x)
      in (if f_num x < 0 then ''-'' else '''') @ fmt_nat (n div 10 ^ 6) @ ''.'' @ pad6 (n mod 10 ^ 6))"

section \<open>Decimal numerals\<close>

declare fmt_nat.simps [simp del]

lemma fmt_nat_small: "n < 10 \<Longrightarrow> fmt_nat n = [digit_char n]"
  by (subst fmt_nat.simps) simp

lemma fmt_nat_large: "\<not> n < 10 \<Longrightarrow> fmt_nat n = fmt_nat (n div 10) @ [digit_char (n mod 10)]"
  by (subst fmt_nat.simps) simp

lemma fmt_nat_not_Nil: "fmt_nat n \<noteq> []"
  by (subst fmt_nat.simps) simp

fun digits_value :: "string \<Rightarrow> nat" where
  "digits_value s = foldl (\<lambda>v c. 10 * v + (of_char c - 48)) 0 s"

lemma of_char_digit: "d < 10 \<Longrightarrow> of_char (digit_char d) = 48 + d"
  by (simp add: digit_char_def)

lemma digits_value_fmt_nat: "digits_value (fmt_nat n) = n"
proof (induction n rule: fmt_nat.induct)
  case (1 n)
  then show ?case
    by (cases "n < 10") (simp_all add: fmt_nat_small fmt_nat_large of_char_digit)
qed

lemma fmt_nat_inject: "fmt_nat m = fmt_nat n \<longleftrightarrow> m = n"
  by (metis digits_value_fmt_nat)

lemma length_fmt_nat: "0 < k \<Longrightarrow> length (fmt_nat n) \<le> k \<longleftrightarrow> n < 10 ^ k"
proof (induction n arbitrary: k rule: fmt_nat.induct)
  case (1 n)
  show ?case
  proof (cases "n < 10")
    case True
    then have "n < 10 ^ k"
      using 1(2) by (meson le_less_trans less_le_trans not_less one_le_numeral power_increasing self_le_power)
    with True 1(2) show ?thesis by (simp add: fmt_nat_small)
  next
    case False
    show ?thesis
    proof (cases "k = 1")
      case True
      with False show ?thesis
        by (simp add: fmt_nat_large fmt_nat_not_Nil)
    next
      case k: False
      then obtain j where j: "k = Suc j" "0 < j"
        using 1(2) by (cases k) auto
      have "n div 10 < 10 ^ j \<longleftrightarrow> n < 10 ^ k"
        by (simp add: j(1) div_less_iff_less_mult mult.commute)
      with 1(1) [OF False j(2)] False j show ?thesis
        by (simp add: fmt_nat_large)
    qed
  qed
qed

lemma length_pad6 [simp]: "length (pad6 n) = 6"
  by (simp add: pad6_def)

section \<open>How long the output can be\<close>

text \<open>Every finite \<open>float\<close> is less than \<open>2^128\<close> in magnitude.\<close>

definition finite_float :: "c_float \<Rightarrow> bool" where
  "finite_float x \<longleftrightarrow> nat \<bar>f_num x\<bar> < 2 ^ 128 * 2 ^ f_scale x"

lemma round_half_even_le: "round_half_even a b \<le> a div b + 1"
  by (simp add: round_half_even_def Let_def)

lemma length_fmt_f:
  assumes "finite_float x"
  shows "length (fmt_f x) \<le> 47"
proof -
  let ?b = "2 ^ f_scale x :: nat" and ?a = "nat \<bar>f_num x\<bar> * 10 ^ 6"
  let ?n = "round_half_even ?a ?b"
  have "?a div ?b < 2 ^ 128 * 10 ^ 6"
    using assms by (simp add: finite_float_def div_less_iff_less_mult)
  then have "?n \<le> 2 ^ 128 * 10 ^ 6"
    using round_half_even_le [of ?a ?b] by linarith
  then have "?n div 10 ^ 6 \<le> 2 ^ 128"
    using div_le_mono by fastforce
  then have "?n div 10 ^ 6 < 10 ^ 39"
    by (rule le_less_trans) simp
  then have "length (fmt_nat (?n div 10 ^ 6)) \<le> 39"
    by (subst length_fmt_nat) simp_all
  then show ?thesis
    by (cases "f_num x < 0") (simp_all add: fmt_f_def Let_def)
qed

lemma length_fmt_d: "length (fmt_d (sint (w :: 32 word))) \<le> 11"
proof -
  have "sint w < 2 ^ 31" "- (2 ^ 31) \<le> sint w"
    using sint_lt [of w] sint_ge [of w] by simp_all
  then have "nat (sint w) < 10 ^ 10" "nat (- sint w) < 10 ^ 10"
    by simp_all
  then have "length (fmt_nat (nat (sint w))) \<le> 10" "length (fmt_nat (nat (- sint w))) \<le> 10"
    by (subst length_fmt_nat; simp)+
  then show ?thesis
    by (simp add: fmt_d_def)
qed

end
