(* ===== verification/ServerExample.thy ===== *)
theory ServerExample
  imports Interfaces Format
begin

text \<open>
  The key management server of \<open>server_example.c\<close>: the registry of key streams, a linked list
  of \<open>qkd_ksid_info_t\<close> nodes, the generation of key material, and the implementations of the
  three calls of the interface. The state of the process is a memory extended with the nodes
  (blocks of their own type, numbered by the same allocator), the context structure, the state of
  \<open>rand\<close>, the clock, and the number of identifiers generated so far.

  \<open>rand\<close> is a parameter: \<open>R s i\<close> is the \<open>i\<close>-th value after \<open>srand(s)\<close>, which is all
  the C standard says of it. The loops that follow the list take as fuel one more than the highest
  block number, enough for every list without a cycle.
\<close>

section \<open>State\<close>

record qkd_ksid_info =
  ki_key_stream_id :: bytes
  ki_qos :: "ptr qkd_qos"
  ki_source :: ptr
  ki_destination :: ptr
  ki_current_index :: "32 word"
  ki_next :: "nat option"

record server_context_data_example =
  key_rate :: "32 word"
  qber :: c_float
  example_db_name :: string
  node_uuid :: bytes
  ksid_info_linked_list :: "nat option"

record server = mem +
  nodes :: "nat \<Rightarrow> qkd_ksid_info option"
  config :: server_context_data_example
  rng :: "u32 \<times> nat"
  now :: u32
  uuid_draws :: nat

definition srand :: "u32 \<Rightarrow> server \<Rightarrow> server" where
  "srand seed w = w\<lparr>rng := (seed, 0)\<rparr>"

definition rand :: "(u32 \<Rightarrow> nat \<Rightarrow> nat) \<Rightarrow> server \<Rightarrow> nat \<times> server" where
  "rand R w = (case rng w of (seed, i) \<Rightarrow> (R seed i, w\<lparr>rng := (seed, Suc i)\<rparr>))"

section \<open>Key material\<close>

fun hash_loop :: "u32 \<Rightarrow> bytes \<Rightarrow> u32 res" where
  "hash_loop hash [] = Inl OutOfBounds"
| "hash_loop hash (c # str) =
     (if c = 0 then Inr hash else hash_loop (push_bit 5 hash + hash + ucast c) str)"

definition simple_hash :: "ptr \<Rightarrow> 'z mem_scheme \<Rightarrow> u32 res" where
  "simple_hash str m = bind_res (tail_at str m) (hash_loop 0)"

fun fill_key :: "(u32 \<Rightarrow> nat \<Rightarrow> nat) \<Rightarrow> ptr \<Rightarrow> nat \<Rightarrow> nat \<Rightarrow> server \<Rightarrow> server res" where
  "fill_key R p byte 0 w = Inr w"
| "fill_key R p byte (Suc k) w =
     (case rand R w of (r, w) \<Rightarrow>
        bind_res (store (padd p byte) [of_nat (r mod 256)] w) (\<lambda>w. fill_key R p (Suc byte) k w))"

definition gen_pseudorandom_key ::
  "(u32 \<Rightarrow> nat \<Rightarrow> nat) \<Rightarrow> ptr \<Rightarrow> ptr \<Rightarrow> size_t \<Rightarrow> u32 \<Rightarrow> server \<Rightarrow> (qkd_bytes \<times> server) res" where
  "gen_pseudorandom_key R src dst key_size index w =
     bind_res (simple_hash src w) (\<lambda>h1.
     bind_res (simple_hash dst w) (\<lambda>h2.
     let seed = ((0 XOR h1) XOR h2) XOR index; (p, w) = malloc key_size w in
     if p = NULL then Inr (\<lparr>bytes_size = 0, bytes_data = NULL\<rparr>, w)
     else
       bind_res (fill_key R p 0 (unat key_size) (srand seed w)) (\<lambda>w.
       Inr (\<lparr>bytes_size = ucast key_size, bytes_data = p\<rparr>, w))))"

fun mask_key :: "ptr \<Rightarrow> nat \<Rightarrow> nat \<Rightarrow> server \<Rightarrow> server res" where
  "mask_key p i 0 w = Inr w"
| "mask_key p i (Suc k) w =
     bind_res (load (padd p i) 1 w) (\<lambda>bs.
     bind_res (store (padd p i)
         [if i mod 2 = 0 then hd bs OR 0xAA else drop_bit 1 (hd bs) AND 0x55] w) (\<lambda>w.
     mask_key p (Suc i) k w))"

definition gen_oblivious_pseudorandom_key ::
  "(u32 \<Rightarrow> nat \<Rightarrow> nat) \<Rightarrow> ptr \<Rightarrow> ptr \<Rightarrow> size_t \<Rightarrow> u32 \<Rightarrow> u8 \<Rightarrow> server \<Rightarrow> (qkd_bytes \<times> server) res" where
  "gen_oblivious_pseudorandom_key R src dst key_size index oblivious_key_type w =
     bind_res (simple_hash src w) (\<lambda>h1.
     bind_res (simple_hash dst w) (\<lambda>h2.
     let seed = ((0 XOR h1) XOR h2) XOR index; (p, w) = malloc key_size w in
     if p = NULL then Inr (\<lparr>bytes_size = 0, bytes_data = NULL\<rparr>, w)
     else
       bind_res (fill_key R p 0 (unat key_size) (srand seed w)) (\<lambda>w.
       bind_res (if oblivious_key_type = 2 then mask_key p 0 (unat key_size) w else Inr w) (\<lambda>w.
       Inr (\<lparr>bytes_size = ucast key_size, bytes_data = p\<rparr>, w)))))"

section \<open>OPEN\_CONNECT\<close>

text \<open>
  The search by source and destination. It stops on a matching node, or on the last node: the loop
  tests for the end of the list before it advances.
\<close>

fun oc_search :: "nat \<Rightarrow> nat \<Rightarrow> ptr \<Rightarrow> ptr \<Rightarrow> server \<Rightarrow> (bool \<times> nat) res" where
  "oc_search 0 i src dst w = Inl Diverges"
| "oc_search (Suc fuel) i src dst w =
     (case nodes w i of
        None \<Rightarrow> Inl DeadBlock
      | Some n \<Rightarrow>
          bind_res (strcmp (ki_source n) src w) (\<lambda>r1.
          bind_res (if r1 = 0 then strcmp (ki_destination n) dst w else Inr 1) (\<lambda>r2.
          if r1 = 0 \<and> r2 = 0 then Inr (True, i)
          else case ki_next n of
                 None \<Rightarrow> Inr (False, i)
               | Some j \<Rightarrow> oc_search fuel j src dst w)))"

fun last_node :: "nat \<Rightarrow> nat \<Rightarrow> server \<Rightarrow> nat res" where
  "last_node 0 i w = Inl Diverges"
| "last_node (Suc fuel) i w =
     (case nodes w i of
        None \<Rightarrow> Inl DeadBlock
      | Some n \<Rightarrow> (case ki_next n of None \<Rightarrow> Inr i | Some j \<Rightarrow> last_node fuel j w))"

definition zero_ksid_info :: qkd_ksid_info where
  "zero_ksid_info =
     \<lparr>ki_key_stream_id = nil_uuid, ki_qos = zero_qos, ki_source = NULL, ki_destination = NULL,
      ki_current_index = 0, ki_next = None\<rparr>"

text \<open>\<open>calloc(1, sizeof(qkd_ksid_info_t))\<close>: 88 bytes.\<close>

definition calloc_ksid_info :: "server \<Rightarrow> nat option \<times> server" where
  "calloc_ksid_info w =
     (if alloc_ok w (nxt w) 88
      then (Some (nxt w), w\<lparr>nodes := (nodes w)(nxt w \<mapsto> zero_ksid_info), nxt := Suc (nxt w)\<rparr>)
      else (None, w\<lparr>nxt := Suc (nxt w)\<rparr>))"

definition set_node :: "nat \<Rightarrow> qkd_ksid_info \<Rightarrow> server \<Rightarrow> server" where
  "set_node i n w = w\<lparr>nodes := (nodes w)(i \<mapsto> n)\<rparr>"

definition link_ksid_info :: "nat option \<Rightarrow> nat \<Rightarrow> server \<Rightarrow> server res" where
  "link_ksid_info ksid_info_list new w =
     (case ksid_info_list of
        None \<Rightarrow> Inr (w\<lparr>config := (config w)\<lparr>ksid_info_linked_list := Some new\<rparr>\<rparr>)
      | Some i \<Rightarrow>
          bind_res (last_node (Suc (nxt w)) i w) (\<lambda>last.
          case nodes w last of
            None \<Rightarrow> Inl DeadBlock
          | Some n \<Rightarrow> Inr (set_node last (n\<lparr>ki_next := Some new\<rparr>) w)))"

definition register_ksid ::
  "libuuid \<Rightarrow> nat option \<Rightarrow> ptr \<Rightarrow> ptr \<Rightarrow> ptr qkd_qos \<Rightarrow> server \<Rightarrow> (bytes \<times> server) res" where
  "register_ksid L ksid_info_list src dst q w =
     (let ksid = uuid_generate_random L (uuid_draws w);
          w = w\<lparr>uuid_draws := Suc (uuid_draws w)\<rparr>;
          (new, w) = calloc_ksid_info w in
     case new of
       None \<Rightarrow> Inl NullDeref
     | Some i \<Rightarrow>
         bind_res (qkd_copy_qos (ki_qos zero_ksid_info) q w) (\<lambda>(q', w).
         bind_res (qkd_copy_uri (ki_source zero_ksid_info) src w) (\<lambda>(s', w).
         bind_res (qkd_copy_uri (ki_destination zero_ksid_info) dst w) (\<lambda>(d', w).
         let n = \<lparr>ki_key_stream_id = uuid_copy L ksid, ki_qos = q', ki_source = s',
                  ki_destination = d', ki_current_index = 0, ki_next = None\<rparr> in
         bind_res (link_ksid_info ksid_info_list i (set_node i n w)) (\<lambda>w.
         Inr (ksid, w))))))"

definition qkd_open_connect :: "libuuid \<Rightarrow> server open_connect_impl" where
  "qkd_open_connect L src dst q key_stream_id status w =
     (let status = status_code qkd_status_code_successful;
          w = srand (now w) w;
          ksid_info_list = ksid_info_linked_list (config w) in
     if uuid_compare L key_stream_id nil_uuid = 0 then
       (case ksid_info_list of
          None \<Rightarrow>
            bind_res (register_ksid L None src dst q w) (\<lambda>(ksid, w). Inr (q, ksid, status, w))
        | Some head \<Rightarrow>
            bind_res (oc_search (Suc (nxt w)) head src dst w) (\<lambda>(found, i).
            if found then
              (case nodes w i of
                 None \<Rightarrow> Inl DeadBlock
               | Some n \<Rightarrow> Inr (q, uuid_copy L (ki_key_stream_id n), status, w))
            else
              bind_res (register_ksid L (Some i) src dst q w) (\<lambda>(ksid, w). Inr (q, ksid, status, w))))
     else Inr (q, key_stream_id, status, w))"

section \<open>GET\_KEY\<close>

fun gk_search :: "libuuid \<Rightarrow> nat \<Rightarrow> nat option \<Rightarrow> bytes \<Rightarrow> server \<Rightarrow> nat option res" where
  "gk_search L 0 p ksid w = Inl Diverges"
| "gk_search L (Suc fuel) p ksid w =
     (case p of
        None \<Rightarrow> Inr None
      | Some i \<Rightarrow>
          (case nodes w i of
             None \<Rightarrow> Inl DeadBlock
           | Some n \<Rightarrow>
               if uuid_compare L ksid (ki_key_stream_id n) = 0 then Inr (Some i)
               else gk_search L fuel (ki_next n) ksid w))"

definition device_info :: "server_context_data_example \<Rightarrow> bytes" where
  "device_info cfg =
     str_bytes (''{\"device_info\": [\"key_rate\": '' @ fmt_d (sint (key_rate cfg)) @
       '', \"qber\": '' @ fmt_f (qber cfg) @ '']}'')"

definition gen_requested_key ::
  "(u32 \<Rightarrow> nat \<Rightarrow> nat) \<Rightarrow> qkd_ksid_info \<Rightarrow> u32 \<Rightarrow> ptr \<Rightarrow> server \<Rightarrow> (qkd_bytes \<times> server) res" where
  "gen_requested_key R n index meta_value w =
     (let key_size = ucast (key_chunk_size (ki_qos n)) in
     bind_res (load meta_value 1 w) (\<lambda>ty.
     if hd ty = type_code qkd_key_type_symmetric then
       gen_pseudorandom_key R (ki_source n) (ki_destination n) key_size index w
     else
       bind_res (load (padd meta_value 1) 1 w) (\<lambda>role.
       if hd role = 16 then
         gen_oblivious_pseudorandom_key R (ki_source n) (ki_destination n) key_size index 1 w
       else
         gen_oblivious_pseudorandom_key R (ki_source n) (ki_destination n) key_size index 2 w)))"

definition qkd_get_key :: "(u32 \<Rightarrow> nat \<Rightarrow> nat) \<Rightarrow> libuuid \<Rightarrow> server get_key_impl" where
  "qkd_get_key R L key_stream_id index key_buffer metadata status w =
     bind_res (gk_search L (Suc (nxt w)) (ksid_info_linked_list (config w)) key_stream_id w) (\<lambda>found.
     case found of
       None \<Rightarrow> Inr (index, key_buffer, metadata, status_code qkd_status_code_gk_peer_not_connected, w)
     | Some i \<Rightarrow>
         (case nodes w i of
            None \<Rightarrow> Inl DeadBlock
          | Some n \<Rightarrow>
              bind_res (gen_requested_key R n index (bytes_data metadata) w) (\<lambda>(key_data, w).
              let text = device_info (config w);
                  data_size = of_nat (length text) + 1;
                  (p, w) = malloc data_size w in
              if unat SSL3_RT_MAX_PLAIN_LENGTH < length text + 1 then Inl OutOfBounds
              else bind_res (store p (text @ [0]) w) (\<lambda>w.
              if ki_current_index n = 0x7FFFFFFF then Inl SignedOverflow
              else
                Inr (index, key_data, \<lparr>bytes_size = ucast data_size, bytes_data = p\<rparr>,
                     status_code qkd_status_code_successful,
                     set_node i (n\<lparr>ki_current_index := ki_current_index n + 1\<rparr>) w)))))"

section \<open>CLOSE\<close>

definition qkd_close :: "server close_impl" where
  "qkd_close key_stream_id status w = Inr (status_code qkd_status_code_successful, w)"

section \<open>What the key material is\<close>

text \<open>
  \<open>prng_bytes R seed n\<close> are the low bytes of the first \<open>n\<close> values of \<open>rand\<close> after
  \<open>srand(seed)\<close>; \<open>stream_seed\<close> combines the two URIs and the index; \<open>oblivious_mask\<close> is
  what the receiver of an oblivious key is given of the key of the sender.
\<close>

definition str_hash :: "bytes \<Rightarrow> u32" where
  "str_hash s = foldl (\<lambda>h c. 33 * h + ucast c) 0 s"

definition stream_seed :: "bytes \<Rightarrow> bytes \<Rightarrow> u32 \<Rightarrow> u32" where
  "stream_seed src dst index = str_hash src XOR str_hash dst XOR index"

definition prng_bytes :: "(u32 \<Rightarrow> nat \<Rightarrow> nat) \<Rightarrow> u32 \<Rightarrow> nat \<Rightarrow> bytes" where
  "prng_bytes R seed n = map (\<lambda>i. of_nat (R seed i mod 256)) [0..<n]"

definition mask_byte :: "nat \<Rightarrow> u8 \<Rightarrow> u8" where
  "mask_byte i b = (if even i then b OR 0xAA else drop_bit 1 b AND 0x55)"

definition oblivious_mask :: "bytes \<Rightarrow> bytes" where
  "oblivious_mask bs = map (\<lambda>i. mask_byte i (bs ! i)) [0..<length bs]"

lemma push_bit_5_add: "push_bit 5 h + h = 33 * (h :: u32)"
  by (simp add: push_bit_eq_mult)

lemma hash_loop_fold:
  "0 \<notin> set s \<Longrightarrow> hash_loop h (s @ 0 # r) = Inr (foldl (\<lambda>h c. 33 * h + ucast c) h s)"
  by (induction s arbitrary: h) (auto simp: push_bit_5_add)

lemma simple_hash_cstr:
  assumes "cstr m p s"
  shows "simple_hash p m = Inr (str_hash s)"
proof -
  obtain r where "tail_at p m = Inr (s @ 0 # r)" "0 \<notin> set s"
    using assms by (rule tail_at_cstr)
  then show ?thesis
    by (simp add: simple_hash_def str_hash_def hash_loop_fold)
qed

lemma rng_commute [simp]:
  "put b i bs (w\<lparr>rng := r\<rparr>) = (put b i bs w)\<lparr>rng := r\<rparr>"
  "new_block a c (w\<lparr>rng := r\<rparr>) = (new_block a c w)\<lparr>rng := r\<rparr>"
  "kill_block b (w\<lparr>rng := r\<rparr>) = (kill_block b w)\<lparr>rng := r\<rparr>"
  by (simp_all add: put_def new_block_def kill_block_def)

lemma room_rng [simp]: "room (w\<lparr>rng := r\<rparr>) b i n = room w b i n"
  by (simp add: room_def)

lemma fill_key_put:
  assumes "room w b i k" "rng w = (seed, n)"
  shows "fill_key R (Ptr b 0) i k w =
    Inr ((put b i (map (\<lambda>j. of_nat (R seed j mod 256)) [n..<n + k]) w)\<lparr>rng := (seed, n + k)\<rparr>)"
  using assms
proof (induction k arbitrary: w i n)
  case 0
  then have "w\<lparr>rng := (seed, n)\<rparr> = w"
    by (cases w) simp
  then show ?case by simp
next
  case (Suc k)
  let ?x = "of_nat (R seed n mod 256) :: u8"
  let ?w = "put b i [?x] (w\<lparr>rng := (seed, Suc n)\<rparr>)"
  have r: "room w b i (length [?x])" "room w b (Suc i) k"
    using Suc.prems(1) by (auto intro: room_mono)
  then have "store (Ptr b i) [?x] (w\<lparr>rng := (seed, Suc n)\<rparr>) = Inr ?w"
    by (simp add: store_room)
  moreover have "room ?w b (Suc i) k" "rng ?w = (seed, Suc n)"
    using r by simp_all
  moreover have "map (\<lambda>j. of_nat (R seed j mod 256)) [n..<n + Suc k] =
      [?x] @ map (\<lambda>j. of_nat (R seed j mod 256) :: u8) [Suc n..<n + Suc k]"
    by (simp add: upt_rec)
  ultimately show ?case
    using Suc.IH [of ?w "Suc i" "Suc n"] Suc.prems put_put [OF r(1)]
    by (simp add: rand_def)
qed

lemma mask_key_put:
  assumes "blocks w b = Some (pre @ bs)"
  shows "mask_key (Ptr b 0) (length pre) (length bs) w =
    Inr (put b (length pre) (map (\<lambda>i. mask_byte (length pre + i) (bs ! i)) [0..<length bs]) w)"
  using assms
proof (induction bs arbitrary: w pre)
  case (Cons x bs)
  let ?y = "mask_byte (length pre) x"
  let ?w = "put b (length pre) [?y] w"
  have r: "room w b (length pre) (length [?y])"
    using Cons.prems by (simp add: room_def)
  have "load (Ptr b (length pre)) 1 w = Inr [x]"
    using Cons.prems by (simp add: load_def)
  moreover have "store (Ptr b (length pre)) [?y] w = Inr ?w"
    using r by (rule store_room)
  moreover have "blocks ?w b = Some ((pre @ [?y]) @ bs)"
    using Cons.prems by (simp add: write_at_def)
  moreover have "map (\<lambda>i. mask_byte (length pre + i) ((x # bs) ! i)) [0..<length (x # bs)] =
      [?y] @ map (\<lambda>i. mask_byte (length (pre @ [?y]) + i) (bs ! i)) [0..<length bs]"
    by (simp add: upt_conv_Cons map_Suc_upt [symmetric] o_def del: upt_Suc)
  moreover have "(if length pre mod 2 = 0 then hd [x] OR 0xAA else drop_bit 1 (hd [x]) AND 0x55) = ?y"
    by (simp add: mask_byte_def even_iff_mod_2_eq_zero)
  ultimately show ?case
    using Cons.IH [of ?w "pre @ [?y]"] put_put [OF r]
    by (simp del: upt_Suc split del: if_split)
qed simp

lemma length_prng_bytes [simp]: "length (prng_bytes R seed n) = n"
  by (simp add: prng_bytes_def)

lemma length_oblivious_mask [simp]: "length (oblivious_mask bs) = length bs"
  by (simp add: oblivious_mask_def)

lemma fill_key_new_block:
  "fill_key R (Ptr (nxt w) 0) 0 n (srand seed (new_block False (junk_bytes n w) w)) =
     Inr ((new_block False (prng_bytes R seed n) w)\<lparr>rng := (seed, n)\<rparr>)"
  by (subst fill_key_put [where seed = seed and n = 0])
    (simp_all add: srand_def prng_bytes_def [symmetric] put_new_block)

lemma mask_key_new_block:
  "mask_key (Ptr (nxt w) 0) 0 (length bs) ((new_block False bs w)\<lparr>rng := r\<rparr>) =
     Inr ((new_block False (oblivious_mask bs) w)\<lparr>rng := r\<rparr>)"
  using mask_key_put [of "(new_block False bs w)\<lparr>rng := r\<rparr>" "nxt w" "[]" bs]
  by (simp add: oblivious_mask_def [symmetric] put_new_block)

text \<open>The two generators, on strings and with an allocator that grants the buffer.\<close>

lemma gen_pseudorandom_key_eq:
  assumes "no_oom w" "cstr w src s" "cstr w dst d"
  shows "gen_pseudorandom_key R src dst key_size index w =
    Inr (\<lparr>bytes_size = ucast key_size, bytes_data = Ptr (nxt w) 0\<rparr>,
      (new_block False (prng_bytes R (stream_seed s d index) (unat key_size)) w)
        \<lparr>rng := (stream_seed s d index, unat key_size)\<rparr>)"
  using assms
  by (simp add: gen_pseudorandom_key_def simple_hash_cstr malloc_no_oom Let_def fill_key_new_block
      stream_seed_def xor.assoc)

lemma gen_oblivious_pseudorandom_key_eq:
  assumes "no_oom w" "cstr w src s" "cstr w dst d"
  shows "gen_oblivious_pseudorandom_key R src dst key_size index ty w =
    Inr (\<lparr>bytes_size = ucast key_size, bytes_data = Ptr (nxt w) 0\<rparr>,
      (new_block False
         ((if ty = 2 then oblivious_mask else (\<lambda>k. k))
            (prng_bytes R (stream_seed s d index) (unat key_size))) w)
        \<lparr>rng := (stream_seed s d index, unat key_size)\<rparr>)"
  using assms
    mask_key_new_block [of w "prng_bytes R (stream_seed s d index) (unat key_size)"
      "(stream_seed s d index, unat key_size)"]
  by (simp add: gen_oblivious_pseudorandom_key_def simple_hash_cstr malloc_no_oom Let_def
      fill_key_new_block stream_seed_def xor.assoc)

text \<open>The two ends of a stream name each other in opposite order and still get the same seed.\<close>

lemma stream_seed_swap: "stream_seed s d index = stream_seed d s index"
  by (simp add: stream_seed_def xor.left_commute xor.assoc)

lemma stream_seed_index_inj: "stream_seed s d i = stream_seed s d j \<longleftrightarrow> i = j"
  by (metis stream_seed_def xor.left_neutral xor.assoc xor_self_eq)

end
