(* ===== verification/ServerRegistry.thy ===== *)
theory ServerRegistry
  imports ServerExample
begin

text \<open>
  What the server of \<open>server_example.c\<close> promises, as functions on the list of its key streams
  (\<open>oc_spec\<close>, \<open>bump\<close>, \<open>stream_key\<close>), and the proof that the code on the linked list in memory implements
  it. \<open>registry w F is ss\<close> relates the two: the list that starts in the context structure
  runs through the distinct nodes \<open>is\<close>, which hold the streams \<open>ss\<close> and whose strings
  are in the blocks \<open>F\<close>.
\<close>

section \<open>Specification\<close>

record key_stream =
  ks_id :: bytes
  ks_source :: bytes
  ks_destination :: bytes
  ks_qos :: "bytes qkd_qos"
  ks_index :: "32 word"

definition find_peer :: "bytes \<Rightarrow> bytes \<Rightarrow> key_stream list \<Rightarrow> key_stream option" where
  "find_peer src dst ss = find (\<lambda>s. ks_source s = src \<and> ks_destination s = dst) ss"

definition find_stream :: "bytes \<Rightarrow> key_stream list \<Rightarrow> key_stream option" where
  "find_stream ksid ss = find (\<lambda>s. ks_id s = ksid) ss"

definition oc_spec ::
  "bytes \<Rightarrow> bytes \<Rightarrow> bytes \<Rightarrow> bytes qkd_qos \<Rightarrow> bytes \<Rightarrow> key_stream list \<Rightarrow> bytes \<times> key_stream list" where
  "oc_spec fresh src dst q ksid ss =
     (if ksid \<noteq> nil_uuid then (ksid, ss)
      else case find_peer src dst ss of
        Some s \<Rightarrow> (ks_id s, ss)
      | None \<Rightarrow>
          (fresh, ss @ [\<lparr>ks_id = fresh, ks_source = src, ks_destination = dst, ks_qos = q, ks_index = 0\<rparr>]))"

fun bump :: "bytes \<Rightarrow> key_stream list \<Rightarrow> key_stream list" where
  "bump ksid [] = []"
| "bump ksid (s # ss) =
     (if ks_id s = ksid then s\<lparr>ks_index := ks_index s + 1\<rparr> # ss else s # bump ksid ss)"

text \<open>The key a stream delivers, by the two bytes of the request's metadata.\<close>

definition stream_key :: "(u32 \<Rightarrow> nat \<Rightarrow> nat) \<Rightarrow> key_stream \<Rightarrow> u32 \<Rightarrow> u8 \<Rightarrow> u8 \<Rightarrow> bytes" where
  "stream_key R s index ty role =
     (let k = prng_bytes R (stream_seed (ks_source s) (ks_destination s) index)
                (unat (key_chunk_size (ks_qos s)))
      in if ty = type_code qkd_key_type_symmetric \<or> role = role_code qkd_key_type_role_sender then k
         else oblivious_mask k)"

section \<open>The linked list and the streams it holds\<close>

definition node_at :: "server \<Rightarrow> qkd_ksid_info \<Rightarrow> key_stream \<Rightarrow> bool" where
  "node_at w n s \<longleftrightarrow>
     ki_key_stream_id n = ks_id s \<and> length (ks_id s) = 16 \<and> qos_at w (ki_qos n) (ks_qos s) \<and>
     cstr w (ki_source n) (ks_source s) \<and> cstr w (ki_destination n) (ks_destination s) \<and>
     ki_current_index n = ks_index s"

definition node_owns :: "qkd_ksid_info \<Rightarrow> nat \<Rightarrow> bool" where
  "node_owns n b \<longleftrightarrow>
     in_block b (ki_source n) \<or> in_block b (ki_destination n) \<or>
     in_block b (metadata_mimetype (ki_qos n))"

fun ks_path :: "server \<Rightarrow> nat option \<Rightarrow> nat list \<Rightarrow> key_stream list \<Rightarrow> bool" where
  "ks_path w p [] [] = (p = None)"
| "ks_path w p (i # is) (s # ss) =
     (p = Some i \<and>
      (case nodes w i of None \<Rightarrow> False | Some n \<Rightarrow> node_at w n s \<and> ks_path w (ki_next n) is ss))"
| "ks_path w p _ _ = False"

definition owned :: "server \<Rightarrow> nat list \<Rightarrow> nat set" where
  "owned w is = {b. \<exists>i\<in>set is. \<exists>n. nodes w i = Some n \<and> node_owns n b}"

definition registry :: "server \<Rightarrow> nat set \<Rightarrow> nat list \<Rightarrow> key_stream list \<Rightarrow> bool" where
  "registry w F is ss \<longleftrightarrow>
     ks_path w (ksid_info_linked_list (config w)) is ss \<and> distinct is \<and> (\<forall>i\<in>set is. i < nxt w) \<and>
     F = owned w is"

text \<open>
  The nodes are allocated like the blocks but are kept in a map of their own, so they are accounted for
  separately: \<open>unlinked w is\<close> are the live nodes that are not on the list, those that were lost.
\<close>

definition unlinked :: "server \<Rightarrow> nat list \<Rightarrow> nat set" where
  "unlinked w is = dom (nodes w) - set is"

section \<open>Field access\<close>

lemma server_fields_mem_ops [simp]:
  "nodes (put b i bs w) = nodes w" "config (put b i bs w) = config w"
  "nodes (new_block a c w) = nodes w" "config (new_block a c w) = config w"
  "nodes (kill_block b w) = nodes w" "config (kill_block b w) = config w"
  "nodes (str_block s w) = nodes w" "config (str_block s w) = config w"
  "uuid_draws (new_block a c w) = uuid_draws w" "uuid_draws (str_block s w) = uuid_draws w"
  "uuid_draws (put b i bs w) = uuid_draws w" "uuid_draws (kill_block b w) = uuid_draws w"
  by (simp_all add: put_def new_block_def kill_block_def str_block_def)

lemma set_node_fields [simp]:
  "blocks (set_node i n w) = blocks w" "nxt (set_node i n w) = nxt w"
  "autos (set_node i n w) = autos w" "alloc_ok (set_node i n w) = alloc_ok w"
  "junk (set_node i n w) = junk w" "host_be (set_node i n w) = host_be w"
  "stack_size (set_node i n w) = stack_size w" "config (set_node i n w) = config w"
  "nodes (set_node i n w) = (nodes w)(i \<mapsto> n)" "uuid_draws (set_node i n w) = uuid_draws w"
  by (simp_all add: set_node_def)

text \<open>Assertions depend on the blocks they look at only.\<close>

lemma cstr_frame:
  "(\<And>b. in_block b p \<Longrightarrow> blocks m' b = blocks m b) \<Longrightarrow> cstr m' p s = cstr m p s"
  by (cases p) (simp_all add: cstr_def)

lemma qos_at_frame:
  "(\<And>b. in_block b (metadata_mimetype q) \<Longrightarrow> blocks m' b = blocks m b) \<Longrightarrow> qos_at m' q Q = qos_at m q Q"
  using cstr_frame [of "metadata_mimetype q" m' m] by (simp add: qos_at_def)

lemma cbytes_frame:
  "(\<And>b. in_block b p \<Longrightarrow> blocks m' b = blocks m b) \<Longrightarrow> cbytes m' p s = cbytes m p s"
  by (cases p) (simp_all add: cbytes_def load_def)

lemma node_at_frame:
  "(\<And>b. node_owns n b \<Longrightarrow> blocks w' b = blocks w b) \<Longrightarrow> node_at w' n s = node_at w n s"
  using cstr_frame [of "ki_source n" w' w] cstr_frame [of "ki_destination n" w' w]
    qos_at_frame [of "ki_qos n" w' w]
  by (simp add: node_at_def node_owns_def)

lemma cstr_in_block: "wf_mem m \<Longrightarrow> cstr m p s \<Longrightarrow> in_block b p \<Longrightarrow> b < nxt m"
  by (cases p) (auto simp: cstr_def dest: wf_mem_live split: option.splits)

lemma node_owns_old: "wf_mem w \<Longrightarrow> node_at w n s \<Longrightarrow> node_owns n b \<Longrightarrow> b < nxt w"
  by (auto simp: node_at_def node_owns_def qos_at_def dest: cstr_in_block)

lemma ks_path_length: "ks_path w p is ss \<Longrightarrow> length is = length ss"
  by (induction w p "is" ss rule: ks_path.induct) (auto split: option.splits)

lemma ks_path_frame:
  assumes "ks_path w p is ss" "\<And>i. i \<in> set is \<Longrightarrow> nodes w' i = nodes w i"
    "\<And>i n b. i \<in> set is \<Longrightarrow> nodes w i = Some n \<Longrightarrow> node_owns n b \<Longrightarrow> blocks w' b = blocks w b"
  shows "ks_path w' p is ss"
  using assms
proof (induction w p "is" ss rule: ks_path.induct)
  case (2 w p i "is" s ss)
  then obtain n where n: "p = Some i" "nodes w i = Some n" "node_at w n s" "ks_path w (ki_next n) is ss"
    by (auto split: option.splits)
  have "node_at w' n s"
    using n(3) 2(4) [of i n] n(2) by (subst node_at_frame) auto
  moreover have "ks_path w' (ki_next n) is ss"
    using 2(3,4) by (intro 2(1) [OF n(2,4)]) auto
  moreover have "nodes w' i = Some n"
    using 2(3) [of i] n(2) by simp
  ultimately show ?case
    using n(1) by simp
qed auto

text \<open>The strings of the registered streams lie below the next block number.\<close>

lemma ks_path_node:
  "ks_path w p is ss \<Longrightarrow> i \<in> set is \<Longrightarrow> \<exists>n. nodes w i = Some n \<and> (\<exists>s\<in>set ss. node_at w n s)"
  by (induction w p "is" ss rule: ks_path.induct) (auto split: option.splits)

lemma ks_path_owns_old:
  assumes "wf_mem w" "ks_path w p is ss" "i \<in> set is" "nodes w i = Some n" "node_owns n b"
  shows "b < nxt w"
  using ks_path_node [OF assms(2,3)] assms(1,4,5) node_owns_old by auto

lemma registry_owned: "wf_mem w \<Longrightarrow> registry w F is ss \<Longrightarrow> b \<in> F \<Longrightarrow> b < nxt w"
  by (auto simp: registry_def owned_def intro: ks_path_owns_old)

lemma registry_frame:
  assumes "registry w F is ss" "nxt w \<le> nxt w'" "config w' = config w"
    "\<And>i. i < nxt w \<Longrightarrow> nodes w' i = nodes w i" "\<And>b. b \<in> F \<Longrightarrow> blocks w' b = blocks w b"
  shows "registry w' F is ss"
proof -
  have r: "ks_path w (ksid_info_linked_list (config w)) is ss" "\<And>i. i \<in> set is \<Longrightarrow> i < nxt w"
      "F = owned w is" "distinct is"
    using assms(1) by (simp_all add: registry_def)
  have same: "nodes w' i = nodes w i" if "i \<in> set is" for i
    using r(2) [OF that] by (rule assms(4))
  have "ks_path w' (ksid_info_linked_list (config w)) is ss"
    using r(1)
  proof (rule ks_path_frame)
    show "nodes w' i = nodes w i" if "i \<in> set is" for i
      using that by (rule same)
    show "blocks w' b = blocks w b" if "i \<in> set is" "nodes w i = Some n" "node_owns n b" for i n b
      using that r(3) by (intro assms(5)) (auto simp: owned_def)
  qed
  moreover have "\<forall>i\<in>set is. i < nxt w'"
    using r(2) assms(2) by (meson less_le_trans)
  moreover have "owned w' is = owned w is"
    using same by (auto simp: owned_def)
  ultimately show ?thesis
    using r(3,4) assms(3) by (simp add: registry_def)
qed

lemma registry_fuel:
  assumes "registry w F is ss"
  shows "length is \<le> nxt w"
proof -
  have "set is \<subseteq> {..<nxt w}" "distinct is"
    using assms by (auto simp: registry_def)
  then show ?thesis
    using card_mono [of "{..<nxt w}" "set is"] by (simp add: distinct_card)
qed

section \<open>Walking the list\<close>

lemma oc_search_path:
  assumes "ks_path w (Some i) is ss" "cstr w src S" "cstr w dst D" "length is \<le> fuel"
  shows "case find_peer S D ss of
      None \<Rightarrow> oc_search fuel i src dst w = Inr (False, last is)
    | Some s \<Rightarrow> \<exists>j n. oc_search fuel i src dst w = Inr (True, j) \<and> nodes w j = Some n \<and> node_at w n s"
  using assms(1,4)
proof (induction fuel arbitrary: i "is" ss)
  case 0
  then show ?case by (cases "is"; cases ss) auto
next
  case (Suc fuel)
  from Suc.prems(1) obtain is' s ss' n where c: "is = i # is'" "ss = s # ss'" "nodes w i = Some n"
      "node_at w n s" "ks_path w (ki_next n) is' ss'"
    by (cases "is"; cases ss) (auto split: option.splits)
  from c(4) have n: "cstr w (ki_source n) (ks_source s)" "cstr w (ki_destination n) (ks_destination s)"
    by (simp_all add: node_at_def)
  obtain k1 where k1: "strcmp (ki_source n) src w = Inr k1" "k1 = 0 \<longleftrightarrow> ks_source s = S"
    using n(1) assms(2) by (rule strcmp_cstr)
  obtain k2 where k2: "strcmp (ki_destination n) dst w = Inr k2" "k2 = 0 \<longleftrightarrow> ks_destination s = D"
    using n(2) assms(3) by (rule strcmp_cstr)
  show ?case
  proof (cases "ks_source s = S \<and> ks_destination s = D")
    case True
    with c k1 k2 show ?thesis by (auto simp: find_peer_def)
  next
    case False
    then have peer: "find_peer S D ss = find_peer S D ss'"
      using c(2) by (auto simp: find_peer_def)
    show ?thesis
    proof (cases "ki_next n")
      case None
      with c(5) have "is' = []" "ss' = []"
        by (cases is'; cases ss'; auto)+
      with None False c k1 k2 show ?thesis
        by (auto simp: find_peer_def)
    next
      case (Some j)
      with c(5) have "is' \<noteq> []" by (cases ss') auto
      moreover have "oc_search (Suc fuel) i src dst w = oc_search fuel j src dst w"
        using Some False c(3) k1 k2 by auto
      moreover have "length is' \<le> fuel"
        using Suc.prems(2) c(1) by simp
      ultimately show ?thesis
        using Suc.IH [of j is' ss'] c(1,5) Some peer by (simp del: oc_search.simps split: option.splits)
    qed
  qed
qed

text \<open>The search of \<open>qkd_get_key\<close>, and what counting up the node it finds does to the list.\<close>

definition count_up :: "qkd_ksid_info \<Rightarrow> qkd_ksid_info" where
  "count_up n = n\<lparr>ki_current_index := ki_current_index n + 1\<rparr>"

lemma node_at_count_up:
  "node_at w n s \<Longrightarrow> node_at w (count_up n) (s\<lparr>ks_index := ks_index s + 1\<rparr>)"
  by (simp add: node_at_def count_up_def)

lemma node_at_set_node [simp]: "node_at (set_node i n w) n' s = node_at w n' s"
  by (rule node_at_frame) simp

lemma ks_path_set_other: "ks_path w p is ss \<Longrightarrow> i \<notin> set is \<Longrightarrow> ks_path (set_node i n w) p is ss"
  by (rule ks_path_frame) auto

lemma gk_search_path:
  assumes L: "uuid_laws L" "length ksid = 16"
    and "ks_path w p is ss" "length is < fuel" "distinct is"
  shows "case find_stream ksid ss of
      None \<Rightarrow> gk_search L fuel p ksid w = Inr None
    | Some s \<Rightarrow> \<exists>i n. gk_search L fuel p ksid w = Inr (Some i) \<and> i \<in> set is \<and> nodes w i = Some n \<and>
        node_at w n s \<and> ks_path (set_node i (count_up n) w) p is (bump ksid ss)"
  using assms(3-)
proof (induction fuel arbitrary: p "is" ss)
  case (Suc fuel)
  show ?case
  proof (cases "is")
    case Nil
    with Suc.prems(1) have "ss = []" "p = None"
      by (cases ss; simp)+
    then show ?thesis by (simp add: find_stream_def)
  next
    case (Cons i is')
    with Suc.prems(1) obtain s ss' n where c: "p = Some i" "ss = s # ss'" "nodes w i = Some n"
        "node_at w n s" "ks_path w (ki_next n) is' ss'"
      by (cases ss) (auto split: option.splits)
    have id: "ki_key_stream_id n = ks_id s" "length (ks_id s) = 16"
      using c(4) by (simp_all add: node_at_def)
    show ?thesis
    proof (cases "ks_id s = ksid")
      case True
      with c Cons id L Suc.prems(3) show ?thesis
        by (auto simp: find_stream_def node_at_count_up intro!: ks_path_set_other)
           (simp add: count_up_def ks_path_set_other)
    next
      case False
      then have "gk_search L (Suc fuel) p ksid w = gk_search L fuel (ki_next n) ksid w"
          "find_stream ksid ss = find_stream ksid ss'" "bump ksid ss = s # bump ksid ss'"
        using c L id by (simp_all add: find_stream_def)
      moreover have "length is' < fuel" "distinct is'" "i \<notin> set is'"
        using Suc.prems(2,3) Cons by simp_all
      ultimately show ?thesis
        using Suc.IH [OF c(5)] c(1,3,4) Cons by (auto split: option.splits)
    qed
  qed
qed simp

section \<open>Adding a stream\<close>

lemma ks_path_last:
  "ks_path w p is ss \<Longrightarrow> is \<noteq> [] \<Longrightarrow> \<exists>n. nodes w (last is) = Some n \<and> ki_next n = None"
proof (induction w p "is" ss rule: ks_path.induct)
  case (2 w p i "is" s ss)
  then show ?case by (cases "is"; cases ss) (auto split: option.splits)
qed auto

lemma node_at_next [simp]: "node_at w (n\<lparr>ki_next := p\<rparr>) s = node_at w n s"
  by (simp add: node_at_def)

lemma ks_path_snoc:
  assumes "ks_path w p is ss" "is \<noteq> []" "distinct is" "i \<notin> set is" "nodes w (last is) = Some nl"
    "nodes w i = Some n" "node_at w n s" "ki_next n = None"
  shows "ks_path (set_node (last is) (nl\<lparr>ki_next := Some i\<rparr>) w) p (is @ [i]) (ss @ [s])"
  using assms(1-5)
proof (induction "is" arbitrary: p ss)
  case (Cons j js)
  from Cons.prems(1) obtain t ts m where c: "p = Some j" "ss = t # ts" "nodes w j = Some m"
      "node_at w m t" "ks_path w (ki_next m) js ts"
    by (cases ss) (auto split: option.splits)
  show ?case
  proof (cases "js = []")
    case True
    with c(5) have "ts = []" by (cases ts) simp_all
    with True c Cons.prems assms(6-8) show ?thesis
      by auto
  next
    case False
    with Cons.IH [OF c(5)] Cons.prems c(1-4) show ?thesis
      by auto
  qed
qed simp

text \<open>The memory after a stream was registered, before it is linked.\<close>

definition registered ::
  "libuuid \<Rightarrow> bytes \<Rightarrow> bytes \<Rightarrow> bytes qkd_qos \<Rightarrow> server \<Rightarrow> server" where
  "registered L S D Q w =
     str_block D (str_block S (str_block (metadata_mimetype Q)
       (w\<lparr>uuid_draws := Suc (uuid_draws w), nodes := (nodes w)(nxt w \<mapsto> zero_ksid_info),
          nxt := Suc (nxt w)\<rparr>)))"

definition new_node :: "libuuid \<Rightarrow> bytes qkd_qos \<Rightarrow> server \<Rightarrow> qkd_ksid_info" where
  "new_node L Q w =
     \<lparr>ki_key_stream_id = uuid_generate_random L (uuid_draws w),
      ki_qos = qos_struct Q (Ptr (Suc (nxt w)) 0), ki_source = Ptr (Suc (Suc (nxt w))) 0,
      ki_destination = Ptr (Suc (Suc (Suc (nxt w)))) 0, ki_current_index = 0, ki_next = None\<rparr>"

lemma registered_fields [simp]:
  "nxt (registered L S D Q w) = 4 + nxt w" "config (registered L S D Q w) = config w"
  "nodes (registered L S D Q w) = (nodes w)(nxt w \<mapsto> zero_ksid_info)"
  "uuid_draws (registered L S D Q w) = Suc (uuid_draws w)"
  by (simp_all add: registered_def)

lemma register_ksid_eq:
  assumes w: "wf_mem w" "no_oom w" and L: "uuid_laws L"
    and src: "cstr w src S" and dst: "cstr w dst D" and q: "qos_at w q Q"
  shows "register_ksid L l src dst q w =
    bind_res (link_ksid_info l (nxt w) (set_node (nxt w) (new_node L Q w) (registered L S D Q w)))
      (\<lambda>w'. Inr (uuid_generate_random L (uuid_draws w), w'))"
proof -
  define w1 where "w1 = w\<lparr>uuid_draws := Suc (uuid_draws w), nodes := (nodes w)(nxt w \<mapsto> zero_ksid_info),
    nxt := Suc (nxt w)\<rparr>"
  define w2 where "w2 = str_block (metadata_mimetype Q) w1"
  define w3 where "w3 = str_block S w2"
  have b: "blocks w1 = blocks w" "nxt w1 = Suc (nxt w)" "no_oom w1"
    using w(2) by (simp_all add: w1_def no_oom_def)
  have "wf_mem w1"
    using w(1) b(1,2) by (auto simp: wf_mem_def less_Suc_eq)
  have 1: "cstr w1 src S" "cstr w1 dst D" "qos_at w1 q Q"
    using src dst q cstr_frame [of _ w1 w] qos_at_frame [of _ w1 w] b(1) by auto
  have len: "length (metadata_mimetype Q) + 1 < 2 ^ 64" "length S + 1 < 2 ^ 64"
    using cstr_length [OF w(1)] src q by (auto simp: qos_at_def)
  have "wf_mem w2" "no_oom w2" "cstr w2 src S" "cstr w2 dst D"
    using \<open>wf_mem w1\<close> b(3) len(1) 1 by (simp_all add: w2_def wf_mem_str_block str_block_def cstr_new_block)
  moreover have "wf_mem w3" "no_oom w3" "cstr w3 dst D"
    using calculation len(2) by (simp_all add: w3_def wf_mem_str_block str_block_def cstr_new_block)
  ultimately have "qkd_copy_qos zero_qos q w1 = Inr (qos_struct Q (Ptr (Suc (nxt w)) 0), w2)"
      "qkd_copy_str NULL src w2 = Inr (Ptr (Suc (Suc (nxt w))) 0, w3)"
      "qkd_copy_str NULL dst w3 = Inr (Ptr (Suc (Suc (Suc (nxt w)))) 0, registered L S D Q w)"
    using copy_qos_fresh [OF \<open>wf_mem w1\<close> b(3) 1(3), of zero_qos] b(2)
      copy_str_fresh [of w2 src S] copy_str_fresh [of w3 dst D]
    by (simp_all add: zero_qos_def w2_def w3_def registered_def w1_def)
  then show ?thesis
    using w(2) L
    by (simp add: register_ksid_def calloc_ksid_info_def no_oom_def Let_def zero_ksid_info_def
        qkd_copy_uri_def new_node_def w1_def [symmetric, unfolded zero_ksid_info_def])
qed

lemma mem_updates [simp]:
  "wf_mem (set_node i n w) = wf_mem w" "no_oom (set_node i n w) = no_oom w"
  "wf_mem (w\<lparr>config := c\<rparr>) = wf_mem w" "no_oom (w\<lparr>config := c\<rparr>) = no_oom w"
  "wf_mem (w\<lparr>rng := r\<rparr>) = wf_mem w" "no_oom (w\<lparr>rng := r\<rparr>) = no_oom w"
  "grows w0 A (set_node i n w) = grows w0 A w" "grows w0 A (w\<lparr>config := c\<rparr>) = grows w0 A w"
  "grows w0 A (w\<lparr>rng := r\<rparr>) = grows w0 A w" "grows (w\<lparr>rng := r\<rparr>) A w' = grows w A w'"
  by (simp_all add: wf_mem_def no_oom_def grows_def)

lemma registered_mem:
  assumes "wf_mem w" "no_oom w" "length S + 1 < 2 ^ 64" "length D + 1 < 2 ^ 64"
    "length (metadata_mimetype Q) + 1 < 2 ^ 64"
  shows "wf_mem (registered L S D Q w)" "no_oom (registered L S D Q w)"
    "grows w {Suc (nxt w), Suc (Suc (nxt w)), Suc (Suc (Suc (nxt w)))} (registered L S D Q w)"
proof -
  define w1 where "w1 = w\<lparr>uuid_draws := Suc (uuid_draws w), nodes := (nodes w)(nxt w \<mapsto> zero_ksid_info),
    nxt := Suc (nxt w)\<rparr>"
  define w2 where "w2 = str_block (metadata_mimetype Q) w1"
  define w3 where "w3 = str_block S w2"
  have w1: "wf_mem w1" "no_oom w1" "nxt w1 = Suc (nxt w)"
    using assms(1,2) by (auto simp: w1_def wf_mem_def no_oom_def less_Suc_eq)
  then have w3: "wf_mem w2" "wf_mem w3" "no_oom w2" "no_oom w3"
    using assms by (simp_all add: w2_def w3_def wf_mem_str_block str_block_def)
  then show "wf_mem (registered L S D Q w)" "no_oom (registered L S D Q w)"
    using assms(4) by (simp_all add: registered_def w1_def [symmetric] w2_def [symmetric]
        w3_def [symmetric] wf_mem_str_block)
  have "grows w {} w1"
    using assms(1) by (auto simp: grows_def w1_def wf_mem_def not_less [symmetric])
  from grows_str_block [OF grows_str_block [OF grows_str_block [OF this w1(1)] w3(1)[unfolded w2_def]]]
  show "grows w {Suc (nxt w), Suc (Suc (nxt w)), Suc (Suc (Suc (nxt w)))} (registered L S D Q w)"
    using w3(2) w1(3)
    by (simp add: registered_def w1_def [symmetric] w2_def w3_def insert_commute)
qed

lemma new_node_at:
  assumes "uuid_laws L" "valid_str S" "valid_str D" "valid_qos Q"
  shows "node_at (set_node i n (registered L S D Q w)) (new_node L Q w)
    \<lparr>ks_id = uuid_generate_random L (uuid_draws w), ks_source = S, ks_destination = D, ks_qos = Q,
     ks_index = 0\<rparr>"
  using assms by (simp add: node_at_def new_node_def registered_def cstr_block qos_at_struct)

lemma owned_Nil [simp]: "owned w [] = {}"
  by (simp add: owned_def)

lemma owned_append: "owned w (is @ js) = owned w is \<union> owned w js"
  by (auto simp: owned_def)

lemma owned_single: "nodes w i = Some n \<Longrightarrow> owned w [i] = {b. node_owns n b}"
  by (simp add: owned_def)

lemma owned_set_node:
  assumes "nodes w i = Some n" "node_owns n' = node_owns n"
  shows "owned (set_node i n' w) is = owned w is"
proof -
  have "(\<exists>m. nodes (set_node i n' w) j = Some m \<and> node_owns m b) \<longleftrightarrow>
      (\<exists>m. nodes w j = Some m \<and> node_owns m b)" for j b
    using assms by (cases "j = i") simp_all
  then show ?thesis
    by (simp only: owned_def)
qed

lemma node_owns_next [simp]: "node_owns (n\<lparr>ki_next := p\<rparr>) = node_owns n"
  by (simp add: node_owns_def fun_eq_iff)

lemma register_refines:
  assumes w: "wf_mem w" "no_oom w" and L: "uuid_laws L" and reg: "registry w F is ss"
    and src: "cstr w src S" and dst: "cstr w dst D" and q: "qos_at w q Q"
    and l: "l = (if is = [] then None else Some (last is))"
  shows "\<exists>w'. register_ksid L l src dst q w = Inr (uuid_generate_random L (uuid_draws w), w') \<and>
    registry w' (F \<union> {Suc (nxt w), Suc (Suc (nxt w)), Suc (Suc (Suc (nxt w)))})
      (is @ [nxt w]) (ss @ [\<lparr>ks_id = uuid_generate_random L (uuid_draws w),
      ks_source = S, ks_destination = D, ks_qos = Q, ks_index = 0\<rparr>]) \<and>
    wf_mem w' \<and> no_oom w' \<and>
    grows w {Suc (nxt w), Suc (Suc (nxt w)), Suc (Suc (Suc (nxt w)))} w' \<and>
    uuid_draws w' = Suc (uuid_draws w) \<and> qber (config w') = qber (config w) \<and>
    device_info (config w') = device_info (config w) \<and>
    (unlinked w is \<subseteq> {..<nxt w} \<longrightarrow> unlinked w' (is @ [nxt w]) = unlinked w is)"
proof -
  let ?s = "\<lparr>ks_id = uuid_generate_random L (uuid_draws w), ks_source = S, ks_destination = D,
    ks_qos = Q, ks_index = 0\<rparr>"
  let ?A = "{Suc (nxt w), Suc (Suc (nxt w)), Suc (Suc (Suc (nxt w)))}"
  let ?i = "nxt w" and ?n = "new_node L Q w"
  define w2 where "w2 = set_node ?i ?n (registered L S D Q w)"
  have len: "length S + 1 < 2 ^ 64" "length D + 1 < 2 ^ 64" "length (metadata_mimetype Q) + 1 < 2 ^ 64"
    using cstr_length [OF w(1)] src dst q by (auto simp: qos_at_def)
  have valid: "valid_str S" "valid_str D" "valid_qos Q"
    using src dst q
    by (auto simp: cstr_def valid_str_def qos_at_def valid_qos_def split: ptr.splits option.splits)
  have w2: "wf_mem w2" "no_oom w2" "grows w ?A w2"
    using registered_mem [OF w len] by (simp_all add: w2_def)
  have w2': "uuid_draws w2 = Suc (uuid_draws w)" "config w2 = config w"
    by (simp_all add: w2_def)
  have old: "\<And>b. b \<in> F \<Longrightarrow> blocks w2 b = blocks w b"
    using w2(3) registry_owned [OF w(1) reg] by (simp add: grows_def)
  have own: "{b. node_owns ?n b} = ?A"
    by (auto simp: node_owns_def new_node_def qos_struct_def)
  have reg2: "registry w2 F is ss"
    by (rule registry_frame [OF reg]) (simp_all add: old, simp_all add: w2_def)
  have new: "nodes w2 ?i = Some ?n" "node_at w2 ?n ?s" "ki_next ?n = None"
    using new_node_at [OF L valid] by (simp_all add: w2_def) (simp add: new_node_def)
  have "?i \<notin> set is"
    using reg by (auto simp: registry_def)
  have eq: "register_ksid L l src dst q w = bind_res (link_ksid_info l ?i w2)
      (\<lambda>w'. Inr (uuid_generate_random L (uuid_draws w), w'))"
    unfolding w2_def by (rule register_ksid_eq [OF w L src dst q])
  show ?thesis
  proof (cases "is = []")
    case True
    then have "ss = []"
      using reg by (cases ss) (simp_all add: registry_def)
    let ?w' = "w2\<lparr>config := (config w2)\<lparr>ksid_info_linked_list := Some ?i\<rparr>\<rparr>"
    have "link_ksid_info l ?i w2 = Inr ?w'"
      using True l by (simp add: link_ksid_info_def)
    moreover have "unlinked w is \<subseteq> {..<nxt w} \<longrightarrow> unlinked ?w' (is @ [?i]) = unlinked w is"
      using True by (auto simp: unlinked_def w2_def)
    moreover have "node_at ?w' ?n ?s"
      using new(2) by (subst node_at_frame [of _ _ w2]) simp_all
    then have "registry ?w' (F \<union> ?A) (is @ [?i]) (ss @ [?s])"
      using True \<open>ss = []\<close> new(1,3) reg own owned_single [of ?w' ?i ?n]
      by (simp add: registry_def) (simp add: w2_def)
    ultimately show ?thesis
      using eq w2 w2' by (simp add: device_info_def)
  next
    case False
    from reg2 have path: "ks_path w2 (ksid_info_linked_list (config w2)) is ss" "distinct is"
        "\<forall>i\<in>set is. i < nxt w2"
      by (simp_all add: registry_def)
    obtain nl where nl: "nodes w2 (last is) = Some nl" "ki_next nl = None"
      using ks_path_last [OF path(1) False] by blast
    let ?w' = "set_node (last is) (nl\<lparr>ki_next := Some ?i\<rparr>) w2"
    have "link_ksid_info l ?i w2 = Inr ?w'"
      using False l nl by (simp add: link_ksid_info_def)
    moreover have "unlinked w is \<subseteq> {..<nxt w} \<longrightarrow> unlinked ?w' (is @ [?i]) = unlinked w is"
      using False \<open>?i \<notin> set is\<close> by (auto simp: unlinked_def w2_def)
    moreover have "owned ?w' (is @ [?i]) = F \<union> ?A"
      using owned_set_node [OF nl(1) node_owns_next] owned_single [OF new(1)] own reg2
      by (simp add: owned_append registry_def)
    moreover have "registry ?w' (F \<union> ?A) (is @ [?i]) (ss @ [?s])"
      using calculation(3) ks_path_snoc [OF path(1) False path(2) \<open>?i \<notin> set is\<close> nl(1) new] path(2,3)
        \<open>?i \<notin> set is\<close> by (simp add: registry_def) (simp add: w2_def)
    ultimately show ?thesis
      using eq w2 w2' by (simp add: device_info_def)
  qed
qed

section \<open>OPEN\_CONNECT implements its specification\<close>

lemma registry_rng [simp]: "registry (w\<lparr>rng := r\<rparr>) F is ss = registry w F is ss"
proof
  show "registry w F is ss" if "registry (w\<lparr>rng := r\<rparr>) F is ss"
    using registry_frame [OF that, of w] by simp
  show "registry (w\<lparr>rng := r\<rparr>) F is ss" if "registry w F is ss"
    using registry_frame [OF that, of "w\<lparr>rng := r\<rparr>"] by simp
qed

lemma rng_assertions [simp]:
  "cstr (w\<lparr>rng := r\<rparr>) p s = cstr w p s" "qos_at (w\<lparr>rng := r\<rparr>) q Q = qos_at w q Q"
  "cbytes (w\<lparr>rng := r\<rparr>) p bs = cbytes w p bs"
  by (rule cstr_frame qos_at_frame cbytes_frame, simp)+

lemma open_connect_refines:
  assumes w: "wf_mem w" "no_oom w" and L: "uuid_laws L" and reg: "registry w F is ss"
    and src: "cstr w src S" and dst: "cstr w dst D" and q: "qos_at w q Q"
    and ksid: "length ksid = 16"
    and spec: "oc_spec (uuid_generate_random L (uuid_draws w)) S D Q ksid ss = (ksid', ss')"
  shows "\<exists>w' A is'. qkd_open_connect L src dst q ksid status w = Inr (q, ksid', 0, w') \<and>
    wf_mem w' \<and> no_oom w' \<and> registry w' (F \<union> A) is' ss' \<and> grows w A w' \<and>
    uuid_draws w' = uuid_draws w + (length ss' - length ss) \<and> qber (config w') = qber (config w) \<and>
    device_info (config w') = device_info (config w) \<and>
    (unlinked w is \<subseteq> {..<nxt w} \<longrightarrow> unlinked w' is' = unlinked w is)"
proof -
  define w0 where "w0 = srand (now w) w"
  have w0: "wf_mem w0" "no_oom w0" "registry w0 F is ss" "cstr w0 src S" "cstr w0 dst D" "qos_at w0 q Q"
      "uuid_draws w0 = uuid_draws w" "nxt w0 = nxt w" "\<And>A w'. grows w0 A w' = grows w A w'" "grows w {} w0"
      "config w0 = config w" "\<And>is. unlinked w0 is = unlinked w is"
    using assms(1-7) by (simp_all add: w0_def srand_def unlinked_def)
  let ?oc = "qkd_open_connect L src dst q ksid status w"
  let ?l = "if is = [] then None else Some (last is)"
  let ?A = "{Suc (nxt w), Suc (Suc (nxt w)), Suc (Suc (Suc (nxt w)))}"
  let ?fresh = "uuid_generate_random L (uuid_draws w)"
  let ?s = "\<lparr>ks_id = ?fresh, ks_source = S, ks_destination = D, ks_qos = Q, ks_index = 0\<rparr>"
  note open_def = qkd_open_connect_def Let_def w0_def [symmetric]
  show ?thesis
  proof (cases "ksid = nil_uuid \<and> find_peer S D ss = None")
    case True
    have l: "ksid_info_linked_list (config w0) = None \<longleftrightarrow> is = []"
      using w0(3) by (cases "is"; cases ss) (auto simp: registry_def)
    have "?oc = bind_res (register_ksid L ?l src dst q w0) (\<lambda>(ksid, w). Inr (q, ksid, 0, w))"
    proof (cases "ksid_info_linked_list (config w0)")
      case None
      with True l L ksid show ?thesis by (simp add: open_def)
    next
      case (Some head)
      have "oc_search (Suc (nxt w0)) head src dst w0 = Inr (False, last is)"
        using oc_search_path [of w0 head "is" ss src S dst D "Suc (nxt w0)"] w0(3-5) Some True
          registry_fuel [OF w0(3)] by (simp add: registry_def del: oc_search.simps)
      with Some True l L ksid show ?thesis
        by (simp add: open_def del: oc_search.simps)
    qed
    moreover from spec True have "ksid' = ?fresh" "ss' = ss @ [?s]"
      by (auto simp: oc_spec_def)
    moreover obtain w' where "register_ksid L ?l src dst q w0 = Inr (?fresh, w')"
        "registry w' (F \<union> ?A) (is @ [nxt w]) (ss @ [?s])" "wf_mem w'" "no_oom w'" "grows w ?A w'"
        "uuid_draws w' = Suc (uuid_draws w)" "qber (config w') = qber (config w)"
        "device_info (config w') = device_info (config w)"
        "unlinked w is \<subseteq> {..<nxt w} \<longrightarrow> unlinked w' (is @ [nxt w]) = unlinked w is"
      using register_refines [OF w0(1,2) L w0(3-6) refl] unfolding w0(7-9,11,12) by blast
    ultimately show ?thesis
      by (intro exI [of _ w'] exI [of _ ?A] exI [of _ "is @ [nxt w]"]) simp
  next
    case False
    have "?oc = Inr (q, ksid', 0, w0) \<and> ss' = ss"
    proof (cases "ksid = nil_uuid")
      case True
      with False obtain s where s: "find_peer S D ss = Some s"
        by auto
      then have "ss \<noteq> []"
        by (auto simp: find_peer_def)
      then obtain head where head: "ksid_info_linked_list (config w0) = Some head"
        using w0(3) by (cases "is"; cases ss) (auto simp: registry_def)
      then obtain j n where j: "oc_search (Suc (nxt w0)) head src dst w0 = Inr (True, j)"
          "nodes w0 j = Some n" "node_at w0 n s"
        using oc_search_path [of w0 head "is" ss src S dst D "Suc (nxt w0)"] w0(3-5) s
          registry_fuel [OF w0(3)] by (auto simp: registry_def simp del: oc_search.simps)
      then have "uuid_copy L (ki_key_stream_id n) = ks_id s"
        using L by (simp add: node_at_def)
      with head j(1,2) True L s spec show ?thesis
        by (simp add: open_def oc_spec_def del: oc_search.simps)
    next
      case False
      with L ksid spec show ?thesis
        by (simp add: open_def oc_spec_def)
    qed
    then show ?thesis
      using w0(1-3,7,10-12) by (intro exI [of _ w0] exI [of _ "{}"] exI [of _ "is"]) simp
  qed
qed

section \<open>GET\_KEY implements its specification\<close>

lemma gen_requested_key_eq:
  assumes "no_oom w" "node_at w n s" "cbytes w meta_value (ty # role # rest)"
  shows "gen_requested_key R n index meta_value w =
    Inr (\<lparr>bytes_size = key_chunk_size (ks_qos s), bytes_data = Ptr (nxt w) 0\<rparr>,
      (new_block False (stream_key R s index ty role) w)
        \<lparr>rng := (stream_seed (ks_source s) (ks_destination s) index,
                unat (key_chunk_size (ks_qos s)))\<rparr>)"
proof -
  have n: "key_chunk_size (ki_qos n) = key_chunk_size (ks_qos s)"
      "cstr w (ki_source n) (ks_source s)" "cstr w (ki_destination n) (ks_destination s)"
    using assms(2) by (simp_all add: node_at_def qos_at_def)
  have "load meta_value 1 w = Inr [ty]" "load (padd meta_value 1) 1 w = Inr [role]"
    using cbytes_Cons(1) [OF assms(3)] cbytes_Cons(1) [OF cbytes_Cons(2) [OF assms(3)]] by simp_all
  moreover have "ucast (ucast (key_chunk_size (ks_qos s)) :: size_t) = key_chunk_size (ks_qos s)"
    by simp
  ultimately show ?thesis
    using gen_pseudorandom_key_eq [OF assms(1) n(2,3)] gen_oblivious_pseudorandom_key_eq [OF assms(1) n(2,3)]
    by (simp add: gen_requested_key_def n(1) stream_key_def Let_def)
qed

lemma length_device_info: "finite_float (qber cfg) \<Longrightarrow> length (device_info cfg) \<le> 104"
  using length_fmt_f [of "qber cfg"] length_fmt_d [of "key_rate cfg"]
  by (simp add: device_info_def str_bytes_def)

lemma unat_SSL3 [simp]: "unat SSL3_RT_MAX_PLAIN_LENGTH = 16384"
  by (simp add: SSL3_RT_MAX_PLAIN_LENGTH_def)

lemma gk_search_registry:
  assumes "registry w F is ss" "uuid_laws L" "length ksid = 16"
  shows "case find_stream ksid ss of
      None \<Rightarrow> gk_search L (Suc (nxt w)) (ksid_info_linked_list (config w)) ksid w = Inr None
    | Some s \<Rightarrow> \<exists>i n. gk_search L (Suc (nxt w)) (ksid_info_linked_list (config w)) ksid w = Inr (Some i) \<and>
        nodes w i = Some n \<and> node_at w n s \<and> registry (set_node i (count_up n) w) F is (bump ksid ss)"
proof -
  have own: "owned (set_node i (count_up n) w) is = owned w is" if "nodes w i = Some n" for i n
    using owned_set_node [OF that, of "count_up n"] by (simp add: node_owns_def count_up_def fun_eq_iff)
  show ?thesis
    using gk_search_path [OF assms(2,3), of w _ "is" ss "Suc (nxt w)"] assms(1)
      registry_fuel [OF assms(1)] own
    by (fastforce simp: registry_def simp del: gk_search.simps split: option.splits)
qed

text \<open>The memory after a key was delivered.\<close>

definition key_mem :: "bytes \<Rightarrow> server \<Rightarrow> server" where
  "key_mem k w = new_block False (device_info (config w) @ [0]) (new_block False k w)"

text \<open>The call on a stream of the registry, up to the increment of the counter.\<close>

lemma get_key_exec:
  assumes w: "no_oom w" and L: "uuid_laws L" and reg: "registry w F is ss"
    and ksid: "length ksid = 16" and s: "find_stream ksid ss = Some s"
    and md: "cbytes w (bytes_data md) (ty # role # rest)" and cfg: "finite_float (qber (config w))"
  shows "\<exists>i n. registry (set_node i (count_up n) w) F is (bump ksid ss) \<and> nodes w i = Some n \<and>
    qkd_get_key R L ksid index kb md status w =
      (if ks_index s = 0x7FFFFFFF then Inl SignedOverflow
       else Inr (index, \<lparr>bytes_size = key_chunk_size (ks_qos s), bytes_data = Ptr (nxt w) 0\<rparr>,
           \<lparr>bytes_size = of_nat (length (device_info (config w) @ [0])), bytes_data = Ptr (Suc (nxt w)) 0\<rparr>, 0,
           set_node i (count_up n) ((key_mem (stream_key R s index ty role) w)\<lparr>rng :=
             (stream_seed (ks_source s) (ks_destination s) index, unat (key_chunk_size (ks_qos s)))\<rparr>)))"
proof -
  obtain i n where n: "gk_search L (Suc (nxt w)) (ksid_info_linked_list (config w)) ksid w = Inr (Some i)"
      "nodes w i = Some n" "node_at w n s" "registry (set_node i (count_up n) w) F is (bump ksid ss)"
    using gk_search_registry [OF reg L ksid] s by auto
  let ?k = "stream_key R s index ty role" and ?text = "device_info (config w)"
  have len: "length ?text \<le> 104"
    using cfg by (rule length_device_info)
  define w1 where "w1 = (new_block False ?k w)\<lparr>rng :=
    (stream_seed (ks_source s) (ks_destination s) index, unat (key_chunk_size (ks_qos s)))\<rparr>"
  have w1: "nxt w1 = Suc (nxt w)" "no_oom w1" "config w1 = config w" "nodes w1 = nodes w"
    using w by (simp_all add: w1_def)
  define sz where "sz = (of_nat (length ?text) + 1 :: size_t)"
  have sz: "unat sz = Suc (length ?text)"
    using len unat_of_nat_size [of "Suc (length ?text)"] by (simp add: sz_def add.commute)
  have "unat (ucast sz :: u32) = unat (of_nat (Suc (length ?text)) :: u32)"
    using len by (simp add: unat_ucast_down sz unat_of_nat take_bit_nat_eq_self del: of_nat_Suc)
  then have usz: "ucast sz = (of_nat (length (?text @ [0])) :: u32)"
    by (simp add: word_unat_eq_iff)
  have st: "store (Ptr (nxt w1) 0) (?text @ [0]) (new_block False (junk_bytes (unat sz) w1) w1) =
      Inr (new_block False (?text @ [0]) w1)"
    by (simp add: store_room put_new_block sz)
  have mem: "(key_mem ?k w)\<lparr>rng := (stream_seed (ks_source s) (ks_destination s) index,
      unat (key_chunk_size (ks_qos s)))\<rparr> = new_block False (?text @ [0]) w1"
    by (simp add: key_mem_def w1_def)
  show ?thesis
    unfolding mem
    using gen_requested_key_eq [OF w n(3) md, of R index, folded w1_def] n len st usz
    by (intro exI [of _ i] exI [of _ n])
      (simp add: qkd_get_key_def Let_def malloc_no_oom [OF w1(2)] w1 sz_def [symmetric] count_up_def
        node_at_def del: gk_search.simps)
qed

lemma get_key_refines:
  assumes w: "wf_mem w" "no_oom w" and L: "uuid_laws L" and reg: "registry w F is ss"
    and ksid: "length ksid = 16" and s: "find_stream ksid ss = Some s"
    and md: "cbytes w (bytes_data md) (ty # role # rest)"
    and idx: "ks_index s \<noteq> 0x7FFFFFFF" and cfg: "finite_float (qber (config w))"
  shows "\<exists>w'. qkd_get_key R L ksid index kb md status w =
      Inr (index, \<lparr>bytes_size = key_chunk_size (ks_qos s), bytes_data = Ptr (nxt w) 0\<rparr>,
           \<lparr>bytes_size = of_nat (length (device_info (config w) @ [0])), bytes_data = Ptr (Suc (nxt w)) 0\<rparr>,
           0, w') \<and>
    wf_mem w' \<and> no_oom w' \<and> registry w' F is (bump ksid ss) \<and> grows w {nxt w, Suc (nxt w)} w' \<and>
    uuid_draws w' = uuid_draws w \<and> config w' = config w \<and> dom (nodes w') = dom (nodes w) \<and>
    blocks w' (nxt w) = Some (stream_key R s index ty role) \<and>
    blocks w' (Suc (nxt w)) = Some (device_info (config w) @ [0])"
proof -
  let ?k = "stream_key R s index ty role"
  obtain i n where n: "registry (set_node i (count_up n) w) F is (bump ksid ss)" "nodes w i = Some n"
    and run: "qkd_get_key R L ksid index kb md status w =
      Inr (index, \<lparr>bytes_size = key_chunk_size (ks_qos s), bytes_data = Ptr (nxt w) 0\<rparr>,
         \<lparr>bytes_size = of_nat (length (device_info (config w) @ [0])), bytes_data = Ptr (Suc (nxt w)) 0\<rparr>, 0,
         set_node i (count_up n) ((key_mem ?k w)\<lparr>rng :=
           (stream_seed (ks_source s) (ks_destination s) index, unat (key_chunk_size (ks_qos s)))\<rparr>))"
    using get_key_exec [OF w(2) L reg ksid s md cfg, of R index kb status] idx by auto
  define w' where "w' = set_node i (count_up n) ((key_mem ?k w)\<lparr>rng :=
    (stream_seed (ks_source s) (ks_destination s) index, unat (key_chunk_size (ks_qos s)))\<rparr>)"
  have len: "length (device_info (config w)) \<le> 104"
    using cfg by (rule length_device_info)
  have k: "length ?k = unat (key_chunk_size (ks_qos s))"
    by (simp add: stream_key_def Let_def)
  have "wf_mem w'" "no_oom w'"
    using w len k unat_u32_less [of "key_chunk_size (ks_qos s)"]
    by (simp_all add: w'_def key_mem_def)
  moreover have "registry w' F is (bump ksid ss)"
    by (rule registry_frame [OF n(1)])
      (use registry_owned [OF w(1) reg] in \<open>fastforce simp: w'_def key_mem_def\<close>)+
  moreover have "dom (nodes w') = dom (nodes w)"
    using n(2) by (auto simp: w'_def key_mem_def)
  moreover have "grows w {nxt w, Suc (nxt w)} w'"
    using grows_new_block [OF grows_new_block [OF grows_refl [OF w(1)] w(1)]] w(1) k
      unat_u32_less [of "key_chunk_size (ks_qos s)"]
    by (simp add: w'_def key_mem_def insert_commute)
  ultimately show ?thesis
    using run [folded w'_def] by (intro exI [of _ w']) (simp add: w'_def key_mem_def)
qed

lemma get_key_unknown:
  assumes "uuid_laws L" "registry w F is ss" "length ksid = 16" "find_stream ksid ss = None"
  shows "qkd_get_key R L ksid index kb md status w = Inr (index, kb, md, 3, w)"
  using gk_search_registry [OF assms(2,1,3)] assms(4)
  by (simp add: qkd_get_key_def del: gk_search.simps)

lemma get_key_counter_full:
  assumes "no_oom w" "uuid_laws L" "registry w F is ss" "length ksid = 16" "find_stream ksid ss = Some s"
    "cbytes w (bytes_data md) (ty # role # rest)" "finite_float (qber (config w))" "ks_index s = 0x7FFFFFFF"
  shows "qkd_get_key R L ksid index kb md status w = Inl SignedOverflow"
  using get_key_exec [OF assms(1-7), of R index kb status] assms(8) by auto

text \<open>
  The allocator refuses the key: the call still succeeds, with an empty key, and the counter of the
  stream advances.
\<close>

lemma gen_requested_key_refused:
  assumes "node_at w n s" "cbytes w meta_value (ty # role # rest)"
    and "\<not> alloc_ok w (nxt w) (unat (key_chunk_size (ks_qos s)))"
  shows "gen_requested_key R n index meta_value w = Inr (\<lparr>bytes_size = 0, bytes_data = NULL\<rparr>, w\<lparr>nxt := Suc (nxt w)\<rparr>)"
proof -
  have n: "key_chunk_size (ki_qos n) = key_chunk_size (ks_qos s)"
      "cstr w (ki_source n) (ks_source s)" "cstr w (ki_destination n) (ks_destination s)"
    using assms(1) by (simp_all add: node_at_def qos_at_def)
  have "load meta_value 1 w = Inr [ty]" "load (padd meta_value 1) 1 w = Inr [role]"
    using cbytes_Cons(1) [OF assms(2)] cbytes_Cons(1) [OF cbytes_Cons(2) [OF assms(2)]] by simp_all
  then show ?thesis
    using n assms(3)
    by (simp add: gen_requested_key_def gen_pseudorandom_key_def gen_oblivious_pseudorandom_key_def simple_hash_cstr
        malloc_def Let_def)
qed

lemma get_key_refused:
  assumes w: "wf_mem w" and L: "uuid_laws L" and reg: "registry w F is ss"
    and ksid: "length ksid = 16" and s: "find_stream ksid ss = Some s"
    and md: "cbytes w (bytes_data md) (ty # role # rest)" and cfg: "finite_float (qber (config w))"
    and idx: "ks_index s \<noteq> 0x7FFFFFFF"
    and alloc: "\<not> alloc_ok w (nxt w) (unat (key_chunk_size (ks_qos s)))"
      "alloc_ok w (Suc (nxt w)) (Suc (length (device_info (config w))))"
  shows "\<exists>md' w'. qkd_get_key R L ksid index kb md status w =
      Inr (index, \<lparr>bytes_size = 0, bytes_data = NULL\<rparr>, md', 0, w') \<and>
    bytes_at w' md' (device_info (config w) @ [0]) \<and> registry w' F is (bump ksid ss)"
proof -
  obtain i n where n: "gk_search L (Suc (nxt w)) (ksid_info_linked_list (config w)) ksid w = Inr (Some i)"
      "nodes w i = Some n" "node_at w n s" "registry (set_node i (count_up n) w) F is (bump ksid ss)"
    using gk_search_registry [OF reg L ksid] s by auto
  let ?text = "device_info (config w)"
  have len: "length ?text \<le> 104"
    using cfg by (rule length_device_info)
  define sz where "sz = (of_nat (length ?text) + 1 :: size_t)"
  have sz: "unat sz = Suc (length ?text)"
    using len unat_of_nat_size [of "Suc (length ?text)"] by (simp add: sz_def add.commute)
  then have usz: "unat (ucast sz :: u32) = length (?text @ [0])"
    using len by (simp add: unat_ucast_down)
  define w1 where "w1 = w\<lparr>nxt := Suc (nxt w)\<rparr>"
  have st: "store (Ptr (nxt w1) 0) (?text @ [0]) (new_block False (junk_bytes (unat sz) w1) w1) =
      Inr (new_block False (?text @ [0]) w1)"
    by (simp add: store_room put_new_block sz)
  let ?w' = "set_node i (count_up n) (new_block False (?text @ [0]) w1)"
  have "registry ?w' F is (bump ksid ss)"
    by (rule registry_frame [OF n(4)])
      (use registry_owned [OF w reg] in \<open>fastforce simp: set_node_def w1_def\<close>)+
  moreover have "bytes_at ?w' \<lparr>bytes_size = ucast sz, bytes_data = Ptr (Suc (nxt w)) 0\<rparr> (?text @ [0])"
    using usz by (simp add: bytes_at_def cbytes_def load_def set_node_def w1_def)
  moreover have "qkd_get_key R L ksid index kb md status w = Inr (index, \<lparr>bytes_size = 0, bytes_data = NULL\<rparr>,
      \<lparr>bytes_size = ucast sz, bytes_data = Ptr (Suc (nxt w)) 0\<rparr>, 0, ?w')"
    using gen_requested_key_refused [OF n(3) md alloc(1), of R index, folded w1_def] n(1-3) len st idx alloc(2)
    by (simp add: qkd_get_key_def Let_def malloc_def w1_def sz sz_def [symmetric] count_up_def node_at_def
        del: gk_search.simps)
  ultimately show ?thesis by blast
qed

end
