(* ===== verification/ServerRun.thy ===== *)
theory ServerRun
  imports ServerRegistry Samples
begin

text \<open>
  The server over time: every state it reaches by calls of its three entry points, whatever their
  caller allocates, overwrites and releases of its own memory in between, holds a well-formed registry
  in which no pair of URIs and no identifier occurs twice and which shares no block with the caller;
  what a client that opened a stream gets from it afterwards; and how the keys of the two ends of a
  stream relate.
\<close>

section \<open>Invariants of the specification\<close>

definition peers_distinct :: "key_stream list \<Rightarrow> bool" where
  "peers_distinct ss \<longleftrightarrow> distinct (map (\<lambda>s. (ks_source s, ks_destination s)) ss)"

definition ids_drawn :: "libuuid \<Rightarrow> nat \<Rightarrow> key_stream list \<Rightarrow> bool" where
  "ids_drawn L k ss \<longleftrightarrow>
     distinct (map ks_id ss) \<and> (\<forall>s\<in>set ss. \<exists>i<k. ks_id s = uuid_generate_random L i)"

text \<open>The first \<open>n\<close> results of \<open>uuid_generate_random\<close> are different from each other.\<close>

definition uuid_fresh :: "libuuid \<Rightarrow> nat \<Rightarrow> bool" where
  "uuid_fresh L n \<longleftrightarrow> inj_on (uuid_generate_random L) {..<n}"

text \<open>
  Besides the memory there is a set \<open>U\<close> of blocks that belong to the caller of the server's functions.
  Every live block has exactly one owner, the registry (\<open>F\<close>) or the caller (\<open>U\<close>), and the nodes that
  are not on the list are the given set \<open>N\<close>.
\<close>

definition server_inv :: "libuuid \<Rightarrow> nat set \<Rightarrow> nat set \<Rightarrow> server \<Rightarrow> bool" where
  "server_inv L N U w \<longleftrightarrow>
     wf_mem w \<and> no_oom w \<and> finite_float (qber (config w)) \<and> N \<subseteq> {..<nxt w} \<and>
     (\<exists>F is ss. registry w F is ss \<and> F \<union> U = dom (blocks w) \<and> F \<inter> U = {} \<and> unlinked w is = N \<and>
        peers_distinct ss \<and> (uuid_fresh L (uuid_draws w) \<longrightarrow> ids_drawn L (uuid_draws w) ss))"

section \<open>The reachable states\<close>

text \<open>
  \<open>server_reach R L w0 U w\<close>: from \<open>w0\<close>, where all blocks are the caller's, the state \<open>w\<close> is reached and
  the caller then owns the blocks \<open>U\<close>. The caller is the request handler of \<open>ssl_socket_server.c\<close>, or any
  other program. Between its calls it may allocate a block, which it then owns (\<open>alloc\<close>), end the
  lifetime of a block it owns, by \<open>free\<close> or by leaving the scope of an object (\<open>release\<close>), and write into
  a block it owns (\<open>overwrite\<close>). A call leaves the caller what it owned; GET\_KEY adds the buffers it
  allocated for its results. Nothing is said of who owns the arguments of a call: what the server keeps
  of them is for the server to copy.
\<close>

definition handed_over :: "server \<Rightarrow> server \<Rightarrow> qkd_bytes \<Rightarrow> qkd_bytes \<Rightarrow> nat set" where
  "handed_over w w' kb md =
     {b. blocks w b = None \<and> blocks w' b \<noteq> None \<and> (in_block b (bytes_data kb) \<or> in_block b (bytes_data md))}"

inductive server_reach ::
  "(u32 \<Rightarrow> nat \<Rightarrow> nat) \<Rightarrow> libuuid \<Rightarrow> server \<Rightarrow> nat set \<Rightarrow> server \<Rightarrow> bool"
  for R L w0 where
  start: "server_reach R L w0 (dom (blocks w0)) w0"
| open_connect:
    "server_reach R L w0 U w \<Longrightarrow> cstr w src S \<Longrightarrow> cstr w dst D \<Longrightarrow> qos_at w q Q \<Longrightarrow> length ksid = 16 \<Longrightarrow>
     qkd_open_connect L src dst q ksid status w = Inr (q', ksid', status', w') \<Longrightarrow>
     server_reach R L w0 U w'"
| get_key:
    "server_reach R L w0 U w \<Longrightarrow> length ksid = 16 \<Longrightarrow> cbytes w (bytes_data md) (ty # role # rest) \<Longrightarrow>
     qkd_get_key R L ksid index kb md status w = Inr (index', kb', md', status', w') \<Longrightarrow>
     server_reach R L w0 (U \<union> handed_over w w' kb' md') w'"
| close:
    "server_reach R L w0 U w \<Longrightarrow> qkd_close ksid status w = Inr (status', w') \<Longrightarrow>
     server_reach R L w0 U w'"
| alloc:
    "server_reach R L w0 U w \<Longrightarrow> length c < 2 ^ 64 \<Longrightarrow>
     server_reach R L w0 (insert (nxt w) U) (new_block a c w)"
| release: "server_reach R L w0 U w \<Longrightarrow> b \<in> U \<Longrightarrow> server_reach R L w0 (U - {b}) (kill_block b w)"
| overwrite:
    "server_reach R L w0 U w \<Longrightarrow> b \<in> U \<Longrightarrow> room w b i (length bs) \<Longrightarrow>
     server_reach R L w0 U (put b i bs w)"
| tick: "server_reach R L w0 U w \<Longrightarrow> server_reach R L w0 U (w\<lparr>now := t\<rparr>)"

section \<open>The specification keeps its invariants\<close>

lemma find_peer_None:
  "find_peer S D ss = None \<longleftrightarrow> (S, D) \<notin> set (map (\<lambda>s. (ks_source s, ks_destination s)) ss)"
  by (auto simp: find_peer_def find_None_iff)

lemma oc_spec_peers:
  "peers_distinct ss \<Longrightarrow> oc_spec fresh S D Q ksid ss = (ksid', ss') \<Longrightarrow> peers_distinct ss'"
  by (auto simp: oc_spec_def peers_distinct_def find_peer_None split: if_splits option.splits)

lemma bump_map [simp]:
  "map ks_id (bump ksid ss) = map ks_id ss"
  "map (\<lambda>s. (ks_source s, ks_destination s)) (bump ksid ss) = map (\<lambda>s. (ks_source s, ks_destination s)) ss"
  "length (bump ksid ss) = length ss"
  by (induction ss) auto

lemma ids_drawn_alt:
  "ids_drawn L k ss \<longleftrightarrow>
     distinct (map ks_id ss) \<and> set (map ks_id ss) \<subseteq> uuid_generate_random L ` {..<k}"
  by (auto simp: ids_drawn_def)

lemma bump_inv:
  "peers_distinct ss \<Longrightarrow> peers_distinct (bump ksid ss)"
  "ids_drawn L k ss \<Longrightarrow> ids_drawn L k (bump ksid ss)"
  by (simp_all add: peers_distinct_def ids_drawn_alt del: set_map)

lemma uuid_fresh_mono: "uuid_fresh L n \<Longrightarrow> m \<le> n \<Longrightarrow> uuid_fresh L m"
  unfolding uuid_fresh_def by (erule inj_on_subset) auto

lemma fresh_not_drawn:
  assumes "uuid_fresh L (Suc k)" "ids_drawn L k ss"
  shows "uuid_generate_random L k \<notin> set (map ks_id ss)"
proof
  assume "uuid_generate_random L k \<in> set (map ks_id ss)"
  then obtain i where "i < k" "uuid_generate_random L k = uuid_generate_random L i"
    using assms(2) by (auto simp: ids_drawn_def)
  then show False
    using assms(1) by (auto simp: uuid_fresh_def dest: inj_onD)
qed

lemma oc_spec_ids:
  assumes "uuid_fresh L (k + (length ss' - length ss))" "ids_drawn L k ss"
    and "oc_spec (uuid_generate_random L k) S D Q ksid ss = (ksid', ss')"
  shows "ids_drawn L (k + (length ss' - length ss)) ss'"
proof (cases "ss' = ss")
  case False
  with assms(3) have "ss' = ss @ [\<lparr>ks_id = uuid_generate_random L k, ks_source = S,
      ks_destination = D, ks_qos = Q, ks_index = 0\<rparr>]"
    by (auto simp: oc_spec_def split: if_splits option.splits)
  moreover from this assms(1) have "uuid_generate_random L k \<notin> set (map ks_id ss)"
    by (intro fresh_not_drawn [OF _ assms(2)]) simp
  ultimately show ?thesis
    using assms(2) by (auto simp: ids_drawn_alt lessThan_Suc)
qed (use assms(2) in simp)

lemma find_stream_member:
  "s \<in> set ss \<Longrightarrow> \<exists>t. find_stream (ks_id s) ss = Some t \<and> t \<in> set ss \<and> ks_id t = ks_id s"
  by (induction ss) (auto simp: find_stream_def)

text \<open>A client that asks for a new stream gets the identifier of a stream with its two URIs.\<close>

lemma oc_spec_found:
  assumes "uuid_fresh L (Suc k)" "ids_drawn L k ss"
    and "oc_spec (uuid_generate_random L k) S D Q nil_uuid ss = (ksid', ss')"
  shows "\<exists>s. find_stream ksid' ss' = Some s \<and> s \<in> set ss' \<and> ks_source s = S \<and> ks_destination s = D"
proof (cases "find_peer S D ss")
  case None
  let ?f = "uuid_generate_random L k"
  have "find (\<lambda>s. ks_id s = ?f) (ss @ [t]) = Some t" if "ks_id t = ?f" for t
    using fresh_not_drawn [OF assms(1,2)] that by (induction ss) auto
  with None assms(3) show ?thesis
    by (auto simp: oc_spec_def find_stream_def)
next
  case (Some s)
  then have s: "s \<in> set ss" "ks_source s = S" "ks_destination s = D"
    by (auto simp: find_peer_def find_Some_iff)
  from Some assms(3) have eq: "ksid' = ks_id s" "ss' = ss"
    by (auto simp: oc_spec_def)
  obtain t where t: "find_stream (ks_id s) ss = Some t" "t \<in> set ss" "ks_id t = ks_id s"
    using find_stream_member [OF s(1)] by blast
  with assms(2) s(1) have "t = s"
    by (auto simp: ids_drawn_def distinct_map dest: inj_onD)
  with s t eq show ?thesis by auto
qed

section \<open>The server keeps the invariant\<close>

lemma server_invI:
  "wf_mem w \<Longrightarrow> no_oom w \<Longrightarrow> finite_float (qber (config w)) \<Longrightarrow> N \<subseteq> {..<nxt w} \<Longrightarrow> registry w F is ss \<Longrightarrow>
   F \<union> U = dom (blocks w) \<Longrightarrow> F \<inter> U = {} \<Longrightarrow> unlinked w is = N \<Longrightarrow>
   peers_distinct ss \<Longrightarrow> (uuid_fresh L (uuid_draws w) \<Longrightarrow> ids_drawn L (uuid_draws w) ss) \<Longrightarrow>
   server_inv L N U w"
  unfolding server_inv_def by blast

lemma server_invE:
  assumes "server_inv L N U w"
  obtains F "is" ss where "registry w F is ss" "F \<union> U = dom (blocks w)" "F \<inter> U = {}" "unlinked w is = N"
    "peers_distinct ss" "uuid_fresh L (uuid_draws w) \<Longrightarrow> ids_drawn L (uuid_draws w) ss"
    "wf_mem w" "no_oom w" "finite_float (qber (config w))" "N \<subseteq> {..<nxt w}"
  using assms unfolding server_inv_def by blast

text \<open>What a caller does with blocks of its own does not touch the registry.\<close>

lemma server_inv_caller:
  assumes "server_inv L N U w" "wf_mem w'" "no_oom w'" "nxt w \<le> nxt w'" "config w' = config w"
    "nodes w' = nodes w" "uuid_draws w' = uuid_draws w"
    "\<And>b. b \<notin> U \<Longrightarrow> b < nxt w \<Longrightarrow> blocks w' b = blocks w b"
    "U' = dom (blocks w') - (dom (blocks w) - U)"
  shows "server_inv L N U' w'"
  using assms(1)
proof (rule server_invE)
  fix F "is" ss
  assume r: "registry w F is ss" "F \<union> U = dom (blocks w)" "F \<inter> U = {}" "unlinked w is = N"
    "peers_distinct ss" "uuid_fresh L (uuid_draws w) \<Longrightarrow> ids_drawn L (uuid_draws w) ss"
    "wf_mem w" "finite_float (qber (config w))" "N \<subseteq> {..<nxt w}"
  have F: "blocks w' b = blocks w b" if "b \<in> F" for b
    using that r(3) registry_owned [OF r(7,1) that] assms(8) by blast
  have "registry w' F is ss"
    by (rule registry_frame [OF r(1)]) (simp_all add: assms F)
  moreover have "dom (blocks w) - U = F"
    using r(2,3) by blast
  moreover have "F \<subseteq> dom (blocks w')"
    using F r(2) by fastforce
  moreover have "unlinked w' is = N" "N \<subseteq> {..<nxt w'}"
    using r(4,9) assms(4,6) by (auto simp: unlinked_def)
  ultimately show ?thesis
    using r(5,6,8) assms(2,3,5,7,9) by (intro server_invI) auto
qed

lemma server_inv_owned: "server_inv L N U w \<Longrightarrow> b \<in> U \<Longrightarrow> \<exists>c. blocks w b = Some c"
  by (erule server_invE) blast

lemma server_inv_wf: "server_inv L N U w \<Longrightarrow> wf_mem w" "server_inv L N U w \<Longrightarrow> no_oom w"
  by (simp_all add: server_inv_def)

lemma server_inv_dom: "server_inv L N U w \<Longrightarrow> U \<subseteq> dom (blocks w)"
  by (erule server_invE) blast

lemma server_inv_alloc:
  assumes inv: "server_inv L N U w" and c: "length c < 2 ^ 64"
  shows "server_inv L N (insert (nxt w) U) (new_block a c w)"
proof -
  have "nxt w \<notin> dom (blocks w)"
    using server_inv_wf(1) [OF inv] by (auto dest: wf_mem_live)
  then have "insert (nxt w) U = dom (blocks (new_block a c w)) - (dom (blocks w) - U)"
    using server_inv_dom [OF inv] by (auto split: if_splits)
  then show ?thesis
    using server_inv_wf [OF inv] c by (intro server_inv_caller [OF inv]) simp_all
qed

lemma server_inv_release:
  assumes inv: "server_inv L N U w" and b: "b \<in> U"
  shows "server_inv L N (U - {b}) (kill_block b w)"
proof -
  have "U - {b} = dom (blocks (kill_block b w)) - (dom (blocks w) - U)"
    using server_inv_dom [OF inv] b by (auto split: if_splits)
  then show ?thesis
    using server_inv_wf [OF inv] b by (intro server_inv_caller [OF inv]) auto
qed

lemma server_inv_overwrite:
  assumes inv: "server_inv L N U w" and b: "b \<in> U" "room w b i (length bs)"
  shows "server_inv L N U (put b i bs w)"
proof -
  have "U = dom (blocks (put b i bs w)) - (dom (blocks w) - U)"
    using server_inv_dom [OF inv] by (auto split: if_splits)
  then show ?thesis
    using server_inv_wf [OF inv] b by (intro server_inv_caller [OF inv]) auto
qed

lemma server_inv_tick:
  assumes inv: "server_inv L N U w"
  shows "server_inv L N U (w\<lparr>now := t\<rparr>)"
proof -
  have "U = dom (blocks w) - (dom (blocks w) - U)"
    using server_inv_dom [OF inv] by blast
  then show ?thesis
    using server_inv_wf [OF inv] by (intro server_inv_caller [OF inv]) (simp_all add: wf_mem_def no_oom_def)
qed

lemma grows_dom: "wf_mem w \<Longrightarrow> grows w A w' \<Longrightarrow> dom (blocks w') = dom (blocks w) \<union> A"
  unfolding grows_def dom_def by (auto dest: wf_mem_live simp: not_less [symmetric])

lemma server_inv_open_connect:
  assumes "server_inv L N U w" "uuid_laws L" "cstr w src S" "cstr w dst D" "qos_at w q Q"
    "length ksid = 16" "qkd_open_connect L src dst q ksid status w = Inr (q', ksid', status', w')"
  shows "server_inv L N U w'"
  using assms(1)
proof (rule server_invE)
  fix F "is" ss
  assume r: "registry w F is ss" "F \<union> U = dom (blocks w)" "F \<inter> U = {}" "unlinked w is = N"
    "peers_distinct ss" "uuid_fresh L (uuid_draws w) \<Longrightarrow> ids_drawn L (uuid_draws w) ss"
    "wf_mem w" "no_oom w" "finite_float (qber (config w))" "N \<subseteq> {..<nxt w}"
  obtain k ss' where spec: "oc_spec (uuid_generate_random L (uuid_draws w)) S D Q ksid ss = (k, ss')"
    by (cases "oc_spec (uuid_generate_random L (uuid_draws w)) S D Q ksid ss")
  obtain A is' where w': "wf_mem w'" "no_oom w'" "registry w' (F \<union> A) is' ss'" "grows w A w'"
      "uuid_draws w' = uuid_draws w + (length ss' - length ss)" "qber (config w') = qber (config w)"
      "unlinked w is \<subseteq> {..<nxt w} \<longrightarrow> unlinked w' is' = unlinked w is"
    using open_connect_refines [OF r(7,8) assms(2) r(1) assms(3-6) spec, of status] assms(7) by auto
  have "ids_drawn L (uuid_draws w') ss'" if "uuid_fresh L (uuid_draws w')"
    using oc_spec_ids [OF _ r(6) spec] uuid_fresh_mono [OF that, of "uuid_draws w"] that w'(5)
    by simp
  moreover have "A \<inter> dom (blocks w) = {}"
    using grows_new [OF w'(4)] wf_mem_live [OF r(7)] by fastforce
  then have "F \<union> A \<union> U = dom (blocks w')" "(F \<union> A) \<inter> U = {}"
    using grows_dom [OF r(7) w'(4)] r(2,3) by blast+
  moreover have "N \<subseteq> {..<nxt w'}"
    using r(10) grows_le [OF w'(4)] by auto
  ultimately show ?thesis
    using oc_spec_peers [OF r(5) spec] r(4,9,10) w'(1-3,6,7)
    by (intro server_invI [of w' N "F \<union> A" is' ss']) simp_all
qed

lemma server_inv_get_key:
  assumes "server_inv L N U w" "uuid_laws L" "length ksid = 16" "cbytes w (bytes_data md) (ty # role # rest)"
    "qkd_get_key R L ksid index kb md status w = Inr (index', kb', md', status', w')"
  shows "server_inv L N (U \<union> handed_over w w' kb' md') w'"
  using assms(1)
proof (rule server_invE)
  fix F "is" ss
  assume r: "registry w F is ss" "F \<union> U = dom (blocks w)" "F \<inter> U = {}" "unlinked w is = N"
    "peers_distinct ss" "uuid_fresh L (uuid_draws w) \<Longrightarrow> ids_drawn L (uuid_draws w) ss"
    "wf_mem w" "no_oom w" "finite_float (qber (config w))" "N \<subseteq> {..<nxt w}"
  show ?thesis
  proof (cases "find_stream ksid ss")
    case None
    with get_key_unknown [OF assms(2) r(1) assms(3)] assms(5) have "w' = w"
      by simp
    moreover have "handed_over w w kb' md' = {}"
      by (auto simp: handed_over_def)
    ultimately show ?thesis
      using assms(1) by simp
  next
    case (Some s)
    have "ks_index s \<noteq> 0x7FFFFFFF"
      using get_key_counter_full [OF r(8) assms(2) r(1) assms(3) Some assms(4) r(9), of R index kb status]
        assms(5) by auto
    from get_key_refines [OF r(7,8) assms(2) r(1) assms(3) Some assms(4) this r(9), of R index kb status]
    have w': "wf_mem w'" "no_oom w'" "registry w' F is (bump ksid ss)" "uuid_draws w' = uuid_draws w"
        "config w' = config w" "grows w {nxt w, Suc (nxt w)} w'" "dom (nodes w') = dom (nodes w)"
        "bytes_data kb' = Ptr (nxt w) 0" "bytes_data md' = Ptr (Suc (nxt w)) 0"
      using assms(5) by auto
    have d: "dom (blocks w') = dom (blocks w) \<union> {nxt w, Suc (nxt w)}"
      using grows_dom [OF r(7) w'(6)] .
    have "nxt w \<notin> dom (blocks w)" "Suc (nxt w) \<notin> dom (blocks w)"
      using wf_mem_live [OF r(7)] by fastforce+
    then have h: "handed_over w w' kb' md' = {nxt w, Suc (nxt w)}"
      using d by (auto simp: handed_over_def w'(8,9))
    have "nxt w \<notin> F" "Suc (nxt w) \<notin> F"
      using registry_owned [OF r(7,1)] by fastforce+
    then have "F \<union> (U \<union> handed_over w w' kb' md') = dom (blocks w')"
        "F \<inter> (U \<union> handed_over w w' kb' md') = {}"
      using r(2,3) unfolding h d by auto
    moreover have "N \<subseteq> {..<nxt w'}" "unlinked w' is = N"
      using r(4,10) grows_le [OF w'(6)] w'(7) by (auto simp: unlinked_def)
    ultimately show ?thesis
      using r(6,9) bump_inv(1) [OF r(5)] bump_inv(2) [OF r(6)] w'(1-5)
      by (intro server_invI [of w' N F "is" "bump ksid ss"]) simp_all
  qed
qed

lemma server_inv_reach:
  assumes "server_reach R L w0 U w" "server_inv L N (dom (blocks w0)) w0" "uuid_laws L"
  shows "server_inv L N U w"
  using assms(1)
proof (induction rule: server_reach.induct)
  case (open_connect U w src S dst D q Q ksid status q' ksid' status' w')
  from server_inv_open_connect [OF open_connect(7) assms(3) open_connect(2-6)] show ?case .
next
  case (get_key U w ksid md ty role rest index kb status index' kb' md' status' w')
  from server_inv_get_key [OF get_key(5) assms(3) get_key(2-4)] show ?case .
next
  case (close U w ksid status status' w')
  then show ?case by (simp add: qkd_close_def)
qed (simp_all add: assms(2) server_inv_alloc server_inv_release server_inv_overwrite server_inv_tick)

text \<open>The server starts with an empty list and no nodes.\<close>

lemma server_inv_start:
  "wf_mem w \<Longrightarrow> no_oom w \<Longrightarrow> finite_float (qber (config w)) \<Longrightarrow> ksid_info_linked_list (config w) = None \<Longrightarrow>
   nodes w = Map.empty \<Longrightarrow> server_inv L {} (dom (blocks w)) w"
  by (rule server_invI [of w "{}" "{}" "[]" "[]"])
    (simp_all add: registry_def peers_distinct_def ids_drawn_def unlinked_def)

section \<open>Opening a stream and using it\<close>

lemma ks_path_ids: "ks_path w p is ss \<Longrightarrow> s \<in> set ss \<Longrightarrow> length (ks_id s) = 16"
  by (induction w p "is" ss rule: ks_path.induct) (auto simp: node_at_def split: option.splits)

lemma oc_spec_length:
  assumes "registry w F is ss" "uuid_laws L" "length ksid = 16"
    "oc_spec (uuid_generate_random L n) S D Q ksid ss = (ksid', ss')"
  shows "length ksid' = 16"
proof -
  have "length (ks_id s) = 16" if "find_peer S D ss = Some s" for s
    using that assms(1) ks_path_ids [of w _ "is" ss s]
    by (auto simp: find_peer_def find_Some_iff registry_def)
  with assms(2-4) show ?thesis
    by (auto simp: oc_spec_def split: if_splits option.splits)
qed

section \<open>Type safety of the calls\<close>

lemma open_connect_typed:
  assumes "server_inv L N U w" "uuid_laws L" "cstr w src S" "cstr w dst D" "qos_at w q Q" "length ksid = 16"
  shows "\<exists>ksid' w'. qkd_open_connect L src dst q ksid st w = Inr (q, ksid', 0, w') \<and> length ksid' = 16"
proof -
  obtain F "is" ss where r: "registry w F is ss" "wf_mem w" "no_oom w"
    using assms(1) by (auto simp: server_inv_def)
  obtain ksid' ss' where spec: "oc_spec (uuid_generate_random L (uuid_draws w)) S D Q ksid ss = (ksid', ss')"
    by fastforce
  show ?thesis
    using open_connect_refines [OF r(2,3) assms(2) r(1) assms(3-6) spec, of st]
      oc_spec_length [OF r(1) assms(2,6) spec] by blast
qed

lemma get_key_typed:
  assumes "server_inv L N U w" "uuid_laws L" "length ksid = 16" "cbytes w (bytes_data md) (ty # role # rest)"
  shows "qkd_get_key R L ksid index kb md st w = Inl SignedOverflow \<or>
    qkd_get_key R L ksid index kb md st w = Inr (index, kb, md, 3, w) \<or>
    (\<exists>kb' md' w' key info. qkd_get_key R L ksid index kb md st w = Inr (index, kb', md', 0, w') \<and>
       bytes_at w' kb' key \<and> bytes_at w' md' info)"
proof -
  obtain F "is" ss where r: "registry w F is ss" "wf_mem w" "no_oom w" "finite_float (qber (config w))"
    using assms(1) by (auto simp: server_inv_def)
  show ?thesis
  proof (cases "find_stream ksid ss")
    case None
    then show ?thesis
      using get_key_unknown [OF assms(2) r(1) assms(3)] by simp
  next
    case (Some s)
    show ?thesis
    proof (cases "ks_index s = 0x7FFFFFFF")
      case True
      then show ?thesis
        using get_key_counter_full [OF r(3) assms(2) r(1) assms(3) Some assms(4) r(4)] by simp
    next
      case False
      have len: "length (stream_key R s index ty role) = unat (key_chunk_size (ks_qos s))"
          "length (device_info (config w)) \<le> 104"
        using length_device_info [OF r(4)] by (simp_all add: stream_key_def Let_def)
      from get_key_refines [OF r(2,3) assms(2) r(1) assms(3) Some assms(4) False r(4), of R index kb st]
      obtain w' where w': "qkd_get_key R L ksid index kb md st w =
          Inr (index, \<lparr>bytes_size = key_chunk_size (ks_qos s), bytes_data = Ptr (nxt w) 0\<rparr>,
            \<lparr>bytes_size = of_nat (length (device_info (config w) @ [0])), bytes_data = Ptr (Suc (nxt w)) 0\<rparr>, 0, w')"
          "blocks w' (nxt w) = Some (stream_key R s index ty role)"
          "blocks w' (Suc (nxt w)) = Some (device_info (config w) @ [0])"
        by blast
      have "unat (of_nat (length (device_info (config w) @ [0])) :: u32) = length (device_info (config w) @ [0])"
        using len(2) by (simp add: unat_of_nat take_bit_nat_eq_self del: of_nat_Suc of_nat_add)
      then have "bytes_at w' \<lparr>bytes_size = key_chunk_size (ks_qos s), bytes_data = Ptr (nxt w) 0\<rparr> (stream_key R s index ty role)"
          "bytes_at w' \<lparr>bytes_size = of_nat (length (device_info (config w) @ [0])), bytes_data = Ptr (Suc (nxt w)) 0\<rparr>
             (device_info (config w) @ [0])"
        using w'(2,3) len(1) by (auto simp: bytes_at_def cbytes_def load_def)
      with w'(1) show ?thesis by blast
    qed
  qed
qed

text \<open>The stream that an OPEN\_CONNECT without an identifier leads to is the one GET\_KEY serves.\<close>

lemma open_then_get:
  assumes w: "wf_mem w" "no_oom w" "finite_float (qber (config w))" "registry w F is ss"
    and L: "uuid_laws L" "uuid_fresh L (Suc (uuid_draws w))" "ids_drawn L (uuid_draws w) ss"
    and args: "cstr w src S" "cstr w dst D" "qos_at w q Q"
    and spec: "oc_spec (uuid_generate_random L (uuid_draws w)) S D Q nil_uuid ss = (ksid, ss')"
  shows "\<exists>w1 A is' s. qkd_open_connect L src dst q nil_uuid status w = Inr (q, ksid, 0, w1) \<and>
    registry w1 (F \<union> A) is' ss' \<and> grows w A w1 \<and>
    find_stream ksid ss' = Some s \<and> ks_source s = S \<and> ks_destination s = D \<and>
    (\<forall>md ty role rest R index kb st. cbytes w1 (bytes_data md) (ty # role # rest) \<longrightarrow>
       (if ks_index s = 0x7FFFFFFF then qkd_get_key R L ksid index kb md st w1 = Inl SignedOverflow
        else \<exists>kb' md' w2. qkd_get_key R L ksid index kb md st w1 = Inr (index, kb', md', 0, w2) \<and>
          bytes_at w2 kb' (stream_key R s index ty role)))"
proof -
  obtain w1 A is' where w1: "qkd_open_connect L src dst q nil_uuid status w = Inr (q, ksid, 0, w1)"
      "wf_mem w1" "no_oom w1" "registry w1 (F \<union> A) is' ss'" "grows w A w1" "qber (config w1) = qber (config w)"
    using open_connect_refines [OF w(1,2) L(1) w(4) args length_nil_uuid spec, of status] by auto
  obtain s where s: "find_stream ksid ss' = Some s" "s \<in> set ss'" "ks_source s = S" "ks_destination s = D"
    using oc_spec_found [OF L(2,3) spec] by blast
  have ksid: "length ksid = 16" and cfg: "finite_float (qber (config w1))"
    using s(1) ks_path_ids [of w1 _ is' ss'] w1(4,6) w(3)
    by (auto simp: find_stream_def find_Some_iff registry_def)
  have len: "length (stream_key R s index ty role) = unat (key_chunk_size (ks_qos s))" for R index ty role
    by (simp add: stream_key_def Let_def)
  have "qkd_get_key R L ksid index kb md st w1 = Inl SignedOverflow"
    if "cbytes w1 (bytes_data md) (ty # role # rest)" "ks_index s = 0x7FFFFFFF" for md ty role rest R index kb st
    using get_key_counter_full [OF w1(3) L(1) w1(4) ksid s(1) that(1) cfg that(2)] .
  moreover have "\<exists>kb' md' w2. qkd_get_key R L ksid index kb md st w1 = Inr (index, kb', md', 0, w2) \<and>
      bytes_at w2 kb' (stream_key R s index ty role)"
    if "cbytes w1 (bytes_data md) (ty # role # rest)" "ks_index s \<noteq> 0x7FFFFFFF" for md ty role rest R index kb st
    using get_key_refines [OF w1(2,3) L(1) w1(4) ksid s(1) that cfg, of R index kb st] len [of R index ty role]
    by (fastforce simp: bytes_at_def cbytes_def load_def)
  ultimately show ?thesis
    using w1(1,4,5) s(1,3,4)
    by (intro exI [of _ w1] exI [of _ A] exI [of _ is'] exI [of _ s]) (simp only: if_split, blast)
qed

section \<open>What the receiver of an oblivious key learns\<close>

text \<open>
  Of every byte of the sender's key the receiver gets four bits: those at even positions of the
  bytes with even index, those at odd positions of the others.
\<close>

lemma bit_mask_byte:
  assumes "k < 8"
  shows "bit (mask_byte i b) k \<longleftrightarrow>
    (if even i then odd k \<or> bit b k else even k \<and> bit b (Suc k))"
proof -
  have "k = 0 \<or> k = 1 \<or> k = 2 \<or> k = 3 \<or> k = 4 \<or> k = 5 \<or> k = 6 \<or> k = 7"
    using assms by linarith
  then show ?thesis
    by (auto simp: mask_byte_def bit_simps)
qed

lemma mask_byte_eq_iff:
  "mask_byte i b = mask_byte i b' \<longleftrightarrow> (\<forall>k<4. bit b (2 * k + i mod 2) = bit b' (2 * k + i mod 2))"
proof -
  have "mask_byte i b = mask_byte i b' \<longleftrightarrow> (\<forall>n<8. bit (mask_byte i b) n = bit (mask_byte i b') n)"
    by (auto intro: bit_word_eqI)
  also have "\<dots> \<longleftrightarrow> (\<forall>n<8. even n \<longrightarrow> bit b (n + i mod 2) = bit b' (n + i mod 2))"
    by (cases "even i") (auto simp: bit_mask_byte mod2_eq_if)
  also have "\<dots> \<longleftrightarrow> (\<forall>k<4. bit b (2 * k + i mod 2) = bit b' (2 * k + i mod 2))"
    by (fastforce elim!: evenE)
  finally show ?thesis .
qed

section \<open>Concrete servers\<close>

definition sample_rand :: "u32 \<Rightarrow> nat \<Rightarrow> nat" where
  "sample_rand seed i = (unat seed + 17 * i) mod 2147483648"

definition sample_server :: "bytes list \<Rightarrow> (nat \<times> qkd_ksid_info) list \<Rightarrow> nat option \<Rightarrow> server" where
  "sample_server cs ns head =
     \<lparr>blocks = (\<lambda>i. if i < length cs then Some (cs ! i) else None), autos = (\<lambda>_. False),
      nxt = length cs + length ns, alloc_ok = (\<lambda>_ _. True), junk = (\<lambda>_ _. 0), host_be = False,
      stack_size = 8388608, nodes = map_of ns,
      config = \<lparr>key_rate = 32768, qber = \<lparr>f_num = 16441672, f_scale = 25\<rparr>,
        example_db_name = ''database_file.db'', node_uuid = nil_uuid, ksid_info_linked_list = head\<rparr>,
      rng = (1, 0), now = 1700000000, uuid_draws = 0\<rparr>"

text \<open>A server with one stream, from \<open>src\<close> to \<open>dst\<close>; the last block is free for metadata.\<close>

definition sample_stream :: "bytes \<Rightarrow> bytes \<Rightarrow> u32 \<Rightarrow> key_stream" where
  "sample_stream src dst index =
     \<lparr>ks_id = replicate 16 9, ks_source = src, ks_destination = dst, ks_qos = sample_qos [],
      ks_index = index\<rparr>"

definition one_stream_server :: "bytes \<Rightarrow> bytes \<Rightarrow> bytes \<Rightarrow> u32 \<Rightarrow> server" where
  "one_stream_server src dst md index =
     sample_server [src @ [0], dst @ [0], [0], md]
       [(4, \<lparr>ki_key_stream_id = replicate 16 9, ki_qos = sample_qos (Ptr 2 0), ki_source = Ptr 0 0,
            ki_destination = Ptr 1 0, ki_current_index = index, ki_next = None\<rparr>)] (Some 4)"

lemma sample_server_fields [simp]:
  "blocks (sample_server cs ns h) i = (if i < length cs then Some (cs ! i) else None)"
  "nxt (sample_server cs ns h) = length cs + length ns" "no_oom (sample_server cs ns h)"
  "nodes (sample_server cs ns h) = map_of ns" "uuid_draws (sample_server cs ns h) = 0"
  "finite_float (qber (config (sample_server cs ns h)))"
  "ksid_info_linked_list (config (sample_server cs ns h)) = h"
  by (simp_all add: sample_server_def no_oom_def finite_float_def)

lemma wf_sample_server: "(\<forall>i < length cs. length (cs ! i) < 2 ^ 64) \<Longrightarrow> wf_mem (sample_server cs ns h)"
  by (auto simp: wf_mem_def split: if_splits)

lemma one_stream_server:
  assumes "0 \<notin> set src" "0 \<notin> set dst" "length src < 1000" "length dst < 1000" "length md < 1000"
  shows "wf_mem (one_stream_server src dst md index)" "no_oom (one_stream_server src dst md index)"
    "registry (one_stream_server src dst md index) {0, 1, 2} [4] [sample_stream src dst index]"
    "cbytes (one_stream_server src dst md index) (Ptr 3 0) md"
    "finite_float (qber (config (one_stream_server src dst md index)))"
    "find_stream (replicate 16 9) [sample_stream src dst index] = Some (sample_stream src dst index)"
    "nxt (one_stream_server src dst md index) = 5"
proof -
  let ?w = "one_stream_server src dst md index"
  show "wf_mem ?w"
    using assms unfolding one_stream_server_def by (intro wf_sample_server) (simp add: less_Suc_eq)
  show "no_oom ?w" "nxt ?w = 5" "finite_float (qber (config ?w))"
    by (simp_all add: one_stream_server_def)
  show "find_stream (replicate 16 9) [sample_stream src dst index] = Some (sample_stream src dst index)"
    by (simp add: find_stream_def sample_stream_def)
  show "cbytes ?w (Ptr 3 0) md"
    by (simp add: one_stream_server_def cbytes_def load_def)
  have "cstr ?w (Ptr 0 0) src" "cstr ?w (Ptr 1 0) dst" "cstr ?w (Ptr 2 0) []"
    using assms(1,2) by (simp_all add: one_stream_server_def cstr_def)
  moreover have "owned ?w [4] = {0, 1, 2}"
    by (auto simp: owned_def node_owns_def one_stream_server_def sample_qos_def)
  moreover have "nodes ?w 4 = Some \<lparr>ki_key_stream_id = replicate 16 9, ki_qos = sample_qos (Ptr 2 0),
      ki_source = Ptr 0 0, ki_destination = Ptr 1 0, ki_current_index = index, ki_next = None\<rparr>"
    by (simp add: one_stream_server_def)
  ultimately show "registry ?w {0, 1, 2} [4] [sample_stream src dst index]"
    by (simp add: registry_def node_at_def sample_stream_def qos_at_def sample_qos_def)
       (simp add: one_stream_server_def)
qed

lemma uuid_fresh_sample: "n \<le> 2 ^ 32 \<Longrightarrow> uuid_fresh sample_uuid n"
proof (unfold uuid_fresh_def, rule inj_onI)
  fix i j
  assume n: "n \<le> 2 ^ 32" "i \<in> {..<n}" "j \<in> {..<n}"
    and "uuid_generate_random sample_uuid i = uuid_generate_random sample_uuid j"
  then have "(of_nat i :: u32) = of_nat j"
    by (simp add: sample_uuid_def)
  moreover have "unat (of_nat k :: u32) = k" if "k < 2 ^ 32" for k
    using that by (simp add: unat_of_nat take_bit_nat_eq_self)
  ultimately show "i = j"
    using n by (metis lessThan_iff less_le_trans)
qed

end
