(* ===== verification/ServerService.thy ===== *)
theory ServerService
  imports Servlet ServerRun
begin

text \<open>
  The key management server as an instance of the interface \<open>key_service\<close>: the abstract state
  is the list of streams, the number of identifiers drawn and the device description; the
  interpretation discharges the laws of the interface for the functions of \<open>server_example.c\<close>,
  and with it every transaction of the request handler is known in terms of the specification.
\<close>

section \<open>The abstract server\<close>

record kms =
  kms_draws :: nat
  kms_streams :: "key_stream list"
  kms_info :: bytes

definition kms_rel :: "server \<Rightarrow> nat set \<Rightarrow> kms \<Rightarrow> bool" where
  "kms_rel w F k \<longleftrightarrow>
     (\<exists>is. registry w F is (kms_streams k)) \<and> uuid_draws w = kms_draws k \<and>
     device_info (config w) = kms_info k \<and> finite_float (qber (config w))"

definition kms_open ::
  "libuuid \<Rightarrow> bytes \<Rightarrow> bytes \<Rightarrow> bytes qkd_qos \<Rightarrow> bytes \<Rightarrow> kms \<Rightarrow> bytes \<times> kms" where
  "kms_open L src dst q ksid k =
     (case oc_spec (uuid_generate_random L (kms_draws k)) src dst q ksid (kms_streams k) of
        (ksid', ss) \<Rightarrow>
          (ksid', k\<lparr>kms_streams := ss, kms_draws := kms_draws k + (length ss - length (kms_streams k))\<rparr>))"

definition kms_get ::
  "(u32 \<Rightarrow> nat \<Rightarrow> nat) \<Rightarrow> libuuid \<Rightarrow> bytes \<Rightarrow> u32 \<Rightarrow> bytes \<Rightarrow> kms \<Rightarrow> (bytes \<times> bytes \<times> kms) option" where
  "kms_get R L ksid index md k =
     (case (find_stream ksid (kms_streams k), md) of
        (Some s, ty # role # rest) \<Rightarrow>
          (if ks_index s = 0x7FFFFFFF then None
           else Some (stream_key R s index ty role, kms_info k @ [0],
                      k\<lparr>kms_streams := bump ksid (kms_streams k)\<rparr>))
      | _ \<Rightarrow> None)"

definition kms_unknown :: "bytes \<Rightarrow> kms \<Rightarrow> bool" where
  "kms_unknown ksid k \<longleftrightarrow> find_stream ksid (kms_streams k) = None"

section \<open>The server implements it\<close>

lemma server_more:
  assumes "mem.more w' = mem.more (w :: server)"
  shows "nodes w' = nodes w" "config w' = config w" "uuid_draws w' = uuid_draws w"
  using assms by (cases w; cases w'; simp)+

lemma kms_rel_frame:
  assumes "kms_rel w F k" "nxt w \<le> nxt w'" "mem.more w' = mem.more w"
    "\<And>b. b \<in> F \<Longrightarrow> blocks w' b = blocks w b"
  shows "kms_rel w' F k"
proof -
  obtain "is" where r: "registry w F is (kms_streams k)"
    using assms(1) by (auto simp: kms_rel_def)
  have "registry w' F is (kms_streams k)"
    by (rule registry_frame [OF r]) (simp_all add: assms server_more [OF assms(3)])
  with assms(1) show ?thesis
    by (auto simp: kms_rel_def server_more [OF assms(3)])
qed

lemma kms_open_impl:
  assumes L: "uuid_laws L" and w: "wf_mem w" "no_oom w" "kms_rel w F k"
    and args: "cstr w src S" "cstr w dst D" "qos_at w q Q" "length ksid = 16"
    and step: "kms_open L S D Q ksid k = (ksid', k')"
  shows "\<exists>w' A. qkd_open_connect L src dst q ksid st w = Inr (q, ksid', 0, w') \<and> length ksid' = 16 \<and>
    wf_mem w' \<and> no_oom w' \<and> kms_rel w' (F \<union> A) k' \<and> grows w A w'"
proof -
  obtain "is" where r: "registry w F is (kms_streams k)" "uuid_draws w = kms_draws k"
      "device_info (config w) = kms_info k" "finite_float (qber (config w))"
    using w(3) by (auto simp: kms_rel_def)
  obtain ss where spec: "oc_spec (uuid_generate_random L (uuid_draws w)) S D Q ksid (kms_streams k) = (ksid', ss)"
      and k': "k' = k\<lparr>kms_streams := ss, kms_draws := kms_draws k + (length ss - length (kms_streams k))\<rparr>"
    using step r(2) by (auto simp: kms_open_def split: prod.splits)
  show ?thesis
    using open_connect_refines [OF w(1,2) L r(1) args spec, of st] oc_spec_length [OF r(1) L args(4) spec]
    by (fastforce simp: kms_rel_def k' r(2-4))
qed

lemma kms_get_impl:
  assumes L: "uuid_laws L" and w: "wf_mem w" "no_oom w" "kms_rel w F k" and ksid: "length ksid = 16"
    and md: "cbytes w (bytes_data md) x"
    and step: "kms_get R L ksid index x k = Some (key, info, k')"
  shows "\<exists>w'. qkd_get_key R L ksid index kb md st w =
      Inr (index, blob_struct key (nxt w), blob_struct info (Suc (nxt w)), 0, w') \<and>
    wf_mem w' \<and> no_oom w' \<and> kms_rel w' F k' \<and> grows w {nxt w, Suc (nxt w)} w' \<and>
    blocks w' (nxt w) = Some key \<and> blocks w' (Suc (nxt w)) = Some info \<and>
    valid_bytes key \<and> valid_bytes info"
proof -
  obtain "is" where r: "registry w F is (kms_streams k)" "uuid_draws w = kms_draws k"
      "device_info (config w) = kms_info k" "finite_float (qber (config w))"
    using w(3) by (auto simp: kms_rel_def)
  obtain s ty role rest where s: "find_stream ksid (kms_streams k) = Some s" "x = ty # role # rest"
      "ks_index s \<noteq> 0x7FFFFFFF" "key = stream_key R s index ty role" "info = device_info (config w) @ [0]"
      "k' = k\<lparr>kms_streams := bump ksid (kms_streams k)\<rparr>"
    using step by (auto simp: kms_get_def r(3) split: option.splits list.splits if_splits)
  have len: "length key = unat (key_chunk_size (ks_qos s))"
    by (simp add: s(4) stream_key_def Let_def)
  then have "valid_bytes key" "valid_bytes info" "of_nat (length key) = key_chunk_size (ks_qos s)"
    using unat_u32_less [of "key_chunk_size (ks_qos s)"] length_device_info [OF r(4)]
    by (simp_all add: valid_bytes_def s(5))
  then show ?thesis
    using get_key_refines [OF w(1,2) L r(1) ksid s(1) md [unfolded s(2)] s(3) r(4), of R index kb st]
    by (fastforce simp: kms_rel_def blob_struct_def s(4-6) r)
qed

lemma kms_get_refused:
  "uuid_laws L \<Longrightarrow> kms_rel w F k \<Longrightarrow> length ksid = 16 \<Longrightarrow> kms_unknown ksid k \<Longrightarrow>
   qkd_get_key R L ksid index kb md st w = Inr (index, kb, md, 3, w)"
  by (auto simp: kms_rel_def kms_unknown_def dest: get_key_unknown)

interpretation server: key_service qkd_open_connect "qkd_get_key R" qkd_close kms_rel kms_open
  "kms_get R" kms_unknown for R
proof unfold_locales
  show "b < nxt w" if "wf_mem w" "kms_rel w F k" "b \<in> F" for w F k b
    using that by (auto simp: kms_rel_def intro: registry_owned)
  show "kms_rel w' F k" if "kms_rel w F k" "nxt w \<le> nxt w'" "mem.more w' = mem.more w"
    "\<And>b. b \<in> F \<Longrightarrow> blocks w' b = blocks w b" for w w' F k
    using that by (rule kms_rel_frame)
qed (rule kms_open_impl kms_get_impl kms_get_refused, assumption+ | simp add: qkd_close_def)+

section \<open>Requests\<close>

datatype qkd_request =
    OpenConnect "bytes qkd_open_connect_request"
  | GetKey "bytes qkd_get_key_request"
  | Close qkd_close_request

fun request_packet :: "qkd_request \<Rightarrow> bytes" where
  "request_packet (OpenConnect X) = packet 2 (enc_ocq X)"
| "request_packet (GetKey X) = packet 4 (enc_gkq X)"
| "request_packet (Close X) = packet 8 (enc_clq X)"

text \<open>Requests that have an encoding, fit in the buffers of the receiver, and name a MIME type that can be sent back.\<close>

fun request_ok :: "nat \<Rightarrow> qkd_request \<Rightarrow> bool" where
  "request_ok stack (OpenConnect X) \<longleftrightarrow>
     valid_ocq X \<and> fits_ocq X \<and> length (enc_ocq X) < 2 ^ 31 \<and> length (enc_ocq X) \<le> stack"
| "request_ok stack (GetKey X) \<longleftrightarrow>
     valid_gkq X \<and> length (enc_gkq X) < 2 ^ 31 \<and> length (enc_gkq X) \<le> stack"
| "request_ok stack (Close X) \<longleftrightarrow> valid_clq X"

text \<open>
  What the server answers and how its state changes; \<open>None\<close> when the specification does not say
  (a GET\_KEY without both metadata bytes, on an exhausted counter, or with a key too long to send).
\<close>

fun kms_handle :: "(u32 \<Rightarrow> nat \<Rightarrow> nat) \<Rightarrow> libuuid \<Rightarrow> qkd_request \<Rightarrow> kms \<Rightarrow> (bytes \<times> kms) option" where
  "kms_handle R L (OpenConnect X) k =
     (case kms_open L (ocq_source X) (ocq_destination X) (ocq_qos X) (ocq_key_stream_id X) k of
        (ksid, k') \<Rightarrow> Some (packet 3 (enc_ocs (oc_answer X ksid)), k'))"
| "kms_handle R L (GetKey X) k =
     (let refusal = packet 5 (enc_gks (gk_answer 3 (gkq_index X) [] (gkq_metadata X))) in
      if kms_unknown (gkq_key_stream_id X) k then
        (if length refusal < 2 ^ 31 then Some (refusal, k) else None)
      else
        (case kms_get R L (gkq_key_stream_id X) (gkq_index X) (gkq_metadata X) k of
           None \<Rightarrow> None
         | Some (key, info, k') \<Rightarrow>
             (let answer = packet 5 (enc_gks (gk_answer 0 (gkq_index X) key info)) in
              if length answer < 2 ^ 31 then Some (answer, k') else None)))"
| "kms_handle R L (Close X) k = Some (packet 9 (enc_cls \<lparr>cls_status = 0\<rparr>), k)"

text \<open>
  A sequence of visits: \<open>None\<close> is a peer whose handshake fails, which gets no answer and leaves
  the state as it is.
\<close>

fun kms_run ::
  "(u32 \<Rightarrow> nat \<Rightarrow> nat) \<Rightarrow> libuuid \<Rightarrow> qkd_request option list \<Rightarrow> kms \<Rightarrow>
   (bytes option list \<times> kms) option" where
  "kms_run R L [] k = Some ([], k)"
| "kms_run R L (None # visits) k =
     (case kms_run R L visits k of None \<Rightarrow> None | Some (resps, k') \<Rightarrow> Some (None # resps, k'))"
| "kms_run R L (Some req # visits) k =
     (case kms_handle R L req k of
        None \<Rightarrow> None
      | Some (resp, k') \<Rightarrow>
          (case kms_run R L visits k' of
             None \<Rightarrow> None
           | Some (resps, k'') \<Rightarrow> Some (Some resp # resps, k'')))"

fun_cases kms_run_NoneE: "kms_run R L (None # visits) k = Some r"
  and kms_run_SomeE: "kms_run R L (Some req # visits) k = Some r"

abbreviation server_servlet ::
  "'n openssl \<Rightarrow> (u32 \<Rightarrow> nat \<Rightarrow> nat) \<Rightarrow> libuuid \<Rightarrow> 'n \<Rightarrow> server \<Rightarrow> (server_status_t \<times> 'n \<times> server) res" where
  "server_servlet T R L \<equiv> qkd_servlet T L (qkd_open_connect L) (qkd_get_key R L) qkd_close"

section \<open>Serving one request, and a sequence of connections\<close>

lemma grows_stack: "grows m A m' \<Longrightarrow> stack_size m' = stack_size m"
  by (simp add: grows_def)

lemma servlet_handles:
  assumes T: "tls_records T recs" and c: "recs c = request_packet req # xs"
    and w: "wf_mem w" "no_oom w" "kms_rel w F k" "16 \<le> stack_size w" and L: "uuid_laws L"
    and req: "request_ok (stack_size w) req" and step: "kms_handle R L req k = Some (resp, k')"
  shows "\<exists>c2 w' F' A. recs c2 = xs \<and> server_servlet T R L c w =
      Inr (SERVER_LISTENING, snd (SSL_write T c2 (int (length resp)) resp), w') \<and>
    kms_rel w' F' k' \<and> wf_mem w' \<and> no_oom w' \<and> grows w A w'"
proof (cases req)
  case (OpenConnect X)
  obtain ksid where o: "kms_open L (ocq_source X) (ocq_destination X) (ocq_qos X) (ocq_key_stream_id X) k = (ksid, k')"
      "resp = packet 3 (enc_ocs (oc_answer X ksid))"
    using step OpenConnect by (auto split: prod.splits)
  show ?thesis
    using server.handle_open_connect [OF T _ _ _ L w(1-3) _ _ _ o(1), of c xs R] c req w(4) OpenConnect o(2)
    by fastforce
next
  case (GetKey X)
  show ?thesis
  proof (cases "kms_unknown (gkq_key_stream_id X) k")
    case True
    then show ?thesis
      using server.handle_get_key_refused [OF T _ _ _ L w(1-3) _ _ True, of c xs R] c req w(4) GetKey step
      by (fastforce simp: Let_def split: if_splits)
  next
    case False
    then obtain key info where g: "kms_get R L (gkq_key_stream_id X) (gkq_index X) (gkq_metadata X) k = Some (key, info, k')"
        "resp = packet 5 (enc_gks (gk_answer 0 (gkq_index X) key info))" "length resp < 2 ^ 31"
      using step GetKey by (auto simp: Let_def split: option.splits if_splits)
    then show ?thesis
      using server.handle_get_key [OF T _ _ _ L w(1-3) _ _ g(1), of c xs] c req w(4) GetKey by fastforce
  qed
next
  case (Close X)
  then show ?thesis
    using server.handle_close [OF T _ w(4) L w(1-3), of c X xs R] c req step
    by (fastforce simp: packet_split enc_cls_def length_enc)
qed

text \<open>
  A connection that brings one request, or whose handshake fails; and the state such a connection is
  left in: everything was read and one response was written, or nothing happened after the
  handshake.
\<close>

fun brings :: "'n openssl \<Rightarrow> ('n \<Rightarrow> bytes list) \<Rightarrow> 'n \<Rightarrow> qkd_request option \<Rightarrow> bool" where
  "brings T recs c None \<longleftrightarrow> fst (SSL_accept T c) = -1"
| "brings T recs c (Some req) \<longleftrightarrow>
     fst (SSL_accept T c) \<noteq> -1 \<and> recs (snd (SSL_accept T c)) = [request_packet req]"

fun answered :: "'n openssl \<Rightarrow> ('n \<Rightarrow> bytes list) \<Rightarrow> 'n \<Rightarrow> bytes option \<Rightarrow> bool" where
  "answered T recs c None \<longleftrightarrow> (\<exists>c'. c = hang_up T (snd (SSL_accept T c')))"
| "answered T recs c (Some resp) \<longleftrightarrow>
     (\<exists>c'. recs c' = [] \<and> c = hang_up T (snd (SSL_write T c' (int (length resp)) resp)))"

lemma accept_loop_failed:
  "SSL_new T ctx \<Longrightarrow> SSL_accept T c = (-1, c1) \<Longrightarrow>
   accept_loop T ctx servlet (c # cs) w =
     bind_res (accept_loop T ctx servlet cs w) (\<lambda>(st, done, w). Inr (st, hang_up T c1 # done, w))"
  by (simp add: socket_ssl_init_def)

lemma accept_loop_served:
  "SSL_new T ctx \<Longrightarrow> SSL_accept T c = (r, c1) \<Longrightarrow> r \<noteq> -1 \<Longrightarrow> servlet c1 w = Inr (SERVER_LISTENING, c2, w1) \<Longrightarrow>
   accept_loop T ctx servlet (c # cs) w =
     bind_res (accept_loop T ctx servlet cs w1) (\<lambda>(st, done, w). Inr (st, hang_up T c2 # done, w))"
  by (simp add: socket_ssl_init_def)

lemma accept_loop_runs:
  assumes T: "tls_records T recs" "SSL_new T ctx" and L: "uuid_laws L"
    and "list_all2 (brings T recs) cs visits" "kms_run R L visits k = Some (resps, k')"
    and "wf_mem w" "no_oom w" "kms_rel w F k" "16 \<le> stack_size w"
      "\<forall>req. Some req \<in> set visits \<longrightarrow> request_ok (stack_size w) req"
  shows "\<exists>done w' F'. accept_loop T ctx (server_servlet T R L) cs w = Inr (SERVER_LISTENING, done, w') \<and>
    list_all2 (answered T recs) done resps \<and> kms_rel w' F' k' \<and> wf_mem w' \<and> no_oom w' \<and>
    stack_size w' = stack_size w"
  using assms(4-)
proof (induction cs visits arbitrary: k resps w F rule: list_all2_induct)
  case Nil
  then show ?case by auto
next
  case (Cons c cs v visits)
  show ?case
  proof (cases v)
    case None
    then obtain resps' where k1: "kms_run R L visits k = Some (resps', k')" "resps = None # resps'"
      using Cons.prems(1) by (auto elim!: kms_run_NoneE split: option.splits)
    have "\<forall>req. Some req \<in> set visits \<longrightarrow> request_ok (stack_size w) req"
      using Cons.prems(6) by simp
    from Cons.IH [OF k1(1) Cons.prems(2-5) this]
    obtain "done" w' F' where "accept_loop T ctx (server_servlet T R L) cs w = Inr (SERVER_LISTENING, done, w')"
        "list_all2 (answered T recs) done resps'" "kms_rel w' F' k'" "wf_mem w'" "no_oom w'"
        "stack_size w' = stack_size w"
      by blast
    moreover obtain c1 where c1: "SSL_accept T c = (-1, c1)"
      using Cons.hyps(1) None by (cases "SSL_accept T c") simp
    moreover from c1 have "answered T recs (hang_up T c1) None"
      by (auto intro: exI [of _ c])
    ultimately show ?thesis
      using k1(2) accept_loop_failed [OF T(2) c1, of "server_servlet T R L" cs w]
      by (intro exI [of _ "hang_up T c1 # done"] exI [of _ w'] exI [of _ F']) (simp del: accept_loop.simps)
  next
    case (Some req)
    obtain resp k1 resps' where k1: "kms_handle R L req k = Some (resp, k1)"
        "kms_run R L visits k1 = Some (resps', k')" "resps = Some resp # resps'"
      using Cons.prems(1) Some by (auto elim!: kms_run_SomeE split: option.splits)
    obtain r c1 where c1: "SSL_accept T c = (r, c1)" "r \<noteq> -1" "recs c1 = [request_packet req]"
      using Cons.hyps(1) Some by (cases "SSL_accept T c") auto
    obtain c2 w1 F1 A where w1: "recs c2 = []" "server_servlet T R L c1 w =
        Inr (SERVER_LISTENING, snd (SSL_write T c2 (int (length resp)) resp), w1)"
        "kms_rel w1 F1 k1" "wf_mem w1" "no_oom w1" "grows w A w1"
      using servlet_handles [OF T(1) c1(3) Cons.prems(2-5) L _ k1(1)] Cons.prems(6) Some by auto
    obtain "done" w' F' where "accept_loop T ctx (server_servlet T R L) cs w1 = Inr (SERVER_LISTENING, done, w')"
        "list_all2 (answered T recs) done resps'" "kms_rel w' F' k'" "wf_mem w'" "no_oom w'"
        "stack_size w' = stack_size w"
      using Cons.IH [OF k1(2) w1(4,5,3)] Cons.prems(5,6) grows_stack [OF w1(6)] by auto
    moreover have "answered T recs (hang_up T (snd (SSL_write T c2 (int (length resp)) resp))) (Some resp)"
      using w1(1) by auto
    ultimately show ?thesis
      using k1(3) accept_loop_served [OF T(2) c1(1,2), of "server_servlet T R L" w _ w1 cs] w1(2)
      by (intro exI [of _ "hang_up T (snd (SSL_write T c2 (int (length resp)) resp)) # done"] exI [of _ w'] exI [of _ F'])
        (simp del: accept_loop.simps)
  qed
qed

end
