(* ===== verification/Client.thy ===== *)
theory Client
  imports Transport Interfaces
begin

text \<open>
  The remote implementation of the interface, \<open>ssl_socket_client.c\<close>: each call serialises its
  request, opens a connection, sends the packet, receives a header and a payload, and reads the
  response out of the payload. The state of a client is its memory, the state of the network, and
  the connection parameters that \<open>app_context_data\<close> points to.
\<close>

section \<open>State\<close>

record qkd_client_context_data =
  cl_host :: string
  cl_port :: u16
  cl_cert_pem :: "string option"
  cl_key_pem :: "string option"
  cl_peer_ca_pem :: "string option"
  cl_max_proto_version :: int

record 'n client = mem +
  net :: 'n
  cfg :: qkd_client_context_data

section \<open>ssl\_socket\_client.c\<close>

definition client_perform_request ::
  "'n openssl \<Rightarrow> qkd_bytes \<Rightarrow> 'n client \<Rightarrow> (qkd_bytes \<times> 'n client) res" where
  "client_perform_request T request_data w =
     bind_res (socket_client_init T (cl_host (cfg w)) (cl_port (cfg w)) (cl_cert_pem (cfg w))
         (cl_key_pem (cfg w)) (cl_peer_ca_pem (cfg w)) (cl_max_proto_version (cfg w)) (net w)) (\<lambda>(ctx, c).
     bind_res (socket_ssl_send T request_data c w) (\<lambda>c.
     bind_res (socket_ssl_recv T 8 c w) (\<lambda>(header_data, c, w).
     bind_res (qkd_header_from_stream (bytes_data header_data) w) (\<lambda>(header, _).
     bind_res (socket_ssl_recv T (ucast (hdr_payload_size header)) c w) (\<lambda>(payload, c, w).
     Inr (payload, w\<lparr>net := c\<rparr>))))))"

text \<open>
  The first half of each of the three calls, the same statement sequence up to the message:
  build the packet, perform the request, release the packet.
\<close>

definition exchange ::
  "'n openssl \<Rightarrow> u8 \<Rightarrow> ('x \<Rightarrow> 'n client \<Rightarrow> size_t res) \<Rightarrow>
   ('x \<Rightarrow> ptr \<Rightarrow> 'n client \<Rightarrow> (ptr \<times> 'n client) res) \<Rightarrow> 'x \<Rightarrow> 'n client \<Rightarrow> (qkd_bytes \<times> 'n client) res" where
  "exchange T service sizeof to_stream request w =
     bind_res (make_packet service sizeof to_stream request w) (\<lambda>(request_size, request_buf, w).
     bind_res (client_perform_request T \<lparr>bytes_size = ucast request_size, bytes_data = request_buf\<rparr> w)
       (\<lambda>(response_data, w).
     bind_res (if request_buf \<noteq> NULL then free request_buf w else Inr w) (\<lambda>w.
     Inr (response_data, w))))"

definition qkd_open_connect :: "'n openssl \<Rightarrow> libuuid \<Rightarrow> 'n client open_connect_impl" where
  "qkd_open_connect T L src dst q key_stream_id status w =
     (let oc_request = \<lparr>ocq_source = src, ocq_destination = dst, ocq_qos = q,
                        ocq_key_stream_id = uuid_copy L key_stream_id\<rparr> in
     bind_res (exchange T (service_code QKD_SERVICE_OPEN_CONNECT_REQUEST)
         qkd_sizeof_open_connect_request qkd_open_connect_request_to_stream oc_request w) (\<lambda>(response_data, w).
     bind_res (qkd_open_connect_response_from_stream L (bytes_data response_data) w) (\<lambda>(response, _, w).
     bind_res (qkd_copy_qos q (ocs_qos response) w) (\<lambda>(q, w).
     bind_res (if bytes_data response_data \<noteq> NULL then free (bytes_data response_data) w else Inr w) (\<lambda>w.
     Inr (q, uuid_copy L (ocs_key_stream_id response), ocs_status response, w))))))"

definition qkd_get_key :: "'n openssl \<Rightarrow> libuuid \<Rightarrow> 'n client get_key_impl" where
  "qkd_get_key T L key_stream_id index key_buffer metadata status w =
     (let gk_request = \<lparr>gkq_key_stream_id = uuid_copy L key_stream_id, gkq_index = index,
                        gkq_metadata = metadata\<rparr> in
     bind_res (exchange T (service_code QKD_SERVICE_GET_KEY_REQUEST)
         qkd_sizeof_get_key_request qkd_get_key_request_to_stream gk_request w) (\<lambda>(response_data, w).
     bind_res (qkd_get_key_response_from_stream (bytes_data response_data) w) (\<lambda>(response, _, w).
     bind_res (if bytes_data response_data \<noteq> NULL then free (bytes_data response_data) w else Inr w) (\<lambda>w.
     Inr (gks_index response, gks_key_buffer response, gks_metadata response, gks_status response, w)))))"

definition qkd_close :: "'n openssl \<Rightarrow> libuuid \<Rightarrow> 'n client close_impl" where
  "qkd_close T L key_stream_id status w =
     (let cl_request = \<lparr>clq_key_stream_id = uuid_copy L key_stream_id\<rparr> in
     bind_res (exchange T (service_code QKD_SERVICE_CLOSE_REQUEST)
         qkd_sizeof_close_request qkd_close_request_to_stream cl_request w) (\<lambda>(response_data, w).
     bind_res (qkd_close_response_from_stream (bytes_data response_data) w) (\<lambda>(response, _).
     bind_res (if bytes_data response_data \<noteq> NULL then free (bytes_data response_data) w else Inr w) (\<lambda>w.
     Inr (cls_status response, w)))))"

section \<open>Memory and network\<close>

lemma net_commute [simp]:
  "put b i bs (w\<lparr>net := c\<rparr>) = (put b i bs w)\<lparr>net := c\<rparr>"
  "new_block a bs (w\<lparr>net := c\<rparr>) = (new_block a bs w)\<lparr>net := c\<rparr>"
  "kill_block b (w\<lparr>net := c\<rparr>) = (kill_block b w)\<lparr>net := c\<rparr>"
  "str_block s (w\<lparr>net := c\<rparr>) = (str_block s w)\<lparr>net := c\<rparr>"
  "uuid_temp u (w\<lparr>net := c\<rparr>) = (uuid_temp u w)\<lparr>net := c\<rparr>"
  by (simp_all add: put_def new_block_def kill_block_def str_block_def uuid_temp_def)

lemma net_assertions [simp]:
  "wf_mem (w\<lparr>net := c\<rparr>) = wf_mem w" "no_oom (w\<lparr>net := c\<rparr>) = no_oom w"
  "readable (w\<lparr>net := c\<rparr>) b bs = readable w b bs" "grows w0 A (w\<lparr>net := c\<rparr>) = grows w0 A w"
  by (simp_all add: wf_mem_def no_oom_def readable_def grows_def)

lemma client_fields [simp]:
  "net (new_block a bs w) = net w" "cfg (new_block a bs w) = cfg w"
  "net (kill_block b w) = net w" "cfg (kill_block b w) = cfg w"
  by (simp_all add: new_block_def kill_block_def)

text \<open>
  The memory in which a response is read: the request was sent and released, the header and the
  payload of the response were received.
\<close>

definition response_mem :: "bytes \<Rightarrow> qkd_header \<Rightarrow> bytes \<Rightarrow> 'z mem_scheme \<Rightarrow> 'z mem_scheme" where
  "response_mem req h p m =
     kill_block (nxt m) (new_block False p (new_block False (enc_header h) (new_block False req m)))"

lemma response_mem_nxt [simp]: "nxt (response_mem req h p m) = nxt m + 3"
  by (simp add: response_mem_def)

lemma response_mem_facts:
  assumes "wf_mem m" "no_oom m" "length p < 2 ^ 64" "length req < 2 ^ 64"
  shows "readable (response_mem req h p m) (nxt m + 2) p"
    "grows m {nxt m + 1, nxt m + 2} (response_mem req h p m)"
proof -
  let ?q = "new_block False req m"
  let ?h = "new_block False (enc_header h) ?q"
  have w: "wf_mem ?q" "wf_mem ?h" "wf_mem (new_block False p ?h)"
    using assms by (simp_all add: length_enc)
  then show "readable (response_mem req h p m) (nxt m + 2) p"
    using assms(2) by (simp add: readable_def response_mem_def)
  have "grows m {nxt m + 2, nxt m + 1, nxt m} (new_block False p ?h)"
    using grows_new_block [OF grows_new_block [OF grows_new_block [OF grows_refl [OF assms(1)] assms(1)] w(1)] w(2)]
    by simp
  from grows_kill_block [OF this, of "nxt m"]
  show "grows m {nxt m + 1, nxt m + 2} (response_mem req h p m)"
    unfolding response_mem_def by (simp add: insert_commute insert_Diff_if)
qed

text \<open>Taking an OPEN\_CONNECT response over into the variables of the caller.\<close>

lemma ocs_mem_net [simp]: "ocs_mem Y (w\<lparr>net := c\<rparr>) = (ocs_mem Y w)\<lparr>net := c\<rparr>"
  by (simp add: ocs_mem_def)

lemma gks_mem_net [simp]: "gks_mem Y (w\<lparr>net := c\<rparr>) = (gks_mem Y w)\<lparr>net := c\<rparr>"
  by (simp add: gks_mem_def)

lemma grows_kill_old:
  "grows m A m' \<Longrightarrow> b < nxt m \<Longrightarrow> grows (kill_block b m) A (kill_block b m')"
  by (auto simp: grows_def)

definition oc_taken_mem :: "nat \<Rightarrow> nat \<Rightarrow> bytes qkd_open_connect_response \<Rightarrow> 'z mem_scheme \<Rightarrow> 'z mem_scheme" where
  "oc_taken_mem b bq Y m =
     kill_block b (str_block (metadata_mimetype (ocs_qos Y)) (kill_block bq (ocs_mem Y m)))"

lemma oc_taken_mem_client [simp]:
  "net (oc_taken_mem b bq Y w) = net w" "cfg (oc_taken_mem b bq Y w) = cfg w"
  by (simp_all add: oc_taken_mem_def ocs_mem_def str_block_def uuid_temp_def)

lemma oc_taken:
  assumes L: "uuid_laws L" and m: "readable m b (enc_ocs Y)" "grows m0 A m" "b \<in> A" and Y: "valid_ocs Y"
    and q: "metadata_mimetype q = Ptr bq 0" "live m bq" "bq < nxt m0"
  shows "bind_res (qkd_open_connect_response_from_stream L (Ptr b 0) m) (\<lambda>(response, _, m).
      bind_res (qkd_copy_qos q (ocs_qos response) m) (\<lambda>(q, m).
      bind_res (free (Ptr b 0) m) (\<lambda>m.
      Inr (q, uuid_copy L (ocs_key_stream_id response), ocs_status response, m)))) =
    Inr (qos_struct (ocs_qos Y) (Ptr (nxt m + 2) 0), ocs_key_stream_id Y, ocs_status Y, oc_taken_mem b bq Y m)"
    "grows (kill_block bq m0) (A - {b} \<union> {nxt m, nxt m + 2}) (oc_taken_mem b bq Y m)"
    "wf_mem (oc_taken_mem b bq Y m)" "no_oom (oc_taken_mem b bq Y m)"
    "blocks (oc_taken_mem b bq Y m) (nxt m + 2) = Some (metadata_mimetype (ocs_qos Y) @ [0])"
proof -
  let ?s = "metadata_mimetype (ocs_qos Y)" and ?m3 = "ocs_mem Y m"
  let ?m5 = "str_block ?s (kill_block bq ?m3)"
  have dec: "dec_ocs (drop 0 (enc_ocs Y)) = Some (Y, [])"
    using ocs.dec_enc [OF Y, of "[]"] by simp
  note m3 = ocs_result [OF m(1) dec]
  have n3: "nxt ?m3 = nxt m + 2" "qos_at ?m3 (ocs_qos (ocs_struct Y (nxt m))) (ocs_qos Y)" "ocs_status (ocs_struct Y (nxt m)) = ocs_status Y"
      "ocs_key_stream_id (ocs_struct Y (nxt m)) = ocs_key_stream_id Y" "length (ocs_key_stream_id Y) = 16"
      "metadata_mimetype (ocs_qos (ocs_struct Y (nxt m))) = Ptr (nxt m) 0"
    using m3(3) Y by (simp_all add: ocs_at_def valid_ocs_def ocs_struct_def qos_struct_def ocs_mem_def)
  have lt: "bq < nxt m" "b < nxt m" "nxt m0 \<le> b"
    using m q(3) by (auto simp: grows_def readable_def dest: wf_mem_live)
  have q3: "blocks ?m3 bq \<noteq> None" "\<not> autos ?m3 bq"
    using m3(4) lt(1) q(2) by (auto simp: live_def grows_def)
  then have cp: "qkd_copy_qos q (ocs_qos (ocs_struct Y (nxt m))) ?m3 =
      Inr (qos_struct (ocs_qos Y) (Ptr (nxt m + 2) 0), ?m5)"
    using copy_qos_over [OF m3(1,2) n3(2) q(1)] lt(1) n3(1,6) by auto
  have g3: "grows m0 (A \<union> {nxt m}) ?m3"
    using grows_trans [OF m(2) m3(4)] m(1) by (simp add: readable_def)
  have len: "length ?s + 1 < 2 ^ 64"
    using m(1) wf_mem_length [of m b "enc_ocs Y"] by (simp add: readable_def enc_ocs_def length_enc)
  have g5: "grows (kill_block bq m0) (insert (nxt m + 2) (A \<union> {nxt m})) ?m5"
    using grows_str_block [OF grows_kill_old [OF g3 q(3)], of ?s] m3(1) n3(1) by simp
  have w5: "wf_mem ?m5" "no_oom ?m5"
    using m3(1,2) len by (simp_all add: wf_mem_str_block)
  have "free (Ptr b 0) ?m5 = Inr (kill_block b ?m5)"
    using grows_free [OF g5, of b] m(3) by simp
  then show "bind_res (qkd_open_connect_response_from_stream L (Ptr b 0) m) (\<lambda>(response, _, m).
      bind_res (qkd_copy_qos q (ocs_qos response) m) (\<lambda>(q, m).
      bind_res (free (Ptr b 0) m) (\<lambda>m.
      Inr (q, uuid_copy L (ocs_key_stream_id response), ocs_status response, m)))) =
    Inr (qos_struct (ocs_qos Y) (Ptr (nxt m + 2) 0), ocs_key_stream_id Y, ocs_status Y, oc_taken_mem b bq Y m)"
    using cp read_ocs [OF m(1) L, of 0] dec L n3(3-5) by (simp add: oc_taken_mem_def)
  have "grows (kill_block bq m0) (insert (nxt m + 2) (A \<union> {nxt m}) - {b}) (oc_taken_mem b bq Y m)"
    unfolding oc_taken_mem_def using g5 m(3) by (intro grows_kill_block) simp_all
  then show "grows (kill_block bq m0) (A - {b} \<union> {nxt m, nxt m + 2}) (oc_taken_mem b bq Y m)"
    by (rule grows_weaken) (use lt(2) in auto)
  show "wf_mem (oc_taken_mem b bq Y m)" "no_oom (oc_taken_mem b bq Y m)"
    using w5 by (simp_all add: oc_taken_mem_def)
  show "blocks (oc_taken_mem b bq Y m) (nxt m + 2) = Some (?s @ [0])"
    using n3(1) lt(2) by (simp add: oc_taken_mem_def str_block_def)
qed

section \<open>What a call relies on in the network\<close>

text \<open>
  The contract of a client with what it is connected to: as long as \<open>server_at n s\<close>, dialling
  succeeds and opens an empty connection; a request written to it is answered with one record that
  holds what \<open>respond\<close> says, and the state of the server moves accordingly; reading does not
  change that state. The lemmas make no assumption on the version and the service in the header of
  the response, because the code does not look at them.
\<close>

definition dial :: "'n openssl \<Rightarrow> qkd_client_context_data \<Rightarrow> 'n \<Rightarrow> (ssl_ctx \<times> 'n) res" where
  "dial T cf n = socket_client_init T (cl_host cf) (cl_port cf) (cl_cert_pem cf) (cl_key_pem cf)
     (cl_peer_ca_pem cf) (cl_max_proto_version cf) n"

locale request_link =
  fixes T :: "'n openssl"
    and recs :: "'n \<Rightarrow> bytes list"
    and dialled :: "qkd_client_context_data \<Rightarrow> bool"
    and server_at :: "'n \<Rightarrow> 's \<Rightarrow> bool"
    and respond :: "bytes \<Rightarrow> 's \<Rightarrow> (bytes \<times> 's) option"
  assumes records: "tls_records T recs"
    and connects: "dialled cf \<Longrightarrow> server_at n s \<Longrightarrow>
      \<exists>ctx c. dial T cf n = Inr (ctx, c) \<and> server_at c s \<and> recs c = []"
    and delivers: "server_at c s \<Longrightarrow> recs c = [] \<Longrightarrow> respond req s = Some (resp, s') \<Longrightarrow>
      SSL_write T c (int (length req)) req = (r, c') \<Longrightarrow> recs c' = [resp] \<and> server_at c' s'"
    and reads: "server_at c s \<Longrightarrow> server_at (snd (snd (SSL_read T c num))) s"
begin

lemma recv_server:
  "socket_ssl_recv T n c m = Inr (d, c', m') \<Longrightarrow> server_at c s \<Longrightarrow> server_at c' s"
  using recv_keeps [where I = "\<lambda>c. server_at c s"] reads by blast

lemma perform_request:
  assumes net: "dialled (cfg w)" "server_at (net w) s" "respond req s = Some (enc_header h @ p, s')"
    and h: "hdr_payload_size h = of_nat (length p)"
    and p: "p \<noteq> []" "length p < 2 ^ 31" "length p \<le> stack_size w" "8 \<le> stack_size w"
    and w: "wf_mem w" "no_oom w" "blocks w b = Some req" and req: "req \<noteq> []" "length req < 2 ^ 31"
  shows "\<exists>c. client_perform_request T \<lparr>bytes_size = of_nat (length req), bytes_data = Ptr b 0\<rparr> w =
      Inr (\<lparr>bytes_size = of_nat (length p), bytes_data = Ptr (Suc (nxt w)) 0\<rparr>,
        (new_block False p (new_block False (enc_header h) w))\<lparr>net := c\<rparr>) \<and> server_at c s'"
proof -
  let ?h = "new_block False (enc_header h) w"
  obtain ctx c0 where c0: "dial T (cfg w) (net w) = Inr (ctx, c0)" "server_at c0 s" "recs c0 = []"
    using connects [OF net(1,2)] by blast
  let ?c = "snd (SSL_write T c0 (int (length req)) req)"
  have c: "recs ?c = [enc_header h @ p]" "server_at ?c s'"
    using delivers [OF c0(2,3) net(3)] by (metis prod.collapse)+
  have "load (Ptr b 0) (length req) w = Inr req"
    using w(3) by (simp add: load_def)
  note send = send_exact [OF this req, of T c0]
  obtain c1 where c1: "socket_ssl_recv T 8 ?c w = Inr (\<lparr>bytes_size = 8, bytes_data = Ptr (nxt w) 0\<rparr>, c1, ?h)"
      "recs c1 = [p]" "qkd_header_from_stream (Ptr (nxt w) 0) ?h = Inr (h, Ptr (nxt w) 8)"
    using recv_record_header [OF records c(1) w(2,1) p(4)] p(1) by auto
  obtain c2 where c2: "socket_ssl_recv T (ucast (of_nat (length p) :: u32)) c1 ?h =
      Inr (\<lparr>bytes_size = of_nat (length p), bytes_data = Ptr (Suc (nxt w)) 0\<rparr>, c2, new_block False p ?h)"
    using recv_payload [OF records c1(2), of ?h] w(2) p by auto
  have "server_at c2 s'"
    using recv_server [OF c2 recv_server [OF c1(1) c(2)]] .
  with c0(1) send c1(1,3) c2 show ?thesis
    by (auto simp: client_perform_request_def dial_def h)
qed

text \<open>
  A call up to the point where the response is decoded: the packet is built, sent and released,
  and the payload of the response lies in block \<open>nxt w + 2\<close>.
\<close>

lemma exchanged:
  assumes net: "dialled (cfg w)" "server_at (net w) s" "respond (packet sv P) s = Some (enc_header h @ p, s')"
    and h: "hdr_payload_size h = of_nat (length p)"
    and p: "p \<noteq> []" "length p < 2 ^ 31" "length p \<le> stack_size w" "8 \<le> stack_size w"
    and w: "wf_mem w" "no_oom w" and P: "length P + 8 < 2 ^ 31"
    and packed: "make_packet sv sizeof to_stream x w =
        Inr (of_nat (8 + length P), Ptr (nxt w) 0, new_block False (packet sv P) w)"
  shows "\<exists>c. server_at c s' \<and> exchange T sv sizeof to_stream x w =
    Inr (\<lparr>bytes_size = of_nat (length p), bytes_data = Ptr (nxt w + 2) 0\<rparr>,
      (response_mem (packet sv P) h p w)\<lparr>net := c\<rparr>)"
proof -
  let ?req = "packet sv P"
  let ?q = "new_block False ?req w"
  have len: "length ?req = 8 + length P" "?req \<noteq> []"
    by (simp_all add: packet_split packet_def enc_header_def length_enc)
  have u: "ucast (of_nat (8 + length P) :: size_t) = (of_nat (8 + length P) :: u32)"
    using P by (intro ucast_of_nat_64_32) simp
  have "wf_mem ?q"
    using w(1) len(1) P by simp
  then obtain c where c: "client_perform_request T \<lparr>bytes_size = of_nat (8 + length P), bytes_data = Ptr (nxt w) 0\<rparr> ?q =
      Inr (\<lparr>bytes_size = of_nat (length p), bytes_data = Ptr (nxt w + 2) 0\<rparr>,
        (new_block False p (new_block False (enc_header h) ?q))\<lparr>net := c\<rparr>)" "server_at c s'"
    using perform_request [of ?q s ?req h p s' "nxt w"] net h p w(2) len P
    by (auto simp del: of_nat_add)
  have "free (Ptr (nxt w) 0) ((new_block False p (new_block False (enc_header h) ?q))\<lparr>net := c\<rparr>) =
      Inr ((response_mem ?req h p w)\<lparr>net := c\<rparr>)"
    by (simp add: free_live response_mem_def)
  with c packed u show ?thesis
    by (intro exI [of _ c]) (simp add: exchange_def del: of_nat_add)
qed

text \<open>The three calls.\<close>

lemma open_connect_remote:
  assumes L: "uuid_laws L"
    and net: "dialled (cfg w)" "server_at (net w) s"
      "respond (packet 2 (enc_ocq X)) s = Some (enc_header h @ enc_ocs Y, s')"
    and h: "hdr_payload_size h = of_nat (length (enc_ocs Y))"
    and Y: "valid_ocs Y" "length (enc_ocs Y) < 2 ^ 31" "length (enc_ocs Y) \<le> stack_size w" "8 \<le> stack_size w"
    and w: "wf_mem w" "no_oom w"
    and X: "ocq_at w \<lparr>ocq_source = src, ocq_destination = dst, ocq_qos = q, ocq_key_stream_id = ksid\<rparr> X"
      "fits_ocq X" "length (enc_ocq X) + 8 < 2 ^ 31"
    and bq: "metadata_mimetype q = Ptr bq 0" "live w bq"
  shows "\<exists>w'. qkd_open_connect T L src dst q ksid status w =
      Inr (qos_struct (ocs_qos Y) (Ptr (nxt w + 5) 0), ocs_key_stream_id Y, ocs_status Y, w') \<and>
    server_at (net w') s' \<and> cfg w' = cfg w \<and> wf_mem w' \<and> no_oom w' \<and>
    blocks w' (nxt w + 5) = Some (metadata_mimetype (ocs_qos Y) @ [0]) \<and>
    grows (kill_block bq w) {nxt w + 1, nxt w + 3, nxt w + 5} w'"
proof -
  let ?x = "\<lparr>ocq_source = src, ocq_destination = dst, ocq_qos = q, ocq_key_stream_id = ksid\<rparr>"
  let ?m = "response_mem (packet 2 (enc_ocq X)) h (enc_ocs Y) w"
  have ne: "enc_ocs Y \<noteq> []" "length ksid = 16"
    using X(1) by (auto simp: enc_ocs_def enc_u32_def ocq_at_def be_bytes_def le_bytes_def)
  have m: "readable ?m (nxt w + 2) (enc_ocs Y)" "grows w {nxt w + 1, nxt w + 2} ?m"
    using response_mem_facts [OF w, of "enc_ocs Y" "packet 2 (enc_ocq X)" h] Y(2) X(3)
    by (simp_all add: packet_split)
  have bq': "live ?m bq" "bq < nxt w"
    using bq(2) w(1) grows_old [OF m(2), of bq] m(2) by (auto simp: live_def grows_def dest: wf_mem_live)
  note packed = ocq_w.make_packet_exact [OF w X(1,2), of 2]
  have "length (enc_ocq X) < 2 ^ 32"
    using X(3) by simp
  from exchanged [OF net h ne(1) Y(2-4) w X(3) packed [OF this]]
  obtain c where c: "server_at c s'"
      "exchange T 2 qkd_sizeof_open_connect_request qkd_open_connect_request_to_stream ?x w =
        Inr (\<lparr>bytes_size = of_nat (length (enc_ocs Y)), bytes_data = Ptr (nxt w + 2) 0\<rparr>, ?m\<lparr>net := c\<rparr>)"
    by blast
  let ?w = "oc_taken_mem (nxt w + 2) bq Y (?m\<lparr>net := c\<rparr>)"
  have "readable (?m\<lparr>net := c\<rparr>) (nxt w + 2) (enc_ocs Y)" "grows w {nxt w + 1, nxt w + 2} (?m\<lparr>net := c\<rparr>)"
      "live (?m\<lparr>net := c\<rparr>) bq"
    using m bq'(1) by (simp_all add: live_def)
  note t = oc_taken [OF L this(1,2) _ Y(1) bq(1) this(3) bq'(2)]
  have "grows (kill_block bq w) {nxt w + 1, nxt w + 3, nxt w + 5} ?w"
    using t(2) by (rule grows_weaken) auto
  then show ?thesis
    using t(1,3-5) c(1)
    by (intro exI [of _ ?w])
      (simp add: qkd_open_connect_def uuid_copy_id [OF L ne(2)] c(2) response_mem_def eval_nat_numeral)
qed

lemma get_key_remote:
  assumes L: "uuid_laws L"
    and net: "dialled (cfg w)" "server_at (net w) s"
      "respond (packet 4 (enc_gkq X)) s = Some (enc_header h @ enc_gks Y, s')"
    and h: "hdr_payload_size h = of_nat (length (enc_gks Y))"
    and Y: "valid_gks Y" "length (enc_gks Y) < 2 ^ 31" "length (enc_gks Y) \<le> stack_size w" "8 \<le> stack_size w"
    and w: "wf_mem w" "no_oom w"
    and X: "gkq_at w \<lparr>gkq_key_stream_id = ksid, gkq_index = index, gkq_metadata = md\<rparr> X"
      "length (enc_gkq X) + 8 < 2 ^ 31"
  shows "\<exists>w'. qkd_get_key T L ksid index kb md status w =
      Inr (gks_index Y, blob_struct (gks_key_buffer Y) (nxt w + 3), blob_struct (gks_metadata Y) (nxt w + 4),
           gks_status Y, w') \<and>
    server_at (net w') s' \<and> cfg w' = cfg w \<and> wf_mem w' \<and> no_oom w' \<and>
    blocks w' (nxt w + 3) = Some (gks_key_buffer Y) \<and> blocks w' (nxt w + 4) = Some (gks_metadata Y) \<and>
    grows w {nxt w + 1, nxt w + 3, nxt w + 4} w'"
proof -
  let ?x = "\<lparr>gkq_key_stream_id = ksid, gkq_index = index, gkq_metadata = md\<rparr>"
  let ?m = "response_mem (packet 4 (enc_gkq X)) h (enc_gks Y) w"
  let ?r = "kill_block (nxt w + 2) (gks_mem Y ?m)"
  have ne: "enc_gks Y \<noteq> []" "length ksid = 16"
    using X(1) by (auto simp: enc_gks_def enc_u32_def gkq_at_def be_bytes_def le_bytes_def)
  have m: "readable ?m (nxt w + 2) (enc_gks Y)" "grows w {nxt w + 1, nxt w + 2} ?m"
    using response_mem_facts [OF w, of "enc_gks Y" "packet 4 (enc_gkq X)" h] Y(2) X(2)
    by (simp_all add: packet_split)
  have "fits_gkq X" "length (enc_gkq X) < 2 ^ 32"
    using X(2) by (simp_all add: fits_gkq_def fits_bytes_def enc_gkq_def length_enc)
  from exchanged [OF net h ne(1) Y(2-4) w X(2) gkq_w.make_packet_exact [OF w X(1) this]]
  obtain c where c: "server_at c s'"
      "exchange T 4 qkd_sizeof_get_key_request qkd_get_key_request_to_stream ?x w =
        Inr (\<lparr>bytes_size = of_nat (length (enc_gks Y)), bytes_data = Ptr (nxt w + 2) 0\<rparr>, ?m\<lparr>net := c\<rparr>)"
    by blast
  have dec: "dec_gks (drop 0 (enc_gks Y)) = Some (Y, [])"
    using gks.dec_enc [OF Y(1), of "[]"] by simp
  note m3 = gks_result [OF m(1) dec]
  have "readable (?m\<lparr>net := c\<rparr>) (nxt w + 2) (enc_gks Y)"
    using m(1) by simp
  note rd = read_gks [OF this, of 0]
  have g3: "grows w ({nxt w + 1, nxt w + 2} \<union> {nxt w + 3, nxt w + 4}) (gks_mem Y ?m)"
    using grows_trans [OF m(2) m3(4)] m(1) by (simp add: readable_def eval_nat_numeral)
  then have g4: "grows w {nxt w + 1, nxt w + 3, nxt w + 4} ?r"
    by (rule grows_weaken [OF grows_kill_block]) auto
  have "free (Ptr (nxt w + 2) 0) ((gks_mem Y ?m)\<lparr>net := c\<rparr>) = Inr (?r\<lparr>net := c\<rparr>)"
    using grows_free [of w _ "(gks_mem Y ?m)\<lparr>net := c\<rparr>" "nxt w + 2"] g3 by simp
  moreover have "net (?r\<lparr>net := c\<rparr>) = c" "cfg (?r\<lparr>net := c\<rparr>) = cfg w"
      "blocks ?r (nxt w + 3) = Some (gks_key_buffer Y)" "blocks ?r (nxt w + 4) = Some (gks_metadata Y)"
    by (simp_all add: gks_mem_def response_mem_def)
  ultimately show ?thesis
    using c(1) m3(1,2) g4 rd dec
    by (intro exI [of _ "?r\<lparr>net := c\<rparr>"])
      (simp add: qkd_get_key_def uuid_copy_id [OF L ne(2)] c(2) gks_struct_def eval_nat_numeral)
qed

lemma close_remote:
  assumes L: "uuid_laws L"
    and net: "dialled (cfg w)" "server_at (net w) s"
      "respond (packet 8 (enc_clq \<lparr>clq_key_stream_id = ksid\<rparr>)) s = Some (enc_header h @ enc_cls Y, s')"
    and h: "hdr_payload_size h = 4"
    and w: "wf_mem w" "no_oom w" "8 \<le> stack_size w" and ksid: "length ksid = 16"
  shows "\<exists>w'. qkd_close T L ksid status w = Inr (cls_status Y, w') \<and>
    server_at (net w') s' \<and> cfg w' = cfg w \<and> wf_mem w' \<and> no_oom w' \<and> grows w {nxt w + 1} w'"
proof -
  let ?X = "\<lparr>clq_key_stream_id = ksid\<rparr>"
  let ?m = "response_mem (packet 8 (enc_clq ?X)) h (enc_cls Y) w"
  let ?r = "kill_block (nxt w + 2) ?m"
  have len: "length (enc_clq ?X) = 16" "length (enc_cls Y) = 4" "enc_cls Y \<noteq> []"
    using ksid by (simp_all add: enc_clq_def enc_cls_def length_enc enc_u32_def be_bytes_def le_bytes_def)
  have m: "readable ?m (nxt w + 2) (enc_cls Y)" "grows w {nxt w + 1, nxt w + 2} ?m"
    using response_mem_facts [OF w(1,2), of "enc_cls Y" "packet 8 (enc_clq ?X)" h] len
    by (simp_all add: packet_split)
  have "clq_at w ?X ?X" "valid_clq ?X" "length (enc_clq ?X) < 2 ^ 32" "length (enc_clq ?X) + 8 < 2 ^ 31"
      "length (enc_cls Y) < 2 ^ 31" "length (enc_cls Y) \<le> stack_size w"
      "hdr_payload_size h = of_nat (length (enc_cls Y))"
    using ksid len w(3) h by (simp_all add: clq_at_def valid_clq_def)
  with exchanged [OF net _ len(3) _ _ w(3,1,2) _ clq_w.make_packet_exact [OF w(1,2), of ?X ?X]]
  obtain c where c: "server_at c s'"
      "exchange T 8 qkd_sizeof_close_request qkd_close_request_to_stream ?X w =
        Inr (\<lparr>bytes_size = of_nat (length (enc_cls Y)), bytes_data = Ptr (nxt w + 2) 0\<rparr>, ?m\<lparr>net := c\<rparr>)"
    by blast
  have "readable (?m\<lparr>net := c\<rparr>) (nxt w + 2) (enc_cls Y)"
    using m(1) by simp
  from read_cls [OF this, of 0]
  have rd: "qkd_close_response_from_stream (Ptr (nxt w + 2) 0) (?m\<lparr>net := c\<rparr>) = Inr (Y, Ptr (nxt w + 2) 4)"
    using cls.dec_enc [of Y "[]"] len by (simp add: valid_any_def)
  have "grows w {nxt w + 1} ?r"
    using grows_kill_block [OF m(2), of "nxt w + 2"] by (simp add: insert_Diff_if)
  moreover have "free (Ptr (nxt w + 2) 0) (?m\<lparr>net := c\<rparr>) = Inr (?r\<lparr>net := c\<rparr>)"
    using grows_free [of w _ "?m\<lparr>net := c\<rparr>" "nxt w + 2"] m(2) by simp
  moreover have "wf_mem ?r" "no_oom ?r" "cfg (?r\<lparr>net := c\<rparr>) = cfg w"
    using m(1) by (simp_all add: readable_def response_mem_def)
  ultimately show ?thesis
    using c(1) rd
    by (intro exI [of _ "?r\<lparr>net := c\<rparr>"]) (simp add: qkd_close_def uuid_copy_id [OF L ksid] c(2))
qed

text \<open>
  The same calls through \<open>interfaces.c\<close>, which works on a copy of the quality of service of
  the request. Nothing of the caller is touched; what stays allocated besides the response is the
  header of the response, and for OPEN\_CONNECT the string the response was read into.
\<close>

lemma open_connect_struct_remote:
  assumes L: "uuid_laws L"
    and net: "dialled (cfg w)" "server_at (net w) s"
      "respond (packet 2 (enc_ocq X)) s = Some (enc_header h @ enc_ocs Y, s')"
    and h: "hdr_payload_size h = of_nat (length (enc_ocs Y))"
    and Y: "valid_ocs Y" "length (enc_ocs Y) < 2 ^ 31" "length (enc_ocs Y) \<le> stack_size w" "8 \<le> stack_size w"
    and w: "wf_mem w" "no_oom w" and X: "ocq_at w x X" "fits_ocq X" "length (enc_ocq X) + 8 < 2 ^ 31"
  shows "\<exists>y w'. qkd_open_connect_struct (qkd_open_connect T L) x w = Inr (y, w') \<and> ocs_at w' y Y \<and>
    server_at (net w') s' \<and> cfg w' = cfg w \<and> wf_mem w' \<and> no_oom w' \<and>
    grows w {nxt w + 2, nxt w + 4, nxt w + 6} w'"
proof -
  let ?s = "metadata_mimetype (ocq_qos X)" and ?n = "nxt w"
  let ?w1 = "str_block ?s w" and ?q = "qos_struct (ocq_qos X) (Ptr (nxt w) 0)"
  have X': "qos_at w (ocq_qos x) (ocq_qos X)" "length ?s + 1 < 2 ^ 64" "0 \<notin> set ?s"
    using X(1,3) by (simp_all add: ocq_at_def enc_ocq_def length_enc qos_at_def cstr_def split: ptr.splits option.splits)
  have w1: "wf_mem ?w1" "no_oom ?w1" "live ?w1 ?n" "nxt ?w1 = Suc ?n" "grows w {?n} ?w1"
      "cfg ?w1 = cfg w" "net ?w1 = net w" "stack_size ?w1 = stack_size w"
    using w X'(2) grows_str_block [OF grows_refl [OF w(1)] w(1), of ?s]
    by (simp_all add: wf_mem_str_block live_def) (simp_all add: str_block_def)
  have copy: "qkd_copy_qos zero_qos (ocq_qos x) w = Inr (?q, ?w1)"
    using copy_qos_fresh [OF w X'(1), of zero_qos] by (simp add: zero_qos_def)
  have "ocq_at ?w1 \<lparr>ocq_source = ocq_source x, ocq_destination = ocq_destination x, ocq_qos = ?q,
      ocq_key_stream_id = ocq_key_stream_id x\<rparr> X"
    using X(1) X'(3) w(1) by (auto simp: ocq_at_def str_block_def cstr_new_block valid_qos_def valid_str_def
        intro!: qos_at_struct)
  from open_connect_remote [OF L _ _ net(3) h Y(1,2) _ _ w1(1,2) this X(2,3) _ w1(3), of 0] net(1,2) Y(3,4)
  obtain w' where w': "qkd_open_connect T L (ocq_source x) (ocq_destination x) ?q (ocq_key_stream_id x) 0 ?w1 =
      Inr (qos_struct (ocs_qos Y) (Ptr (?n + 6) 0), ocs_key_stream_id Y, ocs_status Y, w')"
      "server_at (net w') s'" "cfg w' = cfg w" "wf_mem w'" "no_oom w'"
      "blocks w' (?n + 6) = Some (metadata_mimetype (ocs_qos Y) @ [0])"
      "grows (kill_block ?n ?w1) {?n + 2, ?n + 4, ?n + 6} w'"
    by (auto simp: w1 qos_struct_def eval_nat_numeral)
  have "grows w {} (kill_block ?n ?w1)"
    using grows_kill_block [OF w1(5), of ?n] by simp
  from grows_trans [OF this w'(7)] have "grows w {?n + 2, ?n + 4, ?n + 6} w'"
    using w1(1) by simp
  moreover have "ocs_at w' \<lparr>ocs_status = ocs_status Y, ocs_qos = qos_struct (ocs_qos Y) (Ptr (?n + 6) 0),
      ocs_key_stream_id = ocs_key_stream_id Y\<rparr> Y"
    using Y(1) w'(6) by (simp add: ocs_at_def valid_ocs_def qos_at_struct)
  ultimately show ?thesis
    using copy w' by (simp add: qkd_open_connect_struct_def)
qed

lemma get_key_struct_remote:
  assumes L: "uuid_laws L"
    and net: "dialled (cfg w)" "server_at (net w) s"
      "respond (packet 4 (enc_gkq X)) s = Some (enc_header h @ enc_gks Y, s')"
    and h: "hdr_payload_size h = of_nat (length (enc_gks Y))"
    and Y: "valid_gks Y" "length (enc_gks Y) < 2 ^ 31" "length (enc_gks Y) \<le> stack_size w" "8 \<le> stack_size w"
    and w: "wf_mem w" "no_oom w" and X: "gkq_at w x X" "length (enc_gkq X) + 8 < 2 ^ 31"
  shows "\<exists>w'. qkd_get_key_struct (qkd_get_key T L) x w = Inr (gks_struct Y (nxt w + 3), w') \<and>
    gks_at w' (gks_struct Y (nxt w + 3)) Y \<and>
    server_at (net w') s' \<and> cfg w' = cfg w \<and> wf_mem w' \<and> no_oom w' \<and>
    grows w {nxt w + 1, nxt w + 3, nxt w + 4} w'"
proof -
  have "gkq_at w \<lparr>gkq_key_stream_id = gkq_key_stream_id x, gkq_index = gkq_index x, gkq_metadata = gkq_metadata x\<rparr> X"
    using X(1) by (cases x) simp
  from get_key_remote [OF L net h Y w this X(2), of zero_bytes 0]
  obtain w' where w': "qkd_get_key T L (gkq_key_stream_id x) (gkq_index x) zero_bytes (gkq_metadata x) 0 w =
      Inr (gks_index Y, blob_struct (gks_key_buffer Y) (nxt w + 3), blob_struct (gks_metadata Y) (nxt w + 4),
           gks_status Y, w')" "server_at (net w') s'" "cfg w' = cfg w" "wf_mem w'" "no_oom w'"
      "blocks w' (nxt w + 3) = Some (gks_key_buffer Y)" "blocks w' (nxt w + 4) = Some (gks_metadata Y)"
      "grows w {nxt w + 1, nxt w + 3, nxt w + 4} w'"
    by blast
  moreover have "gks_at w' (gks_struct Y (nxt w + 3)) Y"
    using w'(6,7) Y(1) by (simp add: gks_at_def gks_struct_def valid_gks_def bytes_at_block eval_nat_numeral)
  ultimately show ?thesis
    by (simp add: eval_nat_numeral qkd_get_key_struct_def zero_get_key_response_def gks_struct_def)
qed

lemma close_struct_remote:
  assumes L: "uuid_laws L"
    and net: "dialled (cfg w)" "server_at (net w) s"
      "respond (packet 8 (enc_clq x)) s = Some (enc_header h @ enc_cls Y, s')"
    and h: "hdr_payload_size h = 4"
    and w: "wf_mem w" "no_oom w" "8 \<le> stack_size w" and x: "valid_clq x"
  shows "\<exists>w'. qkd_close_struct (qkd_close T L) x w = Inr (Y, w') \<and>
    server_at (net w') s' \<and> cfg w' = cfg w \<and> wf_mem w' \<and> no_oom w' \<and> grows w {nxt w + 1} w'"
proof -
  have "x = \<lparr>clq_key_stream_id = clq_key_stream_id x\<rparr>" "Y = \<lparr>cls_status = cls_status Y\<rparr>"
    by simp_all
  with close_remote [OF L net(1,2) _ h w, of "clq_key_stream_id x" Y s' 0] net(3) x
  show ?thesis
    by (auto simp: qkd_close_struct_def valid_clq_def)
qed

end

end
