(* ===== verification/Deployment.thy ===== *)
theory Deployment
  imports ServerService Client
begin

text \<open>
  Client and server together. OpenSSL and the sockets are a parameter of both programs; here they
  are instantiated by a wire inside the model: what the client writes is cut into TLS records, which
  the server's connection brings, one turn of the server's accept loop runs, and what it wrote is cut
  into the records that the client reads. The interpretation of \<open>request_link\<close> shows that the composition keeps the
  contract of the client with \<open>kms_handle\<close> as the responder, so a remote call of the client
  is a step of the specified server.
\<close>

section \<open>A wire\<close>

record conn =
  c_in :: "bytes list"
  c_out :: "bytes list"

definition read_record :: "int \<Rightarrow> bytes list \<Rightarrow> int \<times> bytes \<times> bytes list" where
  "read_record n xs =
     (case xs of
        [] \<Rightarrow> (0, [], [])
      | x # xs \<Rightarrow> (int (length (take (nat n) x)), take (nat n) x,
                   if length x \<le> nat n then xs else drop (nat n) x # xs))"

definition wire_ssl :: "('n \<Rightarrow> bytes list) \<Rightarrow> (bytes list \<Rightarrow> 'n \<Rightarrow> 'n) \<Rightarrow> (bytes \<Rightarrow> 'n \<Rightarrow> 'n) \<Rightarrow> 'n openssl" where
  "wire_ssl recs set_recs emit =
     \<lparr>SSL_CTX_new = (\<lambda>_. True), SSL_CTX_set_cipher_list = (\<lambda>_. 1), SSL_CTX_use_certificate_file = (\<lambda>_. 1),
      SSL_CTX_use_PrivateKey_file = (\<lambda>_. 1), SSL_CTX_check_private_key = (\<lambda>_ _. 1),
      SSL_CTX_load_verify_locations = (\<lambda>_. 1), SSL_new = (\<lambda>_. True), SSL_get_error = (\<lambda>_ _. SSL_ERROR_SSL),
      SSL_read = (\<lambda>c n. case read_record n (recs c) of (r, bs, xs) \<Rightarrow> (r, bs, set_recs xs c)),
      SSL_write = (\<lambda>c n bs. (n, emit bs c)), SSL_connect = (\<lambda>c. (1, c)), SSL_accept = (\<lambda>c. (1, c)),
      SSL_shutdown = (\<lambda>c. (1, c)), SSL_free = (\<lambda>c. c),
      sys_socket = (\<lambda>c. (3, c)), sys_connect = (\<lambda>host port c. (0, set_recs [] c)), sys_setsockopt = (\<lambda>c. (0, c)),
      sys_bind = (\<lambda>host port c. (0, c)), sys_listen = (\<lambda>c. (0, c)), sys_close = (\<lambda>c. (0, c)), sys_getuid = 1000\<rparr>"

lemma wire_ssl_fields [simp]:
  "SSL_read (wire_ssl recs set_recs emit) c n =
     (case read_record n (recs c) of (r, bs, xs) \<Rightarrow> (r, bs, set_recs xs c))"
  "SSL_write (wire_ssl recs set_recs emit) c n bs = (n, emit bs c)"
  "SSL_accept (wire_ssl recs set_recs emit) c = (1, c)" "SSL_new (wire_ssl recs set_recs emit) ctx"
  "hang_up (wire_ssl recs set_recs emit) c = c"
  by (simp_all add: wire_ssl_def hang_up_def)

lemma wire_ssl_records:
  assumes "\<And>xs c. recs (set_recs xs c) = xs"
  shows "tls_records (wire_ssl recs set_recs emit) recs"
  using assms by (auto simp: tls_records_def read_record_def)

lemma wire_ssl_dial:
  "\<exists>ctx. dial (wire_ssl recs set_recs emit) cf n = Inr (ctx, set_recs [] n)"
  by (auto simp: dial_def socket_client_init_def socket_create_connection_def socket_ssl_context_create_def
      socket_ssl_context_load_certs_def socket_ssl_context_load_peer_CA_def socket_ssl_init_def wire_ssl_def
      Let_def split: option.splits)

lemma read_record_step:
  "x \<noteq> [] \<Longrightarrow> read_record n (x # xs) = (int (length (take (nat n) x)), take (nat n) x,
     if length x \<le> nat n then xs else drop (nat n) x # xs)"
  by (simp add: read_record_def)

text \<open>TLS carries what is written in records of at most \<open>2^14\<close> bytes, the maximal plaintext.\<close>

fun tls_split :: "bytes \<Rightarrow> bytes list" where
  "tls_split bs =
     (if bs = [] then []
      else take (unat SSL3_RT_MAX_PLAIN_LENGTH) bs # tls_split (drop (unat SSL3_RT_MAX_PLAIN_LENGTH) bs))"

declare tls_split.simps [simp del]

lemma tls_split_one: "bs \<noteq> [] \<Longrightarrow> length bs \<le> 16384 \<Longrightarrow> tls_split bs = [bs]"
  by (subst tls_split.simps) (simp add: SSL3_RT_MAX_PLAIN_LENGTH_def tls_split.simps [of "[]"])

lemma tls_split_two:
  assumes "16384 < length bs" "length bs \<le> 32768"
  shows "tls_split bs = [take 16384 bs, drop 16384 bs]"
proof -
  have "tls_split bs = take 16384 bs # tls_split (drop 16384 bs)"
    using assms(1) by (subst tls_split.simps) (auto simp: SSL3_RT_MAX_PLAIN_LENGTH_def)
  then show ?thesis
    using assms by (simp add: tls_split_one)
qed

lemma concat_tls_split: "concat (tls_split bs) = bs"
  by (induction bs rule: tls_split.induct) (subst tls_split.simps, simp)

section \<open>The server at the end of the wire\<close>

abbreviation conn_ssl :: "conn openssl" where
  "conn_ssl \<equiv> wire_ssl c_in (\<lambda>xs c. c\<lparr>c_in := xs\<rparr>) (\<lambda>bs c. c\<lparr>c_out := c_out c @ [bs]\<rparr>)"

text \<open>
  The records of a connection, with an empty one for each record written, so that a connection
  without records is one on which nothing was written yet.
\<close>

definition conn_recs :: "conn \<Rightarrow> bytes list" where
  "conn_recs c = c_in c @ map (\<lambda>_. []) (c_out c)"

lemma conn_records: "tls_records conn_ssl conn_recs"
  unfolding tls_records_def
proof (intro allI impI)
  fix c :: conn and n x xs
  assume "conn_recs c = x # xs" "x \<noteq> []"
  then obtain ys where "c_in c = x # ys" "xs = ys @ map (\<lambda>_. []) (c_out c)"
    by (cases "c_in c") (auto simp: conn_recs_def)
  then show "\<exists>c'. SSL_read conn_ssl c n = (int (length (take (nat n) x)), take (nat n) x, c') \<and>
      conn_recs c' = (if length x \<le> nat n then xs else drop (nat n) x # xs)"
    using \<open>x \<noteq> []\<close> by (simp add: read_record_step conn_recs_def)
qed

record site =
  srv :: server
  inbox :: "bytes list"

definition turn :: "(u32 \<Rightarrow> nat \<Rightarrow> nat) \<Rightarrow> libuuid \<Rightarrow> bytes \<Rightarrow> site \<Rightarrow> site" where
  "turn R L req n =
     (case accept_loop conn_ssl (fresh_ctx ROLE_SERVER 0) (server_servlet conn_ssl R L)
             [\<lparr>c_in = tls_split req, c_out = []\<rparr>] (srv n) of
        Inr (_, [c], w) \<Rightarrow> n\<lparr>srv := w, inbox := concat (map tls_split (c_out c))\<rparr>
      | _ \<Rightarrow> n\<lparr>inbox := []\<rparr>)"

abbreviation site_ssl :: "(u32 \<Rightarrow> nat \<Rightarrow> nat) \<Rightarrow> libuuid \<Rightarrow> site openssl" where
  "site_ssl R L \<equiv> wire_ssl inbox (\<lambda>xs n. n\<lparr>inbox := xs\<rparr>) (turn R L)"

definition site_at :: "libuuid \<Rightarrow> nat \<Rightarrow> site \<Rightarrow> kms \<Rightarrow> bool" where
  "site_at L stack n k \<longleftrightarrow>
     uuid_laws L \<and> wf_mem (srv n) \<and> no_oom (srv n) \<and> stack_size (srv n) = stack \<and> 16 \<le> stack \<and>
     (\<exists>F. kms_rel (srv n) F k)"

text \<open>
  The request a packet holds, when it is one of the three the server knows; and the response, when
  both travel in one record.
\<close>

definition request_of :: "bytes \<Rightarrow> qkd_request option" where
  "request_of bs =
     (case dec_header bs of
        None \<Rightarrow> None
      | Some (h, p) \<Rightarrow>
          (if hdr_service h = 2 then map_option (OpenConnect \<circ> fst) (dec_ocq p)
           else if hdr_service h = 4 then map_option (GetKey \<circ> fst) (dec_gkq p)
           else if hdr_service h = 8 then map_option (Close \<circ> fst) (dec_clq p)
           else None))"

definition site_respond ::
  "(u32 \<Rightarrow> nat \<Rightarrow> nat) \<Rightarrow> libuuid \<Rightarrow> nat \<Rightarrow> bytes \<Rightarrow> kms \<Rightarrow> (bytes \<times> kms) option" where
  "site_respond R L stack bs k =
     (case request_of bs of
        None \<Rightarrow> None
      | Some req \<Rightarrow>
          (if request_packet req = bs \<and> request_ok stack req \<and> length bs \<le> 16384 then
             (case kms_handle R L req k of
                None \<Rightarrow> None
              | Some (resp, k') \<Rightarrow> if resp \<noteq> [] \<and> length resp \<le> 16384 then Some (resp, k') else None)
           else None))"

lemma request_of_packet:
  assumes "request_ok stack req"
  shows "request_of (request_packet req) = Some req"
proof -
  have h: "dec_header (packet s p) = Some (\<lparr>hdr_version = QKD_004_VERSION, hdr_service = s,
      hdr_payload_size = of_nat (length p)\<rparr>, p)" for s p
    using header.dec_enc [of _ p] by (simp add: packet_def valid_any_def)
  show ?thesis
    using assms ocq.dec_enc [of _ "[]"] gkq.dec_enc [of _ "[]"] clq.dec_enc [of _ "[]"]
    by (cases req) (simp_all add: request_of_def h)
qed

lemma packet_nonempty [simp]: "packet service p \<noteq> []" "request_packet req \<noteq> []"
  using packet_split(3) [of service p] packet_split(3) by (auto simp: packet_def enc_header_def elim: request_packet.elims)

lemma turn_handles:
  assumes n: "site_at L stack n k"
    and rq: "req = request_packet rq" "request_ok stack rq" "kms_handle R L rq k = Some (resp, k')"
    and len: "length req \<le> 16384"
  shows "inbox (turn R L req n) = tls_split resp" "site_at L stack (turn R L req n) k'"
proof -
  let ?c = "\<lparr>c_in = tls_split req, c_out = []\<rparr>"
  have split: "tls_split req = [req]"
    using len rq(1) by (auto intro!: tls_split_one)
  obtain F where F: "uuid_laws L" "wf_mem (srv n)" "no_oom (srv n)" "kms_rel (srv n) F k"
      "16 \<le> stack_size (srv n)" "stack_size (srv n) = stack"
    using n by (auto simp: site_at_def)
  have T: "tls_records conn_ssl conn_recs" "SSL_new conn_ssl (fresh_ctx ROLE_SERVER 0)"
    by (simp_all add: conn_records)
  have "list_all2 (brings conn_ssl conn_recs) [?c] [Some rq]" "kms_run R L [Some rq] k = Some ([Some resp], k')"
      "\<forall>rq'. Some rq' \<in> set [Some rq] \<longrightarrow> request_ok (stack_size (srv n)) rq'"
    using rq F(6) by (simp_all add: conn_recs_def split [unfolded rq(1)])
  from accept_loop_runs [OF T F(1) this(1,2) F(2-5) this(3)]
  obtain "done" w' F' where l: "accept_loop conn_ssl (fresh_ctx ROLE_SERVER 0) (server_servlet conn_ssl R L)
      [?c] (srv n) = Inr (SERVER_LISTENING, done, w')"
      "list_all2 (answered conn_ssl conn_recs) done [Some resp]" "kms_rel w' F' k'" "wf_mem w'" "no_oom w'"
      "stack_size w' = stack_size (srv n)"
    by blast
  from l(2) obtain c where "done = [c]" "c_out c = [resp]"
    by (auto simp: list_all2_Cons2 conn_recs_def)
  with l F(1,5,6) show "inbox (turn R L req n) = tls_split resp" "site_at L stack (turn R L req n) k'"
    by (auto simp: turn_def site_at_def)
qed

lemma turn_answers:
  assumes "site_at L stack n k" "site_respond R L stack req k = Some (resp, k')"
  shows "inbox (turn R L req n) = [resp]" "site_at L stack (turn R L req n) k'"
proof -
  obtain rq where rq: "req = request_packet rq" "request_ok stack rq" "kms_handle R L rq k = Some (resp, k')"
      "length req \<le> 16384" "resp \<noteq> []" "length resp \<le> 16384"
    using assms(2) by (auto simp: site_respond_def split: option.splits if_splits)
  then show "inbox (turn R L req n) = [resp]" "site_at L stack (turn R L req n) k'"
    using turn_handles [OF assms(1) rq(1-4)] tls_split_one [OF rq(5,6)] by simp_all
qed

interpretation site: request_link "site_ssl R L" inbox "\<lambda>_. True" "site_at L stack" "site_respond R L stack"
  for R L stack
proof unfold_locales
  show "tls_records (site_ssl R L) inbox"
    by (simp add: wire_ssl_records)
  show "\<exists>ctx c. dial (site_ssl R L) cf n = Inr (ctx, c) \<and> site_at L stack c k \<and> inbox c = []"
    if "site_at L stack n k" for cf n k
    using that wire_ssl_dial [of inbox "\<lambda>xs n. n\<lparr>inbox := xs\<rparr>" "turn R L" cf n] by (auto simp: site_at_def)
  show "site_at L stack (snd (snd (SSL_read (site_ssl R L) c num))) k" if "site_at L stack c k" for c num k
    using that by (simp add: site_at_def split: prod.splits)
qed (auto dest: turn_answers)

section \<open>Remote calls are steps of the specification\<close>

lemma site_request:
  assumes "request_ok stack req" "kms_handle R L req k = Some (resp, k')"
    and "length (request_packet req) \<le> 16384" "resp \<noteq> []" "length resp \<le> 16384"
  shows "site_respond R L stack (request_packet req) k = Some (resp, k')"
  using assms request_of_packet [OF assms(1)] by (simp add: site_respond_def)

lemma site_laws: "site_at L stack n k \<Longrightarrow> uuid_laws L"
  by (simp add: site_at_def)

lemma kms_open_length:
  "site_at L stack n k \<Longrightarrow> length ksid = 16 \<Longrightarrow> kms_open L S D Q ksid k = (ksid', k') \<Longrightarrow> length ksid' = 16"
  by (auto simp: site_at_def kms_rel_def kms_open_def split: prod.splits dest: oc_spec_length)

lemma site_open:
  assumes n: "site_at L stack (net w) k"
    and w: "wf_mem w" "no_oom w" "512 \<le> stack_size w"
    and X: "ocq_at w x X" "fits_ocq X" "length (enc_ocq X) + 8 \<le> 16384" "length (enc_ocq X) \<le> stack"
    and step: "kms_open L (ocq_source X) (ocq_destination X) (ocq_qos X) (ocq_key_stream_id X) k = (ksid, k')"
  shows "\<exists>y w'. qkd_open_connect_struct (Client.qkd_open_connect (site_ssl R L) L) x w = Inr (y, w') \<and>
    ocs_at w' y (oc_answer X ksid) \<and> site_at L stack (net w') k' \<and> cfg w' = cfg w \<and>
    wf_mem w' \<and> no_oom w' \<and> grows w {nxt w + 2, nxt w + 4, nxt w + 6} w'"
proof -
  have v: "valid_ocq X" "length (ocq_key_stream_id X) = 16"
    using ocq_c.at_valid [OF X(1)] X(1) by (simp_all add: ocq_at_def)
  have "length ksid = 16"
    using kms_open_length [OF n v(2) step] .
  then have Y: "valid_ocs (oc_answer X ksid)" "length (enc_ocs (oc_answer X ksid)) \<le> 304"
    using v(1) X(2) by (simp_all add: valid_ocs_def valid_ocq_def oc_answer_def enc_ocs_def length_enc
        fits_ocq_def fits_mime_def)
  have "site_respond R L stack (packet 2 (enc_ocq X)) k = Some (packet 3 (enc_ocs (oc_answer X ksid)), k')"
    using site_request [of stack "OpenConnect X" R L k] v(1) X Y(2) step by (simp add: packet_split(3))
  from site.open_connect_struct_remote [OF site_laws [OF n] _ n this [unfolded packet_def [of 3]] _ Y(1) _ _ _ w(1,2) X(1,2)] Y(2) w(3) X(3)
  show ?thesis by simp
qed

lemma site_get:
  assumes n: "site_at L stack (net w) k"
    and w: "wf_mem w" "no_oom w" "8 \<le> stack_size w"
    and X: "gkq_at w x X" "length (enc_gkq X) + 8 \<le> 16384" "length (enc_gkq X) \<le> stack"
    and step: "kms_get R L (gkq_key_stream_id X) (gkq_index X) (gkq_metadata X) k = Some (key, info, k')"
    and len: "length key + length info + 24 \<le> 16384" "length key + length info + 16 \<le> stack_size w"
  shows "\<exists>w'. qkd_get_key_struct (Client.qkd_get_key (site_ssl R L) L) x w =
      Inr (gks_struct (gk_answer 0 (gkq_index X) key info) (nxt w + 3), w') \<and>
    gks_at w' (gks_struct (gk_answer 0 (gkq_index X) key info) (nxt w + 3)) (gk_answer 0 (gkq_index X) key info) \<and>
    site_at L stack (net w') k' \<and> cfg w' = cfg w \<and>
    wf_mem w' \<and> no_oom w' \<and> grows w {nxt w + 1, nxt w + 3, nxt w + 4} w'"
proof -
  let ?Y = "gk_answer 0 (gkq_index X) key info"
  have v: "valid_gkq X"
    using gkq_c.at_valid [OF X(1)] .
  have Y: "valid_gks ?Y" "length (enc_gks ?Y) = length key + length info + 16"
    using len(1) by (simp_all add: valid_gks_def gk_answer_def valid_bytes_def enc_gks_def length_enc)
  have "\<not> kms_unknown (gkq_key_stream_id X) k"
    using step by (auto simp: kms_unknown_def kms_get_def split: option.splits)
  then have "site_respond R L stack (packet 4 (enc_gkq X)) k = Some (packet 5 (enc_gks ?Y), k')"
    using site_request [of stack "GetKey X" R L k] v X(2,3) step len(1) Y(2)
    by (simp add: packet_split Let_def)
  from site.get_key_struct_remote [OF site_laws [OF n] _ n this [unfolded packet_def [of 5]] _ Y(1) _ _ w(3) w(1,2) X(1)] Y(2) len X(2)
  show ?thesis by simp
qed

lemma site_get_unknown:
  assumes n: "site_at L stack (net w) k"
    and w: "wf_mem w" "no_oom w" "8 \<le> stack_size w"
    and X: "gkq_at w x X" "length (gkq_metadata X) + 32 \<le> 16384" "length (enc_gkq X) \<le> stack"
      "length (gkq_metadata X) + 16 \<le> stack_size w"
    and step: "gkq_key_stream_id X \<notin> set (map ks_id (kms_streams k))"
  shows "\<exists>y w'. qkd_get_key_struct (Client.qkd_get_key (site_ssl R L) L) x w = Inr (y, w') \<and>
    gks_at w' y (gk_answer 3 (gkq_index X) [] (gkq_metadata X)) \<and>
    site_at L stack (net w') k \<and> cfg w' = cfg w \<and>
    wf_mem w' \<and> no_oom w' \<and> grows w {nxt w + 1, nxt w + 3, nxt w + 4} w'"
proof -
  let ?Y = "gk_answer 3 (gkq_index X) [] (gkq_metadata X)"
  have v: "valid_gkq X" "length (enc_gkq X) = 24 + length (gkq_metadata X)"
    using gkq_c.at_valid [OF X(1)] by (simp_all add: valid_gkq_def enc_gkq_def length_enc)
  have Y: "valid_gks ?Y" "length (enc_gks ?Y) = length (gkq_metadata X) + 16"
    using X(2) by (simp_all add: valid_gks_def gk_answer_def valid_bytes_def enc_gks_def length_enc)
  have "kms_unknown (gkq_key_stream_id X) k"
    using step by (force simp: kms_unknown_def find_stream_def find_None_iff)
  then have "site_respond R L stack (packet 4 (enc_gkq X)) k = Some (packet 5 (enc_gks ?Y), k)"
    using site_request [of stack "GetKey X" R L k] v X(2,3) Y(2)
    by (simp add: packet_split Let_def)
  from site.get_key_struct_remote [OF site_laws [OF n] _ n this [unfolded packet_def [of 5]] _ Y(1) _ _ w(3) w(1,2) X(1)] Y(2) X v(2)
  show ?thesis by fastforce
qed

lemma site_close:
  assumes n: "site_at L stack (net w) k"
    and w: "wf_mem w" "no_oom w" "8 \<le> stack_size w" and x: "valid_clq x"
  shows "\<exists>w'. qkd_close_struct (Client.qkd_close (site_ssl R L) L) x w = Inr (\<lparr>cls_status = 0\<rparr>, w') \<and>
    site_at L stack (net w') k \<and> cfg w' = cfg w \<and> wf_mem w' \<and> no_oom w' \<and> grows w {nxt w + 1} w'"
proof -
  have "site_respond R L stack (packet 8 (enc_clq x)) k = Some (packet 9 (enc_cls \<lparr>cls_status = 0\<rparr>), k)"
    using site_request [of stack "Close x" R L k] x
    by (simp add: packet_split(3) enc_clq_def enc_cls_def length_enc valid_clq_def)
  from site.close_struct_remote [OF site_laws [OF n] _ n this [unfolded packet_def [of 9]] _ w x]
  show ?thesis by (simp add: enc_cls_def length_enc)
qed

end
