(* ===== verification/SocketProps.thy ===== *)
theory SocketProps
  imports SslErrors Deployment
begin

text \<open>
  The properties of the TLS sockets: when a receive returns, what it returns on one record, on two
  and on a failing read, and how a context is configured.
\<close>

section \<open>Receiving\<close>

text \<open>
  C24. Receiving terminates: with a peer that always has at least one byte for \<open>SSL_read\<close>, a
  request for \<open>n\<close> bytes (fewer than \<open>2^31\<close> and no more than fit on the stack) returns, with a
  buffer of its own of at most \<open>n\<close> bytes, and of exactly \<open>n\<close> unless \<open>n\<close> is the size of
  a full TLS record.
\<close>

theorem recv_returns:
  assumes "tls_progress T" "0 < unat n" "unat n < 2 ^ 31" "no_oom m" "unat n \<le> stack_size m"
  shows "\<exists>k c' bs. socket_ssl_recv T n c m =
      Inr (\<lparr>bytes_size = ucast k, bytes_data = Ptr (nxt m) 0\<rparr>, c', new_block False bs m) \<and>
    length bs = unat k \<and> k \<le> n \<and> (n \<noteq> SSL3_RT_MAX_PLAIN_LENGTH \<longrightarrow> k = n)"
proof -
  have "n \<noteq> 0" using assms(2) by auto
  obtain buf k c' where r: "recv_loop T n (junk_bytes (unat n) m) 0 c = Some (Inr (buf, k, c'))"
      "length buf = unat n" "k \<le> n" "n \<noteq> SSL3_RT_MAX_PLAIN_LENGTH \<longrightarrow> k = n"
    using recv_loop_total [OF assms(1,3), of 0 "junk_bytes (unat n) m" c] by auto
  have k: "unat k \<le> length buf"
    using r(2,3) by (simp add: word_le_nat_alt)
  then have "store (Ptr (nxt m) 0) (take (unat k) buf) (new_block False (junk_bytes (unat k) m) m) =
      Inr (new_block False (take (unat k) buf) m)"
    by (subst store_room) (simp_all add: put_new_block)
  with r k \<open>n \<noteq> 0\<close> assms(4,5) show ?thesis
    by (intro exI [of _ k] exI [of _ c'] exI [of _ "take (unat k) buf"])
      (simp add: socket_ssl_recv_def Let_def malloc_no_oom)
qed

text \<open>A peer that always has bytes: every read returns what it was asked for.\<close>

definition flood_ssl :: "unit openssl" where
  "flood_ssl = (wire_ssl (\<lambda>_. []) (\<lambda>_ c. c) (\<lambda>_ c. c))\<lparr>SSL_read := (\<lambda>c n. (n, replicate (nat n) 7, c))\<rparr>"

theorem recv_returns_witness:
  "\<exists>bs. socket_ssl_recv flood_ssl 5 () (sample_mem False []) =
      Inr (\<lparr>bytes_size = 5, bytes_data = Ptr 0 0\<rparr>, (), new_block False bs (sample_mem False [])) \<and>
    length bs = 5"
proof -
  have "tls_progress flood_ssl"
    by (simp add: tls_progress_def flood_ssl_def)
  from recv_returns [OF this, of 5 "sample_mem False []" "()"] show ?thesis
    by (auto simp: SSL3_RT_MAX_PLAIN_LENGTH_def)
qed

text \<open>
  Receiving from one record: when the next record holds at least the bytes asked for, they are
  returned in order, and the rest of the record stays for the next call.
\<close>

theorem recv_from_one_record:
  assumes "tls_records T recs" "recs c = x # xs"
    and "0 < unat n" "unat n \<le> length x" "unat n < 2 ^ 31" "no_oom m" "unat n \<le> stack_size m"
  shows "\<exists>c'. socket_ssl_recv T n c m =
      Inr (\<lparr>bytes_size = ucast n, bytes_data = Ptr (nxt m) 0\<rparr>, c', new_block False (take (unat n) x) m) \<and>
    recs c' = (if length x \<le> unat n then xs else drop (unat n) x # xs)"
  using assms by (rule recv_exact)

theorem recv_from_one_record_witness:
  "\<exists>c'. socket_ssl_recv conn_ssl 3 \<lparr>c_in = [[1, 2, 3, 4]], c_out = []\<rparr> (sample_mem False []) =
      Inr (\<lparr>bytes_size = 3, bytes_data = Ptr 0 0\<rparr>, c', new_block False [1, 2, 3] (sample_mem False [])) \<and>
    conn_recs c' = [[4]]"
  using recv_from_one_record [OF conn_records, of "\<lparr>c_in = [[1, 2, 3, 4]], c_out = []\<rparr>" "[1, 2, 3, 4]" "[]" 3
      "sample_mem False []"]
  by (simp add: conn_recs_def)

text \<open>
  A message that arrives in two records is corrupted: the bytes of the second one are written
  over those of the first, the buffer has the right size, and no error is reported.
\<close>

theorem recv_from_two_records_corrupts:
  assumes "tls_records T recs" "recs c = [x, y]" "x \<noteq> []" "y \<noteq> []"
    and "unat n = length x + length y" "unat n < 2 ^ 31" "n \<noteq> SSL3_RT_MAX_PLAIN_LENGTH"
    and "no_oom m" "unat n \<le> stack_size m"
  shows "\<exists>c'. socket_ssl_recv T n c m =
      Inr (\<lparr>bytes_size = ucast n, bytes_data = Ptr (nxt m) 0\<rparr>, c',
        new_block False (write_at 0 y (write_at 0 x (junk_bytes (unat n) m))) m)"
  using assms by (rule recv_two_records)

theorem recv_from_two_records_corrupts_witness:
  "\<exists>c'. socket_ssl_recv conn_ssl 4 \<lparr>c_in = [[1, 2], [3, 4]], c_out = []\<rparr> (sample_mem False []) =
      Inr (\<lparr>bytes_size = 4, bytes_data = Ptr 0 0\<rparr>, c', new_block False [3, 4, 0, 0] (sample_mem False []))"
proof -
  have "junk_bytes 4 (sample_mem False []) = [0, 0, 0, 0]"
    by (simp add: junk_bytes_def sample_mem_def upt_rec)
  then show ?thesis
    using recv_from_two_records_corrupts [OF conn_records, of "\<lparr>c_in = [[1, 2], [3, 4]], c_out = []\<rparr>" "[1, 2]" "[3, 4]" 4
        "sample_mem False []"]
    by (simp add: conn_recs_def SSL3_RT_MAX_PLAIN_LENGTH_def write_at_def)
qed



section \<open>Contexts\<close>

text \<open>
  C26. What a context that was created is configured with: the peer is verified exactly when an
  authority was given, a server then refuses clients without a certificate, the cipher list is
  HIGH, and a server never runs without a certificate and a key that belong together.
\<close>

theorem context_configuration:
  assumes "socket_ssl_context_create T role cert key ca proto = Inr ctx"
  shows "ctx_role ctx = role \<and> ctx_ciphers ctx = ''HIGH'' \<and> ctx_max_proto ctx = proto \<and> ctx_peer_ca ctx = ca \<and>
    ctx_verify ctx =
      (if ca = None then SSL_VERIFY_NONE
       else if role = ROLE_CLIENT then SSL_VERIFY_PEER else SSL_VERIFY_PEER_FAIL_IF_NO_PEER_CERT) \<and>
    (role = ROLE_SERVER \<longrightarrow>
      (\<exists>c k. cert = Some c \<and> key = Some k \<and> ctx_cert ctx = cert \<and> ctx_key ctx = key \<and>
        SSL_CTX_check_private_key T c k \<noteq> 0))"
  using assms
  by (auto simp: socket_ssl_context_create_def socket_ssl_context_load_certs_def
      socket_ssl_context_load_peer_CA_def fresh_ctx_def Let_def bind_res_eq_Inr
      split: if_splits option.splits)

theorem context_configuration_witness:
  "\<exists>ctx. socket_ssl_context_create conn_ssl ROLE_SERVER (Some ''c'') (Some ''k'') (Some ''ca'') 0 = Inr ctx \<and>
    ctx_verify ctx = SSL_VERIFY_PEER_FAIL_IF_NO_PEER_CERT"
proof -
  obtain ctx where "socket_ssl_context_create conn_ssl ROLE_SERVER (Some ''c'') (Some ''k'') (Some ''ca'') 0 = Inr ctx"
    by (simp add: socket_ssl_context_create_def socket_ssl_context_load_certs_def
        socket_ssl_context_load_peer_CA_def Let_def wire_ssl_def)
  with context_configuration [OF this] show ?thesis by simp
qed

text \<open>
  A process without root privileges does not open a port below 1024: the program ends with
  status 0 before any context is created or any connection is accepted, whatever the servlet.
\<close>

theorem privileged_port_refused:
  assumes "port < 1024" "sys_getuid T \<noteq> 0"
  shows "qkd_socket_server_init T L open_connect get_key close host port cert key ca proto c conns m = Inl (Exited 0)"
  using assms by (simp add: qkd_socket_server_init_def socket_server_init_def)

theorem privileged_port_refused_witness:
  "qkd_socket_server_init conn_ssl sample_uuid (ServerExample.qkd_open_connect sample_uuid)
     (ServerExample.qkd_get_key sample_rand sample_uuid) ServerExample.qkd_close ''127.0.0.1'' 443
     (Some ''c'') (Some ''k'') None 0 \<lparr>c_in = [], c_out = []\<rparr> [] (sample_server [] [] None) = Inl (Exited 0)"
  by (rule privileged_port_refused) (simp_all add: wire_ssl_def)

section \<open>Diagnostics\<close>

text \<open>
  The error log ends, empties OpenSSL's queue of errors and prints all of them but the earliest, the
  one that is usually the cause: the loop takes it from the queue to test for the end and only then has
  OpenSSL print what is left.
\<close>

theorem log_ssl_loses_first_error:
  assumes "err_laws E codes" "codes q = x # xs"
  shows "\<exists>q'. log_ssl E q = Some (xs, q') \<and> codes q' = []"
  using assms by (rule log_ssl_prints_tail)

definition sample_err :: "64 word list err_api" where
  "sample_err =
     \<lparr>ERR_get_error = (\<lambda>q. case filter (\<lambda>x. x \<noteq> 0) q of [] \<Rightarrow> (0, []) | x # xs \<Rightarrow> (x, xs)),
      ERR_error_string = (\<lambda>_. Some ''error''),
      ERR_print_errors_fp = (\<lambda>q. (filter (\<lambda>x. x \<noteq> 0) q, []))\<rparr>"

lemma err_laws_sample: "err_laws sample_err (filter (\<lambda>x. x \<noteq> 0))"
proof -
  have "filter (\<lambda>x. x \<noteq> 0) xs = xs" if "filter (\<lambda>x. x \<noteq> 0) q = x # xs" for q xs and x :: "64 word"
  proof -
    have "set xs \<subseteq> set (filter (\<lambda>x. x \<noteq> 0) q)"
      unfolding that by auto
    then show ?thesis
      by (auto simp: filter_id_conv)
  qed
  then show ?thesis
    by (auto simp: err_laws_def sample_err_def split: list.splits)
qed

theorem log_ssl_loses_first_error_witness: "\<exists>q'. log_ssl sample_err [21, 34, 55] = Some ([34, 55], q')"
  using log_ssl_loses_first_error [OF err_laws_sample, of "[21, 34, 55]"] by auto

end
