(* ===== verification/ServerProps.thy ===== *)
theory ServerProps
  imports ServerRun
begin

text \<open>
  The properties of the key management server: that its three calls implement their
  specification, what holds in every reachable state, and how keys of the two ends relate.
\<close>

section \<open>Refinement\<close>

text \<open>
  C2. OPEN_CONNECT on the server implements its specification. On a server whose linked list
  holds the streams \<open>ss\<close>, the call returns status 0 and the identifier that \<open>oc_spec\<close> gives: the
  caller's own when it is not nil, that of the first stream with the same two URIs, or a fresh one;
  afterwards the list holds exactly the streams of the specification, the caller's memory is as it
  was, and the only new live blocks are the strings of the stream that was added.
\<close>

theorem server_open_connect_implements_spec:
  assumes "wf_mem w" "no_oom w" "uuid_laws L" "registry w F is ss"
    and "cstr w src S" "cstr w dst D" "qos_at w q Q" "length ksid = 16"
    and "oc_spec (uuid_generate_random L (uuid_draws w)) S D Q ksid ss = (ksid', ss')"
  shows "\<exists>w' A is'. qkd_open_connect L src dst q ksid status w = Inr (q, ksid', 0, w') \<and>
    wf_mem w' \<and> registry w' (F \<union> A) is' ss' \<and> grows w A w'"
  using open_connect_refines [OF assms, of status] by blast

theorem server_open_connect_implements_spec_witness:
  "\<exists>w' A is'. qkd_open_connect sample_uuid (Ptr 0 0) (Ptr 1 0) (sample_qos (Ptr 2 0)) nil_uuid 0
      (sample_server [[97, 0], [98, 0], [0]] [] None) =
      Inr (sample_qos (Ptr 2 0), replicate 4 0 @ replicate 12 7, 0, w') \<and>
    registry w' A is' [\<lparr>ks_id = replicate 4 0 @ replicate 12 7, ks_source = [97], ks_destination = [98],
      ks_qos = sample_qos [], ks_index = 0\<rparr>]"
proof -
  let ?w = "sample_server [[97, 0], [98, 0], [0]] [] None"
  have "be_bytes 0 = replicate 4 0"
    by (simp add: be_bytes_def le_bytes_def numeral_eq_Suc)
  then have id: "uuid_generate_random sample_uuid (uuid_draws ?w) = replicate 4 0 @ replicate 12 7"
    by (simp add: sample_uuid_def)
  have "wf_mem ?w"
    by (rule wf_sample_server) (simp add: less_Suc_eq)
  moreover have "registry ?w {} [] []"
    by (simp add: registry_def)
  moreover have "cstr ?w (Ptr 0 0) [97]" "cstr ?w (Ptr 1 0) [98]" "qos_at ?w (sample_qos (Ptr 2 0)) (sample_qos [])"
    by (simp_all add: cstr_def qos_at_def sample_qos_def)
  ultimately show ?thesis
    using server_open_connect_implements_spec [of ?w sample_uuid "{}" "[]" "[]" "Ptr 0 0" "[97]" "Ptr 1 0" "[98]"
        "sample_qos (Ptr 2 0)" "sample_qos []" nil_uuid _ _ 0, unfolded id]
    by (fastforce simp: oc_spec_def find_peer_def)
qed

text \<open>
  C3. GET_KEY on the server implements its specification. For a stream of the registry the call
  returns status 0, the index it was asked for, a key of the chunk size of the stream that is
  \<open>stream_key\<close> of the stream, the index and the first two metadata bytes, and the device
  description as metadata; the registry changes by the counter of that stream only, and the two
  returned buffers are the only new live blocks.
\<close>

theorem server_get_key_implements_spec:
  assumes "wf_mem w" "no_oom w" "uuid_laws L" "registry w F is ss" "length ksid = 16"
    and "find_stream ksid ss = Some s" "cbytes w (bytes_data md) (ty # role # rest)"
    and "ks_index s \<noteq> 0x7FFFFFFF" "finite_float (qber (config w))"
  shows "\<exists>kb' md' w'. qkd_get_key R L ksid index kb md status w = Inr (index, kb', md', 0, w') \<and>
    bytes_at w' kb' (stream_key R s index ty role) \<and> bytes_at w' md' (device_info (config w) @ [0]) \<and>
    wf_mem w' \<and> registry w' F is (bump ksid ss) \<and> grows w {nxt w, Suc (nxt w)} w'"
proof -
  let ?k = "stream_key R s index ty role" and ?t = "device_info (config w) @ [0]"
  have len: "length ?k = unat (key_chunk_size (ks_qos s))" "length ?t < 2 ^ 32"
    using length_device_info [OF assms(9)] by (simp_all add: stream_key_def Let_def)
  obtain w' where w': "qkd_get_key R L ksid index kb md status w =
      Inr (index, \<lparr>bytes_size = key_chunk_size (ks_qos s), bytes_data = Ptr (nxt w) 0\<rparr>,
           \<lparr>bytes_size = of_nat (length ?t), bytes_data = Ptr (Suc (nxt w)) 0\<rparr>, 0, w')"
      "wf_mem w'" "registry w' F is (bump ksid ss)" "grows w {nxt w, Suc (nxt w)} w'"
      "blocks w' (nxt w) = Some ?k" "blocks w' (Suc (nxt w)) = Some ?t"
    using get_key_refines [OF assms, of R index kb status] by blast
  then show ?thesis
    using len bytes_at_block [OF w'(6)]
    by (intro exI conjI) (auto simp: bytes_at_def cbytes_def load_def unat_of_nat
        take_bit_nat_eq_self blob_struct_def valid_bytes_def)
qed

theorem server_get_key_implements_spec_witness:
  "\<exists>kb' md' w'. qkd_get_key sample_rand sample_uuid (replicate 16 9) 5 zero_bytes
      \<lparr>bytes_size = 2, bytes_data = Ptr 3 0\<rparr> 0 (one_stream_server [97] [98] [0, 0] 41) =
      Inr (5, kb', md', 0, w') \<and>
    bytes_at w' kb' (stream_key sample_rand (sample_stream [97] [98] 41) 5 0 0) \<and>
    registry w' {0, 1, 2} [4] [sample_stream [97] [98] 42]"
proof -
  let ?w = "one_stream_server [97] [98] [0, 0] 41"
  note w = one_stream_server [of "[97]" "[98]" "[0, 0]" 41, simplified]
  have "bump (replicate 16 9) [sample_stream [97] [98] 41] = [sample_stream [97] [98] 42]"
    by (simp add: sample_stream_def)
  then show ?thesis
    using server_get_key_implements_spec [OF w(1,2) uuid_laws_sample w(3) _ w(6), of
        "\<lparr>bytes_size = 2, bytes_data = Ptr 3 0\<rparr>" 0 0 "[]" sample_rand 5 zero_bytes 0] w(4,5)
    by (auto simp: sample_stream_def)
qed

text \<open>
  GET_KEY for a stream the server does not know returns status 3 (peer not connected) and
  changes nothing: neither the buffers of the caller nor the state of the server.
\<close>

theorem server_get_key_unknown_stream:
  assumes "uuid_laws L" "registry w F is ss" "length ksid = 16" "ksid \<notin> set (map ks_id ss)"
  shows "qkd_get_key R L ksid index kb md status w =
    Inr (index, kb, md, status_code qkd_status_code_gk_peer_not_connected, w)"
proof -
  have "find_stream ksid ss = None"
    using assms(4) by (auto simp: find_stream_def find_None_iff)
  then show ?thesis
    using get_key_unknown [OF assms(1-3)] by simp
qed

theorem server_get_key_unknown_stream_witness:
  "qkd_get_key sample_rand sample_uuid (replicate 16 8) 5 zero_bytes zero_bytes 0
      (one_stream_server [97] [98] [] 41) =
    Inr (5, zero_bytes, zero_bytes, 3, one_stream_server [97] [98] [] 41)"
  using server_get_key_unknown_stream [OF uuid_laws_sample one_stream_server(3) [of "[97]" "[98]" "[]" 41],
      of "replicate 16 8" sample_rand 5 zero_bytes zero_bytes 0]
  by (simp add: sample_stream_def)

text \<open>
  C32. The counter of a stream is an \<open>int\<close>: after \<open>INT_MAX\<close> keys the next GET_KEY on that
  stream overflows it, which is undefined, after the key was generated and before it is returned.
\<close>

theorem server_get_key_counter_overflow:
  assumes "no_oom w" "uuid_laws L" "registry w F is ss" "length ksid = 16"
    and "find_stream ksid ss = Some s" "cbytes w (bytes_data md) (ty # role # rest)"
    and "finite_float (qber (config w))" "ks_index s = 0x7FFFFFFF"
  shows "qkd_get_key R L ksid index kb md status w = Inl SignedOverflow"
  using assms by (rule get_key_counter_full)

theorem server_get_key_counter_overflow_witness:
  "qkd_get_key sample_rand sample_uuid (replicate 16 9) 5 zero_bytes
      \<lparr>bytes_size = 2, bytes_data = Ptr 3 0\<rparr> 0 (one_stream_server [97] [98] [0, 0] 0x7FFFFFFF) =
    Inl SignedOverflow"
proof -
  note w = one_stream_server [of "[97]" "[98]" "[0, 0]" "0x7FFFFFFF", simplified]
  show ?thesis
    by (rule server_get_key_counter_overflow [OF w(2) uuid_laws_sample w(3) _ w(6)])
      (use w(4,5) in \<open>simp_all add: sample_stream_def\<close>)
qed

text \<open>
  C33. Running out of memory for a key is not an error: when the allocator refuses the key but not the
  device description, GET_KEY returns status 0, the code for success, with a null key of size 0, and the
  counter of the stream advances as if a key had been delivered.
\<close>

theorem refused_key_reports_success:
  assumes "wf_mem w" "uuid_laws L" "registry w F is ss" "length ksid = 16"
    and "find_stream ksid ss = Some s" "cbytes w (bytes_data md) (ty # role # rest)"
    and "finite_float (qber (config w))" "ks_index s \<noteq> 0x7FFFFFFF"
    and "\<not> alloc_ok w (nxt w) (unat (key_chunk_size (ks_qos s)))"
      "alloc_ok w (Suc (nxt w)) (Suc (length (device_info (config w))))"
  shows "\<exists>md' w'. qkd_get_key R L ksid index kb md status w =
      Inr (index, \<lparr>bytes_size = 0, bytes_data = NULL\<rparr>, md', status_code qkd_status_code_successful, w') \<and>
    bytes_at w' md' (device_info (config w) @ [0]) \<and> registry w' F is (bump ksid ss)"
  using get_key_refused [OF assms] by simp

theorem refused_key_reports_success_witness:
  "\<exists>md' w'. qkd_get_key sample_rand sample_uuid (replicate 16 9) 5 zero_bytes
      \<lparr>bytes_size = 2, bytes_data = Ptr 3 0\<rparr> 0
      ((one_stream_server [97] [98] [0, 0] 41)\<lparr>alloc_ok := \<lambda>i n. i \<noteq> 5\<rparr>) =
      Inr (5, \<lparr>bytes_size = 0, bytes_data = NULL\<rparr>, md', 0, w') \<and>
    registry w' {0, 1, 2} [4] [sample_stream [97] [98] 42]"
proof -
  let ?w = "(one_stream_server [97] [98] [0, 0] 41)\<lparr>alloc_ok := \<lambda>i n. i \<noteq> 5\<rparr>"
  note w = one_stream_server [of "[97]" "[98]" "[0, 0]" 41, simplified]
  have "registry ?w {0, 1, 2} [4] [sample_stream [97] [98] 41]"
    using registry_frame [OF one_stream_server(3) [of "[97]" "[98]" "[0, 0]" 41], of ?w] by simp
  moreover have "wf_mem ?w" "cbytes ?w (Ptr 3 0) [0, 0]" "finite_float (qber (config ?w))" "nxt ?w = 5"
    using w(1,4,5,7) by (simp_all add: wf_mem_def cbytes_def load_def)
  moreover have "bump (replicate 16 9) [sample_stream [97] [98] 41] = [sample_stream [97] [98] 42]"
    by (simp add: sample_stream_def)
  ultimately show ?thesis
    using refused_key_reports_success [OF _ uuid_laws_sample _ _ w(6), of ?w "{0, 1, 2}" "[4]"
        "\<lparr>bytes_size = 2, bytes_data = Ptr 3 0\<rparr>" 0 0 "[]" sample_rand 5 zero_bytes 0]
    by (auto simp: sample_stream_def)
qed

section \<open>Every reachable state\<close>

text \<open>
  C5. In every state that is reached from an empty registry by any interleaving of calls with valid
  arguments and of steps of their caller, which allocates, overwrites and releases blocks of its own,
  also those it passed as arguments: the linked list is finite and free of cycles, its strings are live
  and belong to the server alone, every live block is owned either by the registry or by the caller,
  every allocated node is on the list, no two streams have the same pair of URIs, and, as long as the
  identifiers generated so far are different, no two have the same identifier.
\<close>

theorem server_invariant:
  assumes "server_reach R L w0 U w" "uuid_laws L"
    and "wf_mem w0" "no_oom w0" "finite_float (qber (config w0))"
    and "ksid_info_linked_list (config w0) = None" "nodes w0 = Map.empty"
  shows "\<exists>F is ss. registry w F is ss \<and> wf_mem w \<and> F \<union> U = dom (blocks w) \<and> F \<inter> U = {} \<and>
    dom (nodes w) = set is \<and> distinct (map (\<lambda>s. (ks_source s, ks_destination s)) ss) \<and>
    (uuid_fresh L (uuid_draws w) \<longrightarrow> distinct (map ks_id ss))"
proof -
  have "server_inv L {} U w"
    using assms(1) server_inv_start [OF assms(3-7)] assms(2) by (rule server_inv_reach)
  then show ?thesis
  proof (rule server_invE)
    fix F "is" ss
    assume r: "registry w F is ss" "F \<union> U = dom (blocks w)" "F \<inter> U = {}" "unlinked w is = {}"
      "peers_distinct ss" "uuid_fresh L (uuid_draws w) \<Longrightarrow> ids_drawn L (uuid_draws w) ss" "wf_mem w"
    have "dom (nodes w) = set is"
      using r(1,4) ks_path_node [of w _ "is" ss] by (fastforce simp: unlinked_def registry_def)
    with r show ?thesis
      unfolding peers_distinct_def ids_drawn_def by blast
  qed
qed

text \<open>After an OPEN\_CONNECT the caller releases all its arguments; the stream is still there.\<close>

theorem server_invariant_witness:
  "\<exists>ksid w F is ss. qkd_open_connect sample_uuid (Ptr 0 0) (Ptr 1 0) (sample_qos (Ptr 2 0)) nil_uuid 0
      (sample_server [[97, 0], [98, 0], [0]] [] None) = Inr (sample_qos (Ptr 2 0), ksid, 0, w) \<and>
    registry (kill_block 2 (kill_block 1 (kill_block 0 w))) F is ss \<and>
    F = dom (blocks (kill_block 2 (kill_block 1 (kill_block 0 w)))) \<and>
    dom (nodes (kill_block 2 (kill_block 1 (kill_block 0 w)))) = set is"
proof -
  let ?w = "sample_server [[97, 0], [98, 0], [0]] [] None"
  have w: "wf_mem ?w" "no_oom ?w" "registry ?w {} [] []" "finite_float (qber (config ?w))"
      "ksid_info_linked_list (config ?w) = None" "nodes ?w = Map.empty" "dom (blocks ?w) = {0, 1, 2}"
    using wf_sample_server [of "[[97, 0], [98, 0], [0]]" "[]" None]
    by (auto simp: less_Suc_eq registry_def dom_def split: if_splits)
  have args: "cstr ?w (Ptr 0 0) [97]" "cstr ?w (Ptr 1 0) [98]"
      "qos_at ?w (sample_qos (Ptr 2 0)) (sample_qos [])"
    by (simp_all add: cstr_def qos_at_def sample_qos_def)
  obtain ksid w' where oc: "qkd_open_connect sample_uuid (Ptr 0 0) (Ptr 1 0) (sample_qos (Ptr 2 0)) nil_uuid 0 ?w =
      Inr (sample_qos (Ptr 2 0), ksid, 0, w')"
    using open_connect_refines [OF w(1,2) uuid_laws_sample w(3) args length_nil_uuid, of _ _ 0]
    by (metis surj_pair)
  have "server_reach sample_rand sample_uuid ?w {0, 1, 2} w'"
    using server_reach.open_connect [OF server_reach.start args length_nil_uuid oc] unfolding w(7) .
  then have "server_reach sample_rand sample_uuid ?w ({0, 1, 2} - {0} - {1} - {2})
      (kill_block 2 (kill_block 1 (kill_block 0 w')))"
    by (intro server_reach.release) simp_all
  from server_invariant [OF this uuid_laws_sample w(1,2,4-6)] oc show ?thesis
    by fastforce
qed

text \<open>
  C14. Calls are type safe in every state that is reached as in C5, whatever the caller released or
  overwrote of its memory before: an OPEN_CONNECT with two strings, a quality of service and an
  identifier returns status 0, the quality of service it got and an identifier of sixteen bytes; a
  GET_KEY with an identifier and at least two bytes of metadata returns either status 3, with the
  caller's buffers, or status 0, with two buffers that hold as many bytes as they say, unless the
  counter of the stream is exhausted, the only way in which it can go wrong. Either way the server is
  in a reachable state again.
\<close>

theorem server_calls_type_safe:
  assumes "server_reach R L w0 U w" "uuid_laws L"
    and "wf_mem w0" "no_oom w0" "finite_float (qber (config w0))"
    and "ksid_info_linked_list (config w0) = None" "nodes w0 = Map.empty"
  shows "(\<forall>src S dst D q Q ksid st. cstr w src S \<and> cstr w dst D \<and> qos_at w q Q \<and> length ksid = 16 \<longrightarrow>
      (\<exists>ksid' w'. qkd_open_connect L src dst q ksid st w =
           Inr (q, ksid', status_code qkd_status_code_successful, w') \<and>
         length ksid' = 16 \<and> server_reach R L w0 U w')) \<and>
    (\<forall>ksid index kb md ty role rest st. length ksid = 16 \<and> cbytes w (bytes_data md) (ty # role # rest) \<longrightarrow>
      qkd_get_key R L ksid index kb md st w = Inl SignedOverflow \<or>
      (\<exists>kb' md' st' w'. qkd_get_key R L ksid index kb md st w = Inr (index, kb', md', st', w') \<and>
         server_reach R L w0 (U \<union> handed_over w w' kb' md') w' \<and>
         (st' = status_code qkd_status_code_gk_peer_not_connected \<and> kb' = kb \<and> md' = md \<and> w' = w \<or>
          st' = status_code qkd_status_code_successful \<and> (\<exists>key info. bytes_at w' kb' key \<and> bytes_at w' md' info))))"
proof -
  have inv: "server_inv L {} U w"
    using assms(1) server_inv_start [OF assms(3-7)] assms(2) by (rule server_inv_reach)
  have "\<exists>ksid' w'. qkd_open_connect L src dst q ksid st w = Inr (q, ksid', status_code qkd_status_code_successful, w') \<and>
      length ksid' = 16 \<and> server_reach R L w0 U w'"
    if "cstr w src S \<and> cstr w dst D \<and> qos_at w q Q \<and> length ksid = 16" for src S dst D q Q ksid st
    using open_connect_typed [OF inv assms(2), of src S dst D q Q ksid st] that
      server_reach.open_connect [OF assms(1), of src S dst D q Q ksid st] by auto
  moreover have "qkd_get_key R L ksid index kb md st w = Inl SignedOverflow \<or>
      (\<exists>kb' md' st' w'. qkd_get_key R L ksid index kb md st w = Inr (index, kb', md', st', w') \<and>
         server_reach R L w0 (U \<union> handed_over w w' kb' md') w' \<and>
         (st' = status_code qkd_status_code_gk_peer_not_connected \<and> kb' = kb \<and> md' = md \<and> w' = w \<or>
          st' = status_code qkd_status_code_successful \<and> (\<exists>key info. bytes_at w' kb' key \<and> bytes_at w' md' info)))"
    if "length ksid = 16 \<and> cbytes w (bytes_data md) (ty # role # rest)" for ksid index kb md ty role rest st
    using get_key_typed [OF inv assms(2), of ksid md ty role rest R index kb st] that
      server_reach.get_key [OF assms(1), of ksid md ty role rest index kb st]
    unfolding status_code.simps by blast
  ultimately show ?thesis by blast
qed

text \<open>
  A stream is opened, the caller releases the two URIs it passed and overwrites the metadata it will
  pass, and the next call still returns.
\<close>

theorem server_calls_type_safe_witness:
  "\<exists>ksid w. qkd_open_connect sample_uuid (Ptr 0 0) (Ptr 1 0) (sample_qos (Ptr 2 0)) nil_uuid 0
      (sample_server [[97, 0], [98, 0], [0], [7, 7]] [] None) = Inr (sample_qos (Ptr 2 0), ksid, 0, w) \<and> length ksid = 16 \<and>
    (\<exists>r. qkd_get_key sample_rand sample_uuid ksid 5 zero_bytes \<lparr>bytes_size = 2, bytes_data = Ptr 3 0\<rparr> 0
       (put 3 0 [0, 0] (kill_block 1 (kill_block 0 w))) \<in> {Inl SignedOverflow, Inr r})"
proof -
  let ?w = "sample_server [[97, 0], [98, 0], [0], [7, 7]] [] None"
  have w: "wf_mem ?w" "no_oom ?w" "registry ?w {} [] []" "finite_float (qber (config ?w))"
      "ksid_info_linked_list (config ?w) = None" "nodes ?w = Map.empty" "dom (blocks ?w) = {0, 1, 2, 3}"
    using wf_sample_server [of "[[97, 0], [98, 0], [0], [7, 7]]" "[]" None]
    by (auto simp: less_Suc_eq registry_def dom_def split: if_splits)
  have args: "cstr ?w (Ptr 0 0) [97]" "cstr ?w (Ptr 1 0) [98]"
      "qos_at ?w (sample_qos (Ptr 2 0)) (sample_qos [])"
    by (simp_all add: cstr_def qos_at_def sample_qos_def)
  obtain ksid w' where oc: "qkd_open_connect sample_uuid (Ptr 0 0) (Ptr 1 0) (sample_qos (Ptr 2 0)) nil_uuid 0 ?w =
      Inr (sample_qos (Ptr 2 0), ksid, 0, w')" "length ksid = 16"
    using server_calls_type_safe [OF server_reach.start uuid_laws_sample w(1,2,4-6), of sample_rand] args
      length_nil_uuid unfolding status_code.simps by blast
  have "\<exists>A. grows ?w A w'"
    using open_connect_refines [OF w(1,2) uuid_laws_sample w(3) args length_nil_uuid, of _ _ 0] oc(1)
    by (metis Inr_inject prod.inject surj_pair)
  then have md: "blocks w' 3 = Some [7, 7]"
    using grows_old [of ?w _ w' 3] by auto
  let ?w2 = "put 3 0 [0, 0] (kill_block 1 (kill_block 0 w'))"
  have "server_reach sample_rand sample_uuid ?w {0, 1, 2, 3} w'"
    using server_reach.open_connect [OF server_reach.start args length_nil_uuid oc(1)] unfolding w(7) .
  then have "server_reach sample_rand sample_uuid ?w ({0, 1, 2, 3} - {0} - {1}) ?w2"
    using md by (intro server_reach.overwrite server_reach.release) (simp_all add: room_def)
  moreover have "cbytes ?w2 (bytes_data \<lparr>bytes_size = 2, bytes_data = Ptr 3 0\<rparr>) [0, 0]"
    using md by (simp add: cbytes_def load_def write_at_def)
  ultimately have "\<exists>r. qkd_get_key sample_rand sample_uuid ksid 5 zero_bytes \<lparr>bytes_size = 2, bytes_data = Ptr 3 0\<rparr> 0 ?w2
      \<in> {Inl SignedOverflow, Inr r}"
    using server_calls_type_safe [OF _ uuid_laws_sample w(1,2,4-6), of sample_rand _ ?w2] oc(2) by blast
  with oc show ?thesis by blast
qed

section \<open>Using a stream\<close>

text \<open>
  C13. What a client does with a stream: on a server whose list holds the streams \<open>ss\<close>, an OPEN_CONNECT
  without an identifier succeeds and leaves the list that \<open>oc_spec\<close> gives; the identifier it returns is
  that of a stream \<open>s\<close> of this list which has the URIs of the call; and every GET_KEY with that identifier
  and at least two bytes of metadata is answered with status 0 and the key of \<open>s\<close> for the index and the
  metadata, whatever other streams the server has, except when the counter of \<open>s\<close> is \<open>INT_MAX\<close>, where it
  overflows.
\<close>

theorem opened_stream_serves_keys:
  assumes "wf_mem w" "no_oom w" "finite_float (qber (config w))" "registry w F is ss"
    and "uuid_laws L" "uuid_fresh L (Suc (uuid_draws w))" "ids_drawn L (uuid_draws w) ss"
    and "cstr w src S" "cstr w dst D" "qos_at w q Q"
    and "oc_spec (uuid_generate_random L (uuid_draws w)) S D Q nil_uuid ss = (ksid, ss')"
  shows "\<exists>w1 A is' s. qkd_open_connect L src dst q nil_uuid status w = Inr (q, ksid, 0, w1) \<and>
    registry w1 (F \<union> A) is' ss' \<and> grows w A w1 \<and>
    find_stream ksid ss' = Some s \<and> ks_source s = S \<and> ks_destination s = D \<and>
    (\<forall>md ty role rest R index kb st. cbytes w1 (bytes_data md) (ty # role # rest) \<longrightarrow>
       (if ks_index s = 0x7FFFFFFF then qkd_get_key R L ksid index kb md st w1 = Inl SignedOverflow
        else \<exists>kb' md' w2. qkd_get_key R L ksid index kb md st w1 = Inr (index, kb', md', 0, w2) \<and>
          bytes_at w2 kb' (stream_key R s index ty role)))"
  using assms by (rule open_then_get)

theorem opened_stream_serves_keys_witness:
  "\<exists>ksid w1 kb' md' w2. qkd_open_connect sample_uuid (Ptr 0 0) (Ptr 1 0) (sample_qos (Ptr 2 0)) nil_uuid 0
      (sample_server [[97, 0], [98, 0], [0], [0, 0]] [] None) = Inr (sample_qos (Ptr 2 0), ksid, 0, w1) \<and>
    qkd_get_key sample_rand sample_uuid ksid 5 zero_bytes \<lparr>bytes_size = 2, bytes_data = Ptr 3 0\<rparr> 0 w1 =
      Inr (5, kb', md', 0, w2) \<and>
    bytes_at w2 kb' (prng_bytes sample_rand (stream_seed [97] [98] 5) 2)"
proof -
  let ?w = "sample_server [[97, 0], [98, 0], [0], [0, 0]] [] None" and ?id = "uuid_generate_random sample_uuid 0"
  let ?s = "\<lparr>ks_id = ?id, ks_source = [97], ks_destination = [98], ks_qos = sample_qos [], ks_index = 0\<rparr>"
  have w: "wf_mem ?w" "no_oom ?w" "finite_float (qber (config ?w))" "registry ?w {} [] []"
      "ids_drawn sample_uuid (uuid_draws ?w) []"
    using wf_sample_server [of "[[97, 0], [98, 0], [0], [0, 0]]" "[]" None]
    by (simp_all add: less_Suc_eq registry_def ids_drawn_def)
  have fresh: "uuid_fresh sample_uuid (Suc (uuid_draws ?w))"
    by (rule uuid_fresh_sample) simp
  have args: "cstr ?w (Ptr 0 0) [97]" "cstr ?w (Ptr 1 0) [98]"
      "qos_at ?w (sample_qos (Ptr 2 0)) (sample_qos [])"
    by (simp_all add: cstr_def qos_at_def sample_qos_def)
  have spec: "oc_spec (uuid_generate_random sample_uuid (uuid_draws ?w)) [97] [98] (sample_qos []) nil_uuid [] = (?id, [?s])"
    by (simp add: oc_spec_def find_peer_def)
  obtain w1 A where o: "qkd_open_connect sample_uuid (Ptr 0 0) (Ptr 1 0) (sample_qos (Ptr 2 0)) nil_uuid 0 ?w =
        Inr (sample_qos (Ptr 2 0), ?id, 0, w1)" "grows ?w A w1"
      "\<And>md. cbytes w1 (bytes_data md) [0, 0] \<Longrightarrow>
        \<exists>kb' md' w2. qkd_get_key sample_rand sample_uuid ?id 5 zero_bytes md 0 w1 = Inr (5, kb', md', 0, w2) \<and>
          bytes_at w2 kb' (stream_key sample_rand ?s 5 0 0)"
    using opened_stream_serves_keys [OF w(1-4) uuid_laws_sample fresh w(5) args spec, of 0]
    by (fastforce simp: find_stream_def)
  have "cbytes w1 (Ptr 3 0) [0, 0]"
    using grows_old [OF o(2), of 3] by (simp add: cbytes_def load_def)
  with o(1) o(3) [of "\<lparr>bytes_size = 2, bytes_data = Ptr 3 0\<rparr>"] show ?thesis
    by (simp add: stream_key_def sample_qos_def)
qed

section \<open>The two ends of a stream\<close>

text \<open>
  The situation of the properties below: one server has a stream from A to B, another one a stream
  from B to A with the same chunk size, and each is asked for the key of the same index.
\<close>

definition end_ready ::
  "libuuid \<Rightarrow> server \<Rightarrow> key_stream \<Rightarrow> qkd_bytes \<Rightarrow> u8 \<Rightarrow> u8 \<Rightarrow> bool" where
  "end_ready L w s md ty role \<longleftrightarrow>
     wf_mem w \<and> no_oom w \<and> finite_float (qber (config w)) \<and> ks_index s \<noteq> 0x7FFFFFFF \<and>
     length (ks_id s) = 16 \<and> cbytes w (bytes_data md) [ty, role] \<and>
     (\<exists>F is ss. registry w F is ss \<and> find_stream (ks_id s) ss = Some s)"

definition opposite :: "key_stream \<Rightarrow> key_stream \<Rightarrow> bool" where
  "opposite s t \<longleftrightarrow>
     ks_source t = ks_destination s \<and> ks_destination t = ks_source s \<and>
     key_chunk_size (ks_qos t) = key_chunk_size (ks_qos s)"

lemma get_key_end_ready:
  assumes "end_ready L w s md ty role" "uuid_laws L"
  obtains kb' md' w' where
    "qkd_get_key R L (ks_id s) index kb md status w = Inr (index, kb', md', 0, w')"
    "bytes_at w' kb' (stream_key R s index ty role)"
proof -
  from assms(1) obtain F "is" ss where r: "wf_mem w" "no_oom w" "registry w F is ss" "length (ks_id s) = 16"
      "find_stream (ks_id s) ss = Some s" "cbytes w (bytes_data md) [ty, role]"
      "ks_index s \<noteq> 0x7FFFFFFF" "finite_float (qber (config w))"
    by (auto simp: end_ready_def)
  have "length (stream_key R s index ty role) = unat (key_chunk_size (ks_qos s))"
    by (simp add: stream_key_def Let_def)
  with get_key_refines [OF r(1,2) assms(2) r(3-8), of R index kb status] that show thesis
    by (fastforce simp: bytes_at_def cbytes_def load_def)
qed

lemma stream_key_opposite:
  "opposite s t \<Longrightarrow> stream_key R t index ty role = stream_key R s index ty role"
  using stream_seed_swap [of "ks_destination s" "ks_source s"] by (simp add: opposite_def stream_key_def)

text \<open>
  C12. Key agreement. For symmetric keys both ends of a stream obtain the same bytes for the same
  index, from servers that share nothing but the C library's \<open>rand\<close>, whatever happened on them
  before.
\<close>

theorem symmetric_key_agreement:
  assumes "end_ready L w1 s md1 (type_code qkd_key_type_symmetric) role1"
    and "end_ready L w2 t md2 (type_code qkd_key_type_symmetric) role2"
    and "opposite s t" "uuid_laws L"
  shows "\<exists>kb1' md1' w1' kb2' md2' w2' key.
    qkd_get_key R L (ks_id s) index kb1 md1 st1 w1 = Inr (index, kb1', md1', 0, w1') \<and>
    qkd_get_key R L (ks_id t) index kb2 md2 st2 w2 = Inr (index, kb2', md2', 0, w2') \<and>
    bytes_at w1' kb1' key \<and> bytes_at w2' kb2' key \<and> length key = unat (key_chunk_size (ks_qos s))"
proof -
  let ?key = "stream_key R s index (type_code qkd_key_type_symmetric) role1"
  have "stream_key R t index (type_code qkd_key_type_symmetric) role2 = ?key"
    using stream_key_opposite [OF assms(3), of R index 0 0] by (simp add: stream_key_def Let_def)
  moreover obtain kb1' md1' w1' where
      "qkd_get_key R L (ks_id s) index kb1 md1 st1 w1 = Inr (index, kb1', md1', 0, w1')" "bytes_at w1' kb1' ?key"
    using get_key_end_ready [OF assms(1,4)] by blast
  moreover obtain kb2' md2' w2' where
      "qkd_get_key R L (ks_id t) index kb2 md2 st2 w2 = Inr (index, kb2', md2', 0, w2')"
      "bytes_at w2' kb2' (stream_key R t index (type_code qkd_key_type_symmetric) role2)"
    using get_key_end_ready [OF assms(2,4)] by blast
  moreover have "length ?key = unat (key_chunk_size (ks_qos s))"
    by (simp add: stream_key_def)
  ultimately show ?thesis by fastforce
qed

lemma end_ready_sample:
  assumes "0 \<notin> set src" "0 \<notin> set dst" "length src < 1000" "length dst < 1000" "index \<noteq> 0x7FFFFFFF"
  shows "end_ready sample_uuid (one_stream_server src dst [ty, role] index) (sample_stream src dst index)
    \<lparr>bytes_size = 2, bytes_data = Ptr 3 0\<rparr> ty role"
proof -
  note w = one_stream_server [OF assms(1-4), of "[ty, role]" index, simplified]
  show ?thesis
    using w assms(5) unfolding end_ready_def by (auto simp: sample_stream_def)
qed

theorem symmetric_key_agreement_witness:
  "\<exists>kb1' md1' w1' kb2' md2' w2' key.
    qkd_get_key sample_rand sample_uuid (replicate 16 9) 5 zero_bytes \<lparr>bytes_size = 2, bytes_data = Ptr 3 0\<rparr> 0
      (one_stream_server [97] [98] [0, 0] 41) = Inr (5, kb1', md1', 0, w1') \<and>
    qkd_get_key sample_rand sample_uuid (replicate 16 9) 5 zero_bytes \<lparr>bytes_size = 2, bytes_data = Ptr 3 0\<rparr> 0
      (one_stream_server [98] [97] [0, 0] 7) = Inr (5, kb2', md2', 0, w2') \<and>
    bytes_at w1' kb1' key \<and> bytes_at w2' kb2' key \<and> length key = 2"
proof -
  have "opposite (sample_stream [97] [98] 41) (sample_stream [98] [97] 7)"
    by (simp add: opposite_def sample_stream_def)
  from symmetric_key_agreement [OF _ _ this uuid_laws_sample, of _ _ 0 _ _ 0 sample_rand 5 zero_bytes 0 zero_bytes 0]
  show ?thesis
    using end_ready_sample [of "[97]" "[98]" 41 0 0] end_ready_sample [of "[98]" "[97]" 7 0 0]
    by (fastforce simp: sample_stream_def sample_qos_def)
qed

text \<open>
  C11. Oblivious keys. When one end asks as sender and the other in any other role, the second gets
  the masked key of the first: of byte \<open>i\<close> of the sender's key it determines exactly the four
  bits at the positions that have the parity of \<open>i\<close>, so a value of the byte is compatible with
  what the receiver sees if and only if it has those four bits.
\<close>

theorem oblivious_key_reveals_half:
  assumes "end_ready L w1 s md1 (type_code qkd_key_type_oblivious) (role_code qkd_key_type_role_sender)"
    and "end_ready L w2 t md2 (type_code qkd_key_type_oblivious) role2"
    and "role2 \<noteq> role_code qkd_key_type_role_sender" "opposite s t" "uuid_laws L"
  shows "\<exists>kb1' md1' w1' kb2' md2' w2' key key'.
    qkd_get_key R L (ks_id s) index kb1 md1 st1 w1 = Inr (index, kb1', md1', 0, w1') \<and>
    qkd_get_key R L (ks_id t) index kb2 md2 st2 w2 = Inr (index, kb2', md2', 0, w2') \<and>
    bytes_at w1' kb1' key \<and> bytes_at w2' kb2' key' \<and> length key' = length key \<and>
    (\<forall>i<length key. \<forall>b. mask_byte i b = key' ! i \<longleftrightarrow>
       (\<forall>j<4. bit b (2 * j + i mod 2) = bit (key ! i) (2 * j + i mod 2)))"
proof -
  let ?ty = "type_code qkd_key_type_oblivious"
  let ?key = "stream_key R s index ?ty (role_code qkd_key_type_role_sender)"
  have key': "stream_key R t index ?ty role2 = oblivious_mask ?key"
    using assms(3) stream_key_opposite [OF assms(4), of R index ?ty role2]
    by (simp add: stream_key_def Let_def)
  obtain kb1' md1' w1' where
      "qkd_get_key R L (ks_id s) index kb1 md1 st1 w1 = Inr (index, kb1', md1', 0, w1')" "bytes_at w1' kb1' ?key"
    using get_key_end_ready [OF assms(1,5)] by blast
  moreover obtain kb2' md2' w2' where
      "qkd_get_key R L (ks_id t) index kb2 md2 st2 w2 = Inr (index, kb2', md2', 0, w2')"
      "bytes_at w2' kb2' (oblivious_mask ?key)"
    using get_key_end_ready [OF assms(2,5)] key' by metis
  moreover have "\<forall>i<length ?key. \<forall>b. mask_byte i b = oblivious_mask ?key ! i \<longleftrightarrow>
       (\<forall>j<4. bit b (2 * j + i mod 2) = bit (?key ! i) (2 * j + i mod 2))"
    by (simp add: oblivious_mask_def mask_byte_eq_iff)
  ultimately show ?thesis
    using length_oblivious_mask [of ?key] by blast
qed

theorem oblivious_key_reveals_half_witness:
  "\<exists>kb1' md1' w1' kb2' md2' w2' key key'.
    qkd_get_key sample_rand sample_uuid (replicate 16 9) 5 zero_bytes \<lparr>bytes_size = 2, bytes_data = Ptr 3 0\<rparr> 0
      (one_stream_server [97] [98] [1, 16] 41) = Inr (5, kb1', md1', 0, w1') \<and>
    qkd_get_key sample_rand sample_uuid (replicate 16 9) 5 zero_bytes \<lparr>bytes_size = 2, bytes_data = Ptr 3 0\<rparr> 0
      (one_stream_server [98] [97] [1, 17] 7) = Inr (5, kb2', md2', 0, w2') \<and>
    bytes_at w1' kb1' key \<and> bytes_at w2' kb2' key' \<and> length key' = length key"
proof -
  have "opposite (sample_stream [97] [98] 41) (sample_stream [98] [97] 7)"
    by (simp add: opposite_def sample_stream_def)
  from oblivious_key_reveals_half [OF _ _ _ this uuid_laws_sample, of _ _ _ _ 17 sample_rand 5 zero_bytes 0 zero_bytes 0]
  show ?thesis
    using end_ready_sample [of "[97]" "[98]" 41 1 16] end_ready_sample [of "[98]" "[97]" 7 1 17]
    by (fastforce simp: sample_stream_def)
qed

text \<open>
  C17. All streams deliver the same keys. The URIs of a stream enter its keys only through an exclusive
  or with the index: for any two streams with one chunk size, on one server or on two, the key of
  index \<open>i\<close> of the first is the key of the second for the index \<open>i\<close> with the bits flipped in which
  the hashes of the two pairs of URIs differ.
\<close>

theorem streams_share_keys:
  assumes "end_ready L w1 s md1 ty role" "end_ready L w2 t md2 ty role"
    and "key_chunk_size (ks_qos s) = key_chunk_size (ks_qos t)" "uuid_laws L"
    and "d = stream_seed (ks_source s) (ks_destination s) 0 XOR stream_seed (ks_source t) (ks_destination t) 0"
  shows "\<exists>kb1' md1' w1' kb2' md2' w2' key.
    qkd_get_key R L (ks_id s) index kb1 md1 st1 w1 = Inr (index, kb1', md1', 0, w1') \<and>
    qkd_get_key R L (ks_id t) (index XOR d) kb2 md2 st2 w2 = Inr (index XOR d, kb2', md2', 0, w2') \<and>
    bytes_at w1' kb1' key \<and> bytes_at w2' kb2' key \<and> length key = unat (key_chunk_size (ks_qos s))"
proof -
  let ?key = "stream_key R s index ty role"
  have "stream_seed (ks_source t) (ks_destination t) (index XOR d) = stream_seed (ks_source s) (ks_destination s) index"
    unfolding stream_seed_def assms(5) by (rule bit_word_eqI) (auto simp: bit_xor_iff)
  then have key: "stream_key R t (index XOR d) ty role = ?key"
    using assms(3) by (simp add: stream_key_def)
  obtain kb1' md1' w1' where
      "qkd_get_key R L (ks_id s) index kb1 md1 st1 w1 = Inr (index, kb1', md1', 0, w1')" "bytes_at w1' kb1' ?key"
    using get_key_end_ready [OF assms(1,4)] by blast
  moreover obtain kb2' md2' w2' where
      "qkd_get_key R L (ks_id t) (index XOR d) kb2 md2 st2 w2 = Inr (index XOR d, kb2', md2', 0, w2')"
      "bytes_at w2' kb2' ?key"
    using get_key_end_ready [OF assms(2,4), of R "index XOR d"] key by metis
  moreover have "length ?key = unat (key_chunk_size (ks_qos s))"
    by (simp add: stream_key_def Let_def)
  ultimately show ?thesis by blast
qed

theorem streams_share_keys_witness:
  "\<exists>kb1' md1' w1' kb2' md2' w2' key.
    qkd_get_key sample_rand sample_uuid (replicate 16 9) 5 zero_bytes \<lparr>bytes_size = 2, bytes_data = Ptr 3 0\<rparr> 0
      (one_stream_server [97] [98] [0, 0] 41) = Inr (5, kb1', md1', 0, w1') \<and>
    qkd_get_key sample_rand sample_uuid (replicate 16 9) 7 zero_bytes \<lparr>bytes_size = 2, bytes_data = Ptr 3 0\<rparr> 0
      (one_stream_server [97] [96] [0, 0] 7) = Inr (7, kb2', md2', 0, w2') \<and>
    bytes_at w1' kb1' key \<and> bytes_at w2' kb2' key"
proof -
  have d: "2 = stream_seed [97] [98] 0 XOR stream_seed [97] [96] 0" "(5 :: u32) XOR 2 = 7"
    by (simp_all add: stream_seed_def str_hash_def)
  show ?thesis
    using streams_share_keys [OF end_ready_sample [of "[97]" "[98]" 41 0 0] end_ready_sample [of "[97]" "[96]" 7 0 0]
        _ uuid_laws_sample, of 2 sample_rand 5 zero_bytes 0 zero_bytes 0] d
    by (fastforce simp: sample_stream_def)
qed

end
