(* ===== verification/WriteKey.thy ===== *)
theory WriteKey
  imports Models Format
begin

text \<open>
  The key files of \<open>write_key_to_file.c\<close>. A file system maps names to contents; \<open>fopen\<close> is a
  parameter that says which names can be opened for appending (the code does not check its result,
  so a failure is a null pointer dereference). The index buffer is the automatic array
  \<open>sindex[11]\<close>, whose bytes are arbitrary until \<open>sprintf\<close> writes them.
\<close>

type_synonym files = "string \<Rightarrow> bytes option"

section \<open>write\_key\_to\_file.c\<close>

function digits_loop :: "u32 \<Rightarrow> nat \<Rightarrow> nat" where
  "digits_loop n digits = (if n \<noteq> 0 then digits_loop (n div 10) (digits + 1) else digits)"
  by pat_completeness auto
termination
  by (relation "measure (\<lambda>(n, _). unat n)")
    (auto simp: unat_div unat_gt_0 intro!: div_less_dividend)

definition number_of_digits :: "u32 \<Rightarrow> nat" where
  "number_of_digits n = (if n = 0 then 1 else digits_loop n 0)"

text \<open>The inner loop counts the bit positions down from 7; the byte is promoted to \<open>int\<close>.\<close>

definition bit_chars :: "u8 \<Rightarrow> bytes" where
  "bit_chars byte =
     map (\<lambda>b. if (ucast byte AND push_bit b 1 :: 32 word) \<noteq> 0 then 49 else 48) (rev [0..<8])"

fun write_bits :: "nat \<Rightarrow> ptr \<Rightarrow> 'z mem_scheme \<Rightarrow> bytes \<Rightarrow> bytes res" where
  "write_bits 0 data m out = Inr out"
| "write_bits (Suc n) data m out =
     bind_res (load data 1 m) (\<lambda>byte. write_bits n (padd data 1) m (out @ bit_chars (hd byte)))"

definition write_key_to_file_bit_format ::
  "(string \<Rightarrow> bool) \<Rightarrow> qkd_bytes qkd_get_key_response \<Rightarrow> string \<Rightarrow> files \<Rightarrow> 'z mem_scheme \<Rightarrow> files res" where
  "write_key_to_file_bit_format fopen get_key_response file_name fs m =
     (if \<not> fopen file_name then Inl NullDeref
      else
        let key_file = (case fs file_name of None \<Rightarrow> [] | Some c \<Rightarrow> c) @ str_bytes ''Index: '';
            text = str_bytes (fmt_d (sint (gks_index get_key_response))) @ [0] in
        if 11 < length text then Inl OutOfBounds
        else
          let sindex = write_at 0 text (junk_bytes 11 m);
              key_file = key_file @ take (number_of_digits (gks_index get_key_response)) sindex @
                10 # str_bytes ''Key: '' in
          bind_res (write_bits (unat (bytes_size (gks_key_buffer get_key_response)))
              (bytes_data (gks_key_buffer get_key_response)) m key_file) (\<lambda>key_file.
          Inr (fs(file_name \<mapsto> key_file @ [10, 10]))))"

section \<open>Digits\<close>

declare digits_loop.simps [simp del]

lemma digits_loop_eq: "n \<noteq> 0 \<Longrightarrow> digits_loop n d = d + length (fmt_nat (unat n))"
proof (induction n d rule: digits_loop.induct)
  case (1 n d)
  have div: "unat (n div 10) = unat n div 10"
    by (simp add: unat_div)
  show ?case
  proof (cases "n div 10 = 0")
    case True
    then have "unat n < 10"
      using div by (simp add: div_eq_0_iff)
    with True 1(2) show ?thesis
      by (subst digits_loop.simps) (simp add: digits_loop.simps fmt_nat_small)
  next
    case False
    then have "\<not> unat n < 10"
      using div by (auto simp: word_unat_eq_iff)
    with 1 False show ?thesis
      by (subst digits_loop.simps) (simp add: fmt_nat_large div)
  qed
qed

lemma number_of_digits_eq: "number_of_digits n = length (fmt_nat (unat n))"
  by (simp add: number_of_digits_def digits_loop_eq fmt_nat_small)

section \<open>Bits\<close>

lemma bit_chars_bit: "bit_chars b = map (\<lambda>i. if bit b i then 49 else 48) (rev [0..<8])"
proof -
  have "(ucast b AND push_bit i 1 :: 32 word) = 0 \<longleftrightarrow> \<not> bit b i" if "i < 8" for i
    using that and_exp_eq_0_iff_not_bit [of "ucast b :: 32 word" i]
    by (simp add: push_bit_eq_mult bit_ucast_iff)
  then show ?thesis
    by (simp add: bit_chars_def)
qed

text \<open>Reading a key back: eight characters are one byte, most significant bit first.\<close>

fun read_bits :: "bytes \<Rightarrow> bytes" where
  "read_bits (a # b # c # d # e # f # g # h # r) =
     horner_sum of_bool 2 (map (\<lambda>x. x = 49) [h, g, f, e, d, c, b, a]) # read_bits r"
| "read_bits _ = []"

lemma length_bit_chars [simp]: "length (bit_chars b) = 8"
  by (simp add: bit_chars_def)

lemma read_bits_chars: "read_bits (bit_chars b @ r) = b # read_bits r"
proof -
  have "horner_sum of_bool 2 (map (bit b) [0..<8]) = take_bit 8 b"
    by (rule horner_sum_bit_eq_take_bit)
  then have "horner_sum of_bool 2 (map (bit b) [0..<8]) = b"
    by (simp add: take_bit_word_eq_self)
  moreover define f where "f i = (if bit b i then 49 else 48 :: u8)" for i
  have upt: "[0..<8] = [0, 1, 2, 3, 4, 5, 6, 7::nat]"
    by (simp add: upt_rec)
  have "bit_chars b = [f 7, f 6, f 5, f 4, f 3, f 2, f 1, f 0]"
    by (simp only: bit_chars_bit upt f_def rev.simps append.simps list.map)
  moreover have "f i = 49 \<longleftrightarrow> bit b i" for i
    by (simp add: f_def)
  ultimately show ?thesis
    by (simp only: upt append.simps read_bits.simps list.map)
qed

lemma read_bits_key: "read_bits (concat (map bit_chars bs)) = bs"
  by (induction bs) (simp_all add: read_bits_chars)

lemma write_bits_eq:
  "cbytes m p bs \<Longrightarrow> write_bits (length bs) p m out = Inr (out @ concat (map bit_chars bs))"
proof (induction bs arbitrary: p out)
  case (Cons b bs)
  then show ?case
    using cbytes_Cons [OF Cons.prems] by simp
qed simp

section \<open>The file\<close>

definition key_entry :: "u32 \<Rightarrow> bytes \<Rightarrow> bytes" where
  "key_entry index key =
     str_bytes (''Index: '' @ fmt_nat (unat index)) @ 10 # str_bytes ''Key: '' @ concat (map bit_chars key) @
     [10, 10]"

lemma write_key_entry:
  assumes "fopen name" "bytes_at m (gks_key_buffer resp) key" "unat (gks_index resp) < 2 ^ 31"
  shows "write_key_to_file_bit_format fopen resp name fs m =
    Inr (fs(name \<mapsto> (case fs name of None \<Rightarrow> [] | Some c \<Rightarrow> c) @ key_entry (gks_index resp) key))"
proof -
  let ?i = "gks_index resp"
  have i: "fmt_d (sint ?i) = fmt_nat (unat ?i)"
    using assms(3) sint_u32_small [of ?i] by (simp add: fmt_d_def)
  have "unat ?i < 10 ^ 10"
    using assms(3) by simp
  then have len: "length (fmt_nat (unat ?i)) \<le> 10"
    by (subst length_fmt_nat) simp_all
  have "take (number_of_digits ?i) (write_at 0 (str_bytes (fmt_nat (unat ?i)) @ [0]) (junk_bytes 11 m)) =
      str_bytes (fmt_nat (unat ?i))"
    by (simp add: number_of_digits_eq write_at_def str_bytes_def)
  then show ?thesis
    using assms(1,2) len write_bits_eq [of m _ key]
    by (simp add: write_key_to_file_bit_format_def i bytes_at_def key_entry_def)
       (simp add: str_bytes_def)
qed

text \<open>An index whose signed reading needs eleven characters does not fit in the buffer.\<close>

lemma write_key_overflow:
  assumes "fopen name" "2 ^ 31 \<le> unat (gks_index resp)" "unat (gks_index resp) \<le> 2 ^ 32 - 10 ^ 9"
  shows "write_key_to_file_bit_format fopen resp name fs m = Inl OutOfBounds"
proof -
  let ?i = "gks_index resp"
  have s: "sint ?i = int (unat ?i) - 2 ^ 32"
    by (rule sint_u32_large) (use assms(2) in simp)
  have "\<not> length (fmt_nat (nat (- sint ?i))) \<le> 9"
    using assms(3) [THEN iffD2 [OF of_nat_le_iff [where 'a = int]]]
    by (subst length_fmt_nat) (simp_all add: s)
  then show ?thesis
    using assms(1) uint_bounded [of ?i] by (simp add: write_key_to_file_bit_format_def Let_def fmt_d_def s str_bytes_def)
qed

end
