(* ===== verification/UuidText.thy ===== *)
theory UuidText
  imports Models Format
begin

text \<open>
  Text forms of identifiers are libuuid's: the parsing and printing functions are fields of a
  parameter \<open>uuid_text\<close> (\<open>None\<close> for a non-zero return of \<open>uuid_parse\<close>), with
  \<open>uuid_text_laws\<close> as the documented behaviour the code relies on.
\<close>

record uuid_text =
  uuid_parse :: "bytes \<Rightarrow> bytes option"
  uuid_unparse :: "bytes \<Rightarrow> bytes"
  uuid_unparse_lower :: "bytes \<Rightarrow> bytes"

definition UUID_STR_LEN :: size_t where
  "UUID_STR_LEN = 37"

definition nil_text :: string where
  "nil_text = ''00000000-0000-0000-0000-000000000000''"

definition uuid_text_laws :: "uuid_text \<Rightarrow> bool" where
  "uuid_text_laws U \<longleftrightarrow>
     (\<forall>s u. uuid_parse U s = Some u \<longrightarrow> length u = 16) \<and>
     uuid_parse U (str_bytes nil_text) = Some nil_uuid \<and>
     (\<forall>u. length u = 16 \<longrightarrow> length (uuid_unparse U u) = 36 \<and> 0 \<notin> set (uuid_unparse U u) \<and>
        uuid_parse U (uuid_unparse U u) = Some u)"

end
