(* ===== verification/ClientExample.thy ===== *)
theory ClientExample
  imports Client WriteKey UuidText
begin

text \<open>
  The example program \<open>client_example.c\<close>: it opens a stream, opens it again with the
  identifier it got, asks for the key of index 0 in both roles, writes both keys to files and closes.
  A file system is threaded through besides the state of the client; the text form of identifiers is
  libuuid's, the parameter \<open>uuid_text\<close>.
\<close>

section \<open>Literals\<close>

text \<open>A string literal: a block with static storage.\<close>

definition literal :: "string \<Rightarrow> 'z mem_scheme \<Rightarrow> ptr \<times> 'z mem_scheme" where
  "literal s m = (Ptr (nxt m) 0, new_block True (str_bytes s @ [0]) m)"

section \<open>client\_example.c\<close>

definition example_cfg :: qkd_client_context_data where
  "example_cfg =
     \<lparr>cl_host = ''127.0.0.1'', cl_port = 25575, cl_cert_pem = Some ''../ssl/127.0.0.1.pem'',
      cl_key_pem = Some ''../ssl/127.0.0.1.key'', cl_peer_ca_pem = None, cl_max_proto_version = 0\<rparr>"

text \<open>The body of the loop over the key index.\<close>

definition key_round ::
  "'n openssl \<Rightarrow> libuuid \<Rightarrow> (string \<Rightarrow> bool) \<Rightarrow> int \<Rightarrow> ptr qkd_open_connect_response \<Rightarrow>
   ptr qkd_open_connect_response \<Rightarrow> u32 \<Rightarrow> files \<Rightarrow> 'n client \<Rightarrow> (files \<times> 'n client) res" where
  "key_round T L fopen keyType oc_response oc_response' index fs w =
     (let requested_key_type = (if keyType = 1 then 0x01 else 0x00);
          requested_key_role = 0x10;
          requested_key_role' = 0x11;
          key_info = nxt w;
          w = new_block True [requested_key_type, requested_key_role] w;
          key_info' = nxt w;
          w = new_block True [requested_key_type, requested_key_role'] w;
          gk_request = \<lparr>gkq_key_stream_id = uuid_copy L (ocs_key_stream_id oc_response), gkq_index = index,
            gkq_metadata = \<lparr>bytes_size = 2, bytes_data = Ptr key_info 0\<rparr>\<rparr>;
          gk_request' = \<lparr>gkq_key_stream_id = uuid_copy L (ocs_key_stream_id oc_response'), gkq_index = index,
            gkq_metadata = \<lparr>bytes_size = 2, bytes_data = Ptr key_info' 0\<rparr>\<rparr>
      in
      bind_res (qkd_get_key_struct (qkd_get_key T L) gk_request w) (\<lambda>(gk_response, w).
      bind_res (write_key_to_file_bit_format fopen gk_response ''test.key'' fs w) (\<lambda>fs.
      bind_res (qkd_get_key_struct (qkd_get_key T L) gk_request' w) (\<lambda>(gk_response', w).
      bind_res (write_key_to_file_bit_format fopen gk_response' ''test_.key'' fs w) (\<lambda>fs.
      Inr (fs, kill_block key_info' (kill_block key_info w)))))))"

fun key_rounds ::
  "'n openssl \<Rightarrow> libuuid \<Rightarrow> (string \<Rightarrow> bool) \<Rightarrow> int \<Rightarrow> ptr qkd_open_connect_response \<Rightarrow>
   ptr qkd_open_connect_response \<Rightarrow> nat list \<Rightarrow> files \<Rightarrow> 'n client \<Rightarrow> (files \<times> 'n client) res" where
  "key_rounds T L fopen keyType oc_response oc_response' [] fs w = Inr (fs, w)"
| "key_rounds T L fopen keyType oc_response oc_response' (index # is) fs w =
     bind_res (key_round T L fopen keyType oc_response oc_response' (of_nat index) fs w) (\<lambda>(fs, w).
     key_rounds T L fopen keyType oc_response oc_response' is fs w)"

definition getKey ::
  "'n openssl \<Rightarrow> libuuid \<Rightarrow> uuid_text \<Rightarrow> (string \<Rightarrow> bool) \<Rightarrow> int \<Rightarrow> files \<Rightarrow> 'n client \<Rightarrow>
   (files \<times> 'n client) res" where
  "getKey T L U fopen keyType fs w =
     (let w = w\<lparr>cfg := example_cfg\<rparr>;
          (source, w) = literal ''qkd//app1@aaaaaaaa-aaaa-aaaa-aaaa-aaaaaaaaaaaa'' w;
          (destination, w) = literal ''qkd//app2@bbbbbbbb-bbbb-bbbb-bbbb-bbbbbbbbbbbb'' w;
          (mimetype, w) = literal ''application/json'' w;
          q = \<lparr>key_chunk_size = 8192, max_bps = 32, min_bps = 32, jitter = 0, priority = 0, timeout = 0,
               ttl = 0, metadata_mimetype = mimetype\<rparr>;
          oc_request = \<lparr>ocq_source = source, ocq_destination = destination, ocq_qos = q,
            ocq_key_stream_id = (case uuid_parse U (str_bytes nil_text) of None \<Rightarrow> nil_uuid | Some u \<Rightarrow> u)\<rparr>
      in
      bind_res (qkd_open_connect_struct (qkd_open_connect T L) oc_request w) (\<lambda>(oc_response, w).
      let oc_request' = \<lparr>ocq_source = source, ocq_destination = destination, ocq_qos = q,
            ocq_key_stream_id = ocs_key_stream_id oc_response\<rparr>
      in
      bind_res (qkd_open_connect_struct (qkd_open_connect T L) oc_request' w) (\<lambda>(oc_response', w).
      bind_res (key_rounds T L fopen keyType oc_response oc_response' [0..<1] fs w) (\<lambda>(fs, w).
      let cl_request = \<lparr>clq_key_stream_id = uuid_copy L (ocs_key_stream_id oc_response)\<rparr> in
      bind_res (qkd_close_struct (qkd_close T L) cl_request w) (\<lambda>(cl_response, w).
      let cl_request' = \<lparr>clq_key_stream_id = uuid_copy L (ocs_key_stream_id oc_response')\<rparr> in
      bind_res (qkd_close_struct (qkd_close T L) cl_request' w) (\<lambda>(cl_response', w).
      Inr (fs, w)))))))"

definition main ::
  "'n openssl \<Rightarrow> libuuid \<Rightarrow> uuid_text \<Rightarrow> (string \<Rightarrow> bool) \<Rightarrow> files \<Rightarrow> 'n client \<Rightarrow>
   (int \<times> files \<times> 'n client) res" where
  "main T L U fopen fs w = bind_res (getKey T L U fopen 1 fs w) (\<lambda>(fs, w). Inr (0, fs, w))"

end
