(* ===== verification/ClientApi.thy ===== *)
theory ClientApi
  imports ClientExample
begin

text \<open>
  The flat C interface of \<open>client_api.c\<close>. Strings of the configuration are values (\<open>None\<close> for NULL); the other
  strings are pointers into the memory of the caller. The conditions of the source that compare the
  address of a local object or of an array with NULL are never true and have no branch here.
\<close>

definition api_cfg :: "string option \<Rightarrow> string option \<Rightarrow> string \<Rightarrow> 32 word \<Rightarrow> qkd_client_context_data" where
  "api_cfg certPem keyPem host port =
     \<lparr>cl_host = host, cl_port = ucast port, cl_cert_pem = certPem, cl_key_pem = keyPem,
      cl_peer_ca_pem = None, cl_max_proto_version = 0\<rparr>"

text \<open>\<open>strdup\<close>: a copy of a literal, or NULL when the allocator refuses.\<close>

definition strdup :: "string \<Rightarrow> 'z mem_scheme \<Rightarrow> (ptr \<times> 'z mem_scheme) res" where
  "strdup s m =
     (case malloc (of_nat (length s + 1)) m of (p, m) \<Rightarrow>
        if p = NULL then Inr (NULL, m) else bind_res (store p (str_bytes s @ [0]) m) (\<lambda>m. Inr (p, m)))"

definition openConnect ::
  "'n openssl \<Rightarrow> libuuid \<Rightarrow> uuid_text \<Rightarrow> string option \<Rightarrow> string option \<Rightarrow> string \<Rightarrow> 32 word \<Rightarrow> ptr \<Rightarrow> ptr \<Rightarrow> ptr \<Rightarrow>
   32 word \<Rightarrow> 'n client \<Rightarrow> (ptr \<times> 'n client) res" where
  "openConnect T L U certPem keyPem host port myUuid peerUuid ksid keyLength w =
     (let w = w\<lparr>cfg := api_cfg certPem keyPem host port\<rparr>;
          (mimetype, w) = literal ''application/json'' w;
          q = \<lparr>key_chunk_size = keyLength, max_bps = 32, min_bps = 32, jitter = 0, priority = 0,
               timeout = 0, ttl = 0, metadata_mimetype = mimetype\<rparr>
      in
      bind_res (if ksid = NULL then strdup nil_text w else Inr (ksid, w)) (\<lambda>(ksid, w).
      if ksid = NULL then Inr (NULL, w)
      else
        bind_res (read_cstr ksid w) (\<lambda>text.
        case uuid_parse U text of
          None \<Rightarrow> bind_res (free ksid w) (\<lambda>w. Inr (NULL, w))
        | Some u \<Rightarrow>
            bind_res (qkd_open_connect_struct (qkd_open_connect T L)
                \<lparr>ocq_source = myUuid, ocq_destination = peerUuid, ocq_qos = q, ocq_key_stream_id = u\<rparr> w)
              (\<lambda>(oc_response, w).
            let (result_key_stream_id, w) = malloc (UUID_STR_LEN + 1) w in
            bind_res (store result_key_stream_id (uuid_unparse U (ocs_key_stream_id oc_response) @ [0]) w) (\<lambda>w.
            Inr (result_key_stream_id, w))))))"

text \<open>The argument \<open>keyType\<close> is not used: the request always asks for a symmetric key.\<close>

definition getKey ::
  "'n openssl \<Rightarrow> libuuid \<Rightarrow> uuid_text \<Rightarrow> string option \<Rightarrow> string option \<Rightarrow> string \<Rightarrow> 32 word \<Rightarrow> u8 \<Rightarrow> 32 word \<Rightarrow> ptr \<Rightarrow>
   'n client \<Rightarrow> (qkd_bytes qkd_get_key_response \<times> 'n client) res" where
  "getKey T L U certPem keyPem host port keyType index ksid w =
     (let w = w\<lparr>cfg := api_cfg certPem keyPem host port\<rparr>;
          key_info = nxt w;
          w = new_block True [type_code qkd_key_type_symmetric, role_code qkd_key_type_role_default] w
      in
      bind_res (read_cstr ksid w) (\<lambda>text.
      case uuid_parse U text of
        None \<Rightarrow> Inr (zero_get_key_response, kill_block key_info w)
      | Some u \<Rightarrow>
          bind_res (qkd_get_key_struct (qkd_get_key T L)
              \<lparr>gkq_key_stream_id = u, gkq_index = index,
               gkq_metadata = \<lparr>bytes_size = 2, bytes_data = Ptr key_info 0\<rparr>\<rparr> w) (\<lambda>(gk_response, w).
          Inr (gk_response, kill_block key_info w))))"

definition close ::
  "'n openssl \<Rightarrow> libuuid \<Rightarrow> uuid_text \<Rightarrow> string option \<Rightarrow> string option \<Rightarrow> string \<Rightarrow> 32 word \<Rightarrow> ptr \<Rightarrow>
   'n client \<Rightarrow> (qkd_close_response \<times> 'n client) res" where
  "close T L U certPem keyPem host port ksid w =
     (let w = w\<lparr>cfg := api_cfg certPem keyPem host port\<rparr> in
      bind_res (read_cstr ksid w) (\<lambda>text.
      qkd_close_struct (qkd_close T L)
        \<lparr>clq_key_stream_id = (case uuid_parse U text of None \<Rightarrow> nil_uuid | Some u \<Rightarrow> u)\<rparr> w))"

end
