(* ===== verification/EndToEnd.thy ===== *)
theory EndToEnd
  imports Deployment ClientApi
begin

text \<open>
  Whole runs: the example program and the flat C interface, linked with the remote
  implementation of the calls, against the key management server at the other end of the wire.
\<close>

section \<open>Sessions\<close>

text \<open>A client in good order whose peer is a server in the abstract state \<open>k\<close>.\<close>

definition session :: "libuuid \<Rightarrow> site client \<Rightarrow> kms \<Rightarrow> bool" where
  "session L w k \<longleftrightarrow> wf_mem w \<and> no_oom w \<and> 16384 \<le> stack_size w \<and> site_at L 8388608 (net w) k"

lemma session_grows:
  assumes "session L w k" "grows w A w'" "wf_mem w'" "no_oom w'" "site_at L 8388608 (net w') k'"
  shows "session L w' k'"
  using assms by (simp add: session_def grows_def)

lemma session_block:
  "session L w k \<Longrightarrow> length c < 2 ^ 64 \<Longrightarrow> session L (new_block a c w) k"
  "session L w k \<Longrightarrow> session L (kill_block b w) k"
  "session L w k \<Longrightarrow> session L (w\<lparr>cfg := cf\<rparr>) k"
  by (simp_all add: session_def) (simp add: wf_mem_def no_oom_def)

lemma session_info: "session L w k \<Longrightarrow> length (kms_info k) \<le> 104"
  using length_device_info [of "config (srv (net w))"] by (auto simp: session_def site_at_def kms_rel_def)

lemma session_open:
  assumes "session L w k" "ocq_at w x X" "fits_ocq X" "length (enc_ocq X) + 8 \<le> 16384"
    and "kms_open L (ocq_source X) (ocq_destination X) (ocq_qos X) (ocq_key_stream_id X) k = (ksid, k')"
  shows "\<exists>y w'. qkd_open_connect_struct (Client.qkd_open_connect (site_ssl R L) L) x w = Inr (y, w') \<and>
    ocs_at w' y (oc_answer X ksid) \<and> session L w' k' \<and> keeps w w'"
proof -
  have w: "site_at L 8388608 (net w) k" "wf_mem w" "no_oom w" "512 \<le> stack_size w" "16384 \<le> stack_size w"
      "length (enc_ocq X) + 8 \<le> 16384" "length (enc_ocq X) \<le> 8388608"
    using assms(1,4) by (simp_all add: session_def)
  obtain y w' where w': "qkd_open_connect_struct (Client.qkd_open_connect (site_ssl R L) L) x w = Inr (y, w')"
      "ocs_at w' y (oc_answer X ksid)" "site_at L 8388608 (net w') k'" "wf_mem w'" "no_oom w'"
      "grows w {nxt w + 2, nxt w + 4, nxt w + 6} w'"
    using site_open [OF w(1-4) assms(2,3) w(6,7) assms(5)] by blast
  then have "session L w' k'" "keeps w w'"
    using session_grows [OF assms(1) w'(6)] grows_keeps by blast+
  with w'(1,2) show ?thesis by blast
qed

lemma session_get:
  assumes w: "session L w k" "gkq_at w x X" "length (gkq_metadata X) \<le> 1024"
    and step: "kms_get R L (gkq_key_stream_id X) (gkq_index X) (gkq_metadata X) k = Some (key, info, k')"
    and key: "length key \<le> 8192"
  shows "\<exists>w'. qkd_get_key_struct (Client.qkd_get_key (site_ssl R L) L) x w =
      Inr (gks_struct (gk_answer 0 (gkq_index X) key info) (nxt w + 3), w') \<and>
    gks_at w' (gks_struct (gk_answer 0 (gkq_index X) key info) (nxt w + 3)) (gk_answer 0 (gkq_index X) key info) \<and>
    session L w' k' \<and> keeps w w'"
proof -
  have "length info \<le> 105"
    using session_info [OF w(1)] step
    by (auto simp: kms_get_def split: option.splits list.splits if_splits)
  moreover have "length (enc_gkq X) = 24 + length (gkq_metadata X)"
    using w(2) by (simp add: gkq_at_def enc_gkq_def length_enc)
  ultimately show ?thesis
    using site_get [OF _ _ _ _ w(2) _ _ step] w(1,3) key
    by (fastforce simp: session_def grows_stack intro: grows_keeps)
qed

lemma session_close:
  assumes "session L w k" "valid_clq x"
  shows "\<exists>w'. qkd_close_struct (Client.qkd_close (site_ssl R L) L) x w = Inr (\<lparr>cls_status = 0\<rparr>, w') \<and>
    session L w' k \<and> keeps w w'"
  using site_close [OF _ _ _ _ assms(2), of L 8388608 w k R] assms(1)
  by (fastforce simp: session_def grows_stack intro: grows_keeps)

lemma gkq_at_keeps: "wf_mem w \<Longrightarrow> keeps w w' \<Longrightarrow> gkq_at w x X \<Longrightarrow> gkq_at w' x X"
  using cbytes_keeps [of w w'] by (simp add: gkq_at_def bytes_at_def)

section \<open>A stream that is new to the server\<close>

text \<open>The stream an OPEN\_CONNECT without an identifier adds, and the state it leads to.\<close>

definition new_stream :: "libuuid \<Rightarrow> bytes \<Rightarrow> bytes \<Rightarrow> bytes qkd_qos \<Rightarrow> kms \<Rightarrow> key_stream" where
  "new_stream L S D Q k =
     \<lparr>ks_id = uuid_generate_random L (kms_draws k), ks_source = S, ks_destination = D, ks_qos = Q, ks_index = 0\<rparr>"

definition with_stream :: "key_stream \<Rightarrow> kms \<Rightarrow> kms" where
  "with_stream s k = k\<lparr>kms_streams := kms_streams k @ [s], kms_draws := Suc (kms_draws k)\<rparr>"

definition unheard :: "libuuid \<Rightarrow> bytes \<Rightarrow> bytes \<Rightarrow> kms \<Rightarrow> bool" where
  "unheard L S D k \<longleftrightarrow>
     find_peer S D (kms_streams k) = None \<and>
     uuid_generate_random L (kms_draws k) \<notin> set (map ks_id (kms_streams k))"

lemma find_append: "find P (xs @ ys) = (case find P xs of None \<Rightarrow> find P ys | Some x \<Rightarrow> Some x)"
  by (induction xs) auto

lemma bump_append: "ksid \<notin> set (map ks_id ss) \<Longrightarrow> bump ksid (ss @ ts) = ss @ bump ksid ts"
  by (induction ss) auto

lemma find_stream_None: "ksid \<notin> set (map ks_id ss) \<Longrightarrow> find_stream ksid ss = None"
  by (force simp: find_stream_def find_None_iff)

lemma open_new:
  assumes "unheard L S D k"
  shows "kms_open L S D Q nil_uuid k = (uuid_generate_random L (kms_draws k), with_stream (new_stream L S D Q k) k)"
  using assms by (simp add: kms_open_def oc_spec_def unheard_def with_stream_def new_stream_def)

lemma open_again:
  assumes "unheard L S D k" and s: "s = new_stream L S D Q k"
  shows "kms_open L S D Q' (ks_id s) (with_stream s k) = (ks_id s, with_stream s k)"
  using assms by (simp add: kms_open_def oc_spec_def unheard_def with_stream_def new_stream_def
      find_peer_def find_append)

lemma get_new:
  assumes "unheard L S D k" "ks_id s = uuid_generate_random L (kms_draws k)" "ks_index s \<noteq> 0x7FFFFFFF"
  shows "kms_get R L (ks_id s) index [ty, role] (with_stream s k) =
    Some (stream_key R s index ty role, kms_info k @ [0], with_stream (s\<lparr>ks_index := ks_index s + 1\<rparr>) k)"
proof -
  have new: "ks_id s \<notin> set (map ks_id (kms_streams k))"
    using assms(1,2) by (simp add: unheard_def)
  then have "find_stream (ks_id s) (kms_streams k @ [s]) = Some s"
    using find_stream_None [OF new] by (simp add: find_stream_def find_append)
  then show ?thesis
    using assms(3) bump_append [OF new, of "[s]"] by (simp add: kms_get_def with_stream_def)
qed

section \<open>client\_example.c\<close>

definition example_source :: bytes where
  "example_source = str_bytes ''qkd//app1@aaaaaaaa-aaaa-aaaa-aaaa-aaaaaaaaaaaa''"

definition example_destination :: bytes where
  "example_destination = str_bytes ''qkd//app2@bbbbbbbb-bbbb-bbbb-bbbb-bbbbbbbbbbbb''"

definition example_qos :: "'p \<Rightarrow> 'p qkd_qos" where
  "example_qos p = \<lparr>key_chunk_size = 8192, max_bps = 32, min_bps = 32, jitter = 0, priority = 0,
     timeout = 0, ttl = 0, metadata_mimetype = p\<rparr>"

definition example_request :: "bytes \<Rightarrow> bytes qkd_open_connect_request" where
  "example_request ksid = \<lparr>ocq_source = example_source, ocq_destination = example_destination,
     ocq_qos = example_qos (str_bytes ''application/json''), ocq_key_stream_id = ksid\<rparr>"

definition appended :: "files \<Rightarrow> string \<Rightarrow> bytes \<Rightarrow> files" where
  "appended fs name bs = fs(name \<mapsto> (case fs name of None \<Rightarrow> [] | Some c \<Rightarrow> c) @ bs)"

lemma length_stream_key: "length (stream_key R s index ty role) = unat (key_chunk_size (ks_qos s))"
  by (simp add: stream_key_def Let_def)

lemma key_round_run:
  assumes w: "session L w (with_stream s k)" and s: "unheard L S D k" "ks_id s = uuid_generate_random L (kms_draws k)"
      "ks_index s + 1 \<noteq> 0x7FFFFFFF" "ks_index s \<noteq> 0x7FFFFFFF" "unat (key_chunk_size (ks_qos s)) \<le> 8192"
    and oc: "ocs_key_stream_id oc = ks_id s" "ocs_key_stream_id oc' = ks_id s"
    and fopen: "fopen ''test.key''" "fopen ''test_.key''" and index: "unat index < 2 ^ 31"
  shows "\<exists>w'. key_round (site_ssl R L) L fopen 1 oc oc' index fs w =
      Inr (appended (appended fs ''test.key'' (key_entry index (stream_key R s index 1 16)))
        ''test_.key'' (key_entry index (stream_key R s index 1 17)), w') \<and>
    session L w' (with_stream (s\<lparr>ks_index := ks_index s + 1 + 1\<rparr>) k) \<and> keeps w w'"
proof -
  let ?w1 = "new_block True [1, 16] w"
  let ?w2 = "new_block True [1, 17] ?w1"
  let ?x = "\<lparr>gkq_key_stream_id = ks_id s, gkq_index = index, gkq_metadata = \<lparr>bytes_size = 2, bytes_data = Ptr (nxt w) 0\<rparr>\<rparr>"
  let ?x' = "\<lparr>gkq_key_stream_id = ks_id s, gkq_index = index, gkq_metadata = \<lparr>bytes_size = 2, bytes_data = Ptr (Suc (nxt w)) 0\<rparr>\<rparr>"
  let ?X = "\<lambda>role. \<lparr>gkq_key_stream_id = ks_id s, gkq_index = index, gkq_metadata = [1, role]\<rparr>"
  let ?s' = "s\<lparr>ks_index := ks_index s + 1\<rparr>"
  have L: "uuid_laws L" "length (ks_id s) = 16"
    using w s(2) by (auto simp: session_def dest: site_laws)
  have w2: "session L ?w2 (with_stream s k)"
    by (intro session_block w) simp_all
  have at: "gkq_at ?w2 ?x (?X 16)"
    using L(2) by (simp add: gkq_at_def bytes_at_def cbytes_def load_def)
  have "kms_get R L (gkq_key_stream_id (?X 16)) (gkq_index (?X 16)) (gkq_metadata (?X 16)) (with_stream s k) =
      Some (stream_key R s index 1 16, kms_info k @ [0], with_stream ?s' k)"
    using get_new [OF s(1,2,4)] by simp
  from session_get [OF w2 at _ this] s(5)
  obtain y w3 where w3: "qkd_get_key_struct (Client.qkd_get_key (site_ssl R L) L) ?x ?w2 = Inr (y, w3)"
      "gks_at w3 y (gk_answer 0 index (stream_key R s index 1 16) (kms_info k @ [0]))"
      "session L w3 (with_stream ?s' k)" "keeps ?w2 w3"
    by (auto simp: length_stream_key)
  have "blocks w3 (Suc (nxt w)) = Some [1, 17]"
    using w3(4) by (simp add: keeps_def)
  then have at': "gkq_at w3 ?x' (?X 17)"
    using L(2) by (simp add: gkq_at_def bytes_at_def cbytes_def load_def)
  have "kms_get R L (gkq_key_stream_id (?X 17)) (gkq_index (?X 17)) (gkq_metadata (?X 17)) (with_stream ?s' k) =
      Some (stream_key R s index 1 17, kms_info k @ [0], with_stream (?s'\<lparr>ks_index := ks_index s + 1 + 1\<rparr>) k)"
    using get_new [OF s(1), of ?s' R index 1 17] s(2,3) by (simp add: stream_key_def)
  from session_get [OF w3(3) at' _ this] s(5)
  obtain y' w4 where w4: "qkd_get_key_struct (Client.qkd_get_key (site_ssl R L) L) ?x' w3 = Inr (y', w4)"
      "gks_at w4 y' (gk_answer 0 index (stream_key R s index 1 17) (kms_info k @ [0]))"
      "session L w4 (with_stream (s\<lparr>ks_index := ks_index s + 1 + 1\<rparr>) k)" "keeps w3 w4"
    by (auto simp: length_stream_key)
  have files: "write_key_to_file_bit_format fopen y ''test.key'' fs w3 =
      Inr (appended fs ''test.key'' (key_entry index (stream_key R s index 1 16)))"
      "write_key_to_file_bit_format fopen y' ''test_.key'' fs' w4 =
      Inr (appended fs' ''test_.key'' (key_entry index (stream_key R s index 1 17)))" for fs'
    using write_key_entry [of fopen _ w3 y] write_key_entry [of fopen _ w4 y'] w3(2) w4(2) fopen index
    by (simp_all add: gks_at_def gk_answer_def appended_def)
  have "keeps w w4"
    using keeps_trans [OF keeps_trans [OF _ w3(4)] w4(4)] by (simp add: keeps_new_block)
  then show ?thesis
    using w3(1) w4(1,3) files oc L
    by (auto simp: key_round_def Let_def intro: session_block keeps_kill_block)
qed

lemma example_at:
  assumes "cstr w src example_source" "cstr w dst example_destination" "cstr w mime (str_bytes ''application/json'')"
    "length ksid = 16"
  shows "ocq_at w \<lparr>ocq_source = src, ocq_destination = dst, ocq_qos = example_qos mime, ocq_key_stream_id = ksid\<rparr>
    (example_request ksid)"
  using assms by (simp add: ocq_at_def example_request_def qos_at_def example_qos_def)

lemma example_fits:
  "length ksid = 16 \<Longrightarrow> length (enc_ocq (example_request ksid)) + 8 \<le> 16384" "fits_ocq (example_request ksid)"
  by (simp_all add: example_request_def enc_ocq_def length_enc example_qos_def fits_ocq_def fits_mime_def
      example_source_def example_destination_def str_bytes_def)

text \<open>The memory once the literals of the program are in it, and the two requests it sends.\<close>

definition example_mem :: "'n client \<Rightarrow> 'n client" where
  "example_mem w = new_block True (str_bytes ''application/json'' @ [0])
     (new_block True (example_destination @ [0]) (new_block True (example_source @ [0]) (w\<lparr>cfg := example_cfg\<rparr>)))"

definition example_struct :: "nat \<Rightarrow> bytes \<Rightarrow> ptr qkd_open_connect_request" where
  "example_struct n ksid = \<lparr>ocq_source = Ptr n 0, ocq_destination = Ptr (Suc n) 0,
     ocq_qos = example_qos (Ptr (Suc (Suc n)) 0), ocq_key_stream_id = ksid\<rparr>"

lemma example_literals:
  assumes "session L w k"
  shows "cstr (example_mem w) (Ptr (nxt w) 0) example_source"
    "cstr (example_mem w) (Ptr (Suc (nxt w)) 0) example_destination"
    "cstr (example_mem w) (Ptr (Suc (Suc (nxt w))) 0) (str_bytes ''application/json'')"
    "keeps w (example_mem w)" "session L (example_mem w) k"
proof -
  show "session L (example_mem w) k"
    unfolding example_mem_def
    by (intro session_block assms) (simp_all add: example_source_def example_destination_def str_bytes_def)
qed (simp_all add: example_mem_def cstr_def keeps_def, simp_all add: example_source_def example_destination_def str_bytes_def)

lemma example_opens:
  assumes w: "session L w k" and k: "unheard L example_source example_destination k"
    and s: "s = new_stream L example_source example_destination (example_qos (str_bytes ''application/json'')) k"
  shows "\<exists>y w4 y' w5.
    qkd_open_connect_struct (Client.qkd_open_connect (site_ssl R L) L) (example_struct (nxt w) nil_uuid)
      (example_mem w) = Inr (y, w4) \<and> ocs_key_stream_id y = ks_id s \<and>
    qkd_open_connect_struct (Client.qkd_open_connect (site_ssl R L) L) (example_struct (nxt w) (ks_id s)) w4 =
      Inr (y', w5) \<and> ocs_key_stream_id y' = ks_id s \<and>
    session L w5 (with_stream s k) \<and> keeps w w5"
proof -
  let ?id = "ks_id s" and ?w = "example_mem w"
  have L: "length ?id = 16" "?id = uuid_generate_random L (kms_draws k)"
    using w s by (auto simp: session_def new_stream_def dest: site_laws)
  note lits = example_literals [OF w]
  have oc: "kms_open L (ocq_source (example_request nil_uuid)) (ocq_destination (example_request nil_uuid))
      (ocq_qos (example_request nil_uuid)) (ocq_key_stream_id (example_request nil_uuid)) k = (?id, with_stream s k)"
    using open_new [OF k] L(2) by (simp add: example_request_def s)
  from session_open [OF lits(5) example_at [OF lits(1-3) length_nil_uuid] example_fits(2) example_fits(1) oc, of R]
  obtain y w4 where w4: "qkd_open_connect_struct (Client.qkd_open_connect (site_ssl R L) L)
        (example_struct (nxt w) nil_uuid) ?w = Inr (y, w4)"
      "ocs_key_stream_id y = ?id" "session L w4 (with_stream s k)" "keeps ?w w4"
    by (auto simp: ocs_at_def oc_answer_def example_struct_def)
  have oc': "kms_open L (ocq_source (example_request ?id)) (ocq_destination (example_request ?id))
      (ocq_qos (example_request ?id)) (ocq_key_stream_id (example_request ?id)) (with_stream s k) =
      (?id, with_stream s k)"
    using open_again [OF k s] by (simp add: example_request_def)
  have "wf_mem ?w"
    using lits(5) by (simp add: session_def)
  note lits4 = lits(1-3) [THEN cstr_keeps [OF this w4(4)]]
  from session_open [OF w4(3) example_at [OF lits4 L(1)] example_fits(2) example_fits(1) [OF L(1)] oc', of R]
  obtain y' w5 where "qkd_open_connect_struct (Client.qkd_open_connect (site_ssl R L) L)
        (example_struct (nxt w) ?id) w4 = Inr (y', w5)"
      "ocs_key_stream_id y' = ?id" "session L w5 (with_stream s k)" "keeps w4 w5"
    by (auto simp: ocs_at_def oc_answer_def example_struct_def)
  with w4 show ?thesis
    using keeps_trans [OF keeps_trans [OF lits(4) w4(4)]] by blast
qed

lemma getKey_run:
  assumes w: "session L w k" and U: "uuid_text_laws U"
    and k: "unheard L example_source example_destination k"
    and fopen: "fopen ''test.key''" "fopen ''test_.key''"
    and s: "s = new_stream L example_source example_destination (example_qos (str_bytes ''application/json'')) k"
  shows "\<exists>w'. ClientExample.getKey (site_ssl R L) L U fopen 1 fs w =
      Inr (appended (appended fs ''test.key'' (key_entry 0 (stream_key R s 0 1 16)))
        ''test_.key'' (key_entry 0 (stream_key R s 0 1 17)), w') \<and>
    session L w' (with_stream (s\<lparr>ks_index := 2\<rparr>) k) \<and> keeps w w'"
proof -
  let ?T = "site_ssl R L" and ?k = "with_stream (s\<lparr>ks_index := 2\<rparr>) k"
  let ?fs = "appended (appended fs ''test.key'' (key_entry 0 (stream_key R s 0 1 16)))
        ''test_.key'' (key_entry 0 (stream_key R s 0 1 17))"
  have L: "uuid_laws L" "length (ks_id s) = 16" "ks_id s = uuid_generate_random L (kms_draws k)"
    using w s by (auto simp: session_def new_stream_def dest: site_laws)
  obtain y w4 y' w5 where o: "qkd_open_connect_struct (Client.qkd_open_connect ?T L)
        (example_struct (nxt w) nil_uuid) (example_mem w) = Inr (y, w4)" "ocs_key_stream_id y = ks_id s"
      "qkd_open_connect_struct (Client.qkd_open_connect ?T L) (example_struct (nxt w) (ks_id s)) w4 = Inr (y', w5)"
      "ocs_key_stream_id y' = ks_id s" "session L w5 (with_stream s k)" "keeps w w5"
    using example_opens [OF w k s, of R] by blast
  have "ks_index s = 0" "key_chunk_size (ks_qos s) = 8192"
    by (simp_all add: s new_stream_def example_qos_def)
  then obtain w6 where w6: "key_round ?T L fopen 1 y y' 0 fs w5 = Inr (?fs, w6)" "session L w6 ?k" "keeps w5 w6"
    using key_round_run [OF o(5) k L(3) _ _ _ o(2,4) fopen, of 0 R fs] by auto
  have cl: "valid_clq \<lparr>clq_key_stream_id = ks_id s\<rparr>"
    by (simp add: valid_clq_def L(2))
  obtain w7 where w7: "qkd_close_struct (Client.qkd_close ?T L) \<lparr>clq_key_stream_id = ks_id s\<rparr> w6 =
      Inr (\<lparr>cls_status = 0\<rparr>, w7)" "session L w7 ?k" "keeps w6 w7"
    using session_close [OF w6(2) cl] by blast
  obtain w8 where w8: "qkd_close_struct (Client.qkd_close ?T L) \<lparr>clq_key_stream_id = ks_id s\<rparr> w7 =
      Inr (\<lparr>cls_status = 0\<rparr>, w8)" "session L w8 ?k" "keeps w7 w8"
    using session_close [OF w7(2) cl] by blast
  have "ClientExample.getKey ?T L U fopen 1 fs w = Inr (?fs, w8)"
    using o(1-4) w6(1) w7(1) w8(1) U L(1,2)
    by (simp add: ClientExample.getKey_def literal_def Let_def uuid_text_laws_def example_mem_def
        example_struct_def example_qos_def example_source_def example_destination_def)
  then show ?thesis
    using w8(2) keeps_trans [OF keeps_trans [OF keeps_trans [OF o(6) w6(3)] w7(3)] w8(3)] by blast
qed

section \<open>client\_api.c\<close>

definition api_qos :: "32 word \<Rightarrow> 'p \<Rightarrow> 'p qkd_qos" where
  "api_qos len p = (example_qos p)\<lparr>key_chunk_size := len\<rparr>"

definition api_stream :: "libuuid \<Rightarrow> bytes \<Rightarrow> bytes \<Rightarrow> 32 word \<Rightarrow> kms \<Rightarrow> key_stream" where
  "api_stream L S D len k = new_stream L S D (api_qos len (str_bytes ''application/json'')) k"

lemma strdup_no_oom:
  assumes "no_oom m" "length s < 1000"
  shows "strdup s m = Inr (Ptr (nxt m) 0, new_block False (str_bytes s @ [0]) m)"
proof -
  have "unat (of_nat (length s + 1) :: size_t) = length s + 1"
    by (rule unat_of_nat_size) (use assms(2) in simp)
  then show ?thesis
    using assms(1) by (simp add: strdup_def malloc_no_oom store_room put_new_block str_bytes_def del: of_nat_add)
qed

text \<open>Storing the text of an identifier in a buffer of 38 characters.\<close>

lemma store_text:
  assumes "no_oom m" "length t = 36" "0 \<notin> set t"
  shows "\<exists>m'. malloc (UUID_STR_LEN + 1) m = (Ptr (nxt m) 0, new_block False (junk_bytes 38 m) m) \<and>
    store (Ptr (nxt m) 0) (t @ [0]) (new_block False (junk_bytes 38 m) m) = Inr m' \<and>
    cstr m' (Ptr (nxt m) 0) t \<and> m' = new_block False (t @ [0] @ drop 37 (junk_bytes 38 m)) m"
  using assms
  by (simp add: UUID_STR_LEN_def malloc_no_oom store_def put_def new_block_def write_at_def cstr_def)

lemma api_open:
  assumes w: "session L w k" and U: "uuid_text_laws U" and k: "unheard L S D k"
    and args: "cstr w my S" "cstr w peer D" "length S + length D \<le> 16000"
  shows "\<exists>p w'. openConnect (site_ssl R L) L U certPem keyPem host port my peer NULL len w = Inr (p, w') \<and>
    cstr w' p (uuid_unparse U (ks_id (api_stream L S D len k))) \<and>
    session L w' (with_stream (api_stream L S D len k) k) \<and> keeps w w'"
proof -
  let ?s = "api_stream L S D len k" and ?mime = "str_bytes ''application/json''"
  let ?w1 = "new_block True (?mime @ [0]) (w\<lparr>cfg := api_cfg certPem keyPem host port\<rparr>)"
  let ?w2 = "new_block False (str_bytes nil_text @ [0]) ?w1"
  let ?x = "\<lparr>ocq_source = my, ocq_destination = peer, ocq_qos = api_qos len (Ptr (nxt w) 0), ocq_key_stream_id = nil_uuid\<rparr>"
  let ?X = "\<lparr>ocq_source = S, ocq_destination = D, ocq_qos = api_qos len ?mime, ocq_key_stream_id = nil_uuid\<rparr>"
  have w1: "session L ?w1 k"
    by (intro session_block w) (simp add: str_bytes_def)
  have w2: "session L ?w2 k" "keeps w ?w2" "no_oom ?w1"
    using w1 session_block(1) [OF w1, of "str_bytes nil_text @ [0]" False]
    by (simp_all add: nil_text_def str_bytes_def keeps_def session_def)
  have wf: "wf_mem w" and L: "length (ks_id ?s) = 16"
    using w by (auto simp: session_def api_stream_def new_stream_def dest: site_laws)
  have dup: "strdup nil_text ?w1 = Inr (Ptr (Suc (nxt w)) 0, ?w2)"
    using strdup_no_oom [OF w2(3), of nil_text] by (simp add: nil_text_def)
  have "cstr ?w2 (Ptr (Suc (nxt w)) 0) (str_bytes nil_text)" "cstr ?w2 (Ptr (nxt w) 0) ?mime"
    by (simp_all add: cstr_def) (simp_all add: nil_text_def str_bytes_def)
  then have at: "read_cstr (Ptr (Suc (nxt w)) 0) ?w2 = Inr (str_bytes nil_text)" "ocq_at ?w2 ?x ?X"
    using args cstr_keeps [OF wf w2(2)]
    by (simp_all add: read_cstr_cstr ocq_at_def qos_at_def api_qos_def example_qos_def)
  have X: "fits_ocq ?X" "length (enc_ocq ?X) + 8 \<le> 16384"
    using args(3) by (simp_all add: fits_ocq_def fits_mime_def api_qos_def example_qos_def enc_ocq_def length_enc str_bytes_def)
  have "kms_open L (ocq_source ?X) (ocq_destination ?X) (ocq_qos ?X) (ocq_key_stream_id ?X) k =
      (ks_id ?s, with_stream ?s k)"
    using open_new [OF k] by (simp add: api_stream_def new_stream_def)
  from session_open [OF w2(1) at(2) X this, of R]
  obtain y w3 where w3: "qkd_open_connect_struct (Client.qkd_open_connect (site_ssl R L) L) ?x ?w2 = Inr (y, w3)"
      "ocs_key_stream_id y = ks_id ?s" "session L w3 (with_stream ?s k)" "keeps ?w2 w3"
    by (auto simp: ocs_at_def oc_answer_def)
  have "no_oom w3" "length (uuid_unparse U (ks_id ?s)) = 36" "0 \<notin> set (uuid_unparse U (ks_id ?s))"
    using w3(3) U L by (simp_all add: session_def uuid_text_laws_def)
  from store_text [OF this] obtain m' where m': "malloc (UUID_STR_LEN + 1) w3 =
        (Ptr (nxt w3) 0, new_block False (junk_bytes 38 w3) w3)"
      "store (Ptr (nxt w3) 0) (uuid_unparse U (ks_id ?s) @ [0]) (new_block False (junk_bytes 38 w3) w3) = Inr m'"
      "cstr m' (Ptr (nxt w3) 0) (uuid_unparse U (ks_id ?s))"
      "m' = new_block False (uuid_unparse U (ks_id ?s) @ [0] @ drop 37 (junk_bytes 38 w3)) w3"
    by blast
  have "session L m' (with_stream ?s k)" "keeps w m'"
    using w3(3) U L keeps_trans [OF w2(2) w3(4)]
    by (auto simp: m'(4) uuid_text_laws_def intro: session_block keeps_new_block)
  moreover have "openConnect (site_ssl R L) L U certPem keyPem host port my peer NULL len w = Inr (Ptr (nxt w3) 0, m')"
    using dup at(1) w3(1,2) m'(1,2) U
    by (simp add: openConnect_def literal_def uuid_text_laws_def api_qos_def example_qos_def)
  ultimately show ?thesis
    using m'(3) by blast
qed

lemma bytes_at_kill_other:
  "\<not> in_block b (bytes_data d) \<Longrightarrow> bytes_at (kill_block b m) d bs = bytes_at m d bs"
  by (simp add: bytes_at_def cbytes_def load_kill_other)

lemma api_get:
  assumes w: "session L w (with_stream s k)" and U: "uuid_text_laws U" and k: "unheard L S D k"
    and s: "ks_id s = uuid_generate_random L (kms_draws k)" "ks_index s \<noteq> 0x7FFFFFFF"
      "unat (key_chunk_size (ks_qos s)) \<le> 8192"
    and p: "cstr w p (uuid_unparse U (ks_id s))"
  shows "\<exists>y w'. ClientApi.getKey (site_ssl R L) L U certPem keyPem host port keyType index p w = Inr (y, w') \<and>
    gks_status y = 0 \<and> gks_index y = index \<and> bytes_at w' (gks_key_buffer y) (stream_key R s index 0 0) \<and>
    session L w' (with_stream (s\<lparr>ks_index := ks_index s + 1\<rparr>) k) \<and> keeps w w'"
proof -
  let ?w1 = "new_block True [0, 0] (w\<lparr>cfg := api_cfg certPem keyPem host port\<rparr>)" and ?n = "nxt w"
  let ?x = "\<lparr>gkq_key_stream_id = ks_id s, gkq_index = index, gkq_metadata = \<lparr>bytes_size = 2, bytes_data = Ptr ?n 0\<rparr>\<rparr>"
  let ?X = "\<lparr>gkq_key_stream_id = ks_id s, gkq_index = index, gkq_metadata = [0, 0]\<rparr>"
  have w1: "session L ?w1 (with_stream s k)" "keeps w ?w1"
    using w by (auto intro!: session_block simp: keeps_def)
  have wf: "wf_mem w" "wf_mem ?w1" and L: "length (ks_id s) = 16"
    using w w1(1) s(1) by (auto simp: session_def dest: site_laws)
  have at: "read_cstr p ?w1 = Inr (uuid_unparse U (ks_id s))" "gkq_at ?w1 ?x ?X"
    using cstr_keeps [OF wf(1) w1(2) p] L
    by (simp_all add: read_cstr_cstr gkq_at_def bytes_at_def cbytes_def load_def)
  have "kms_get R L (gkq_key_stream_id ?X) (gkq_index ?X) (gkq_metadata ?X) (with_stream s k) =
      Some (stream_key R s index 0 0, kms_info k @ [0], with_stream (s\<lparr>ks_index := ks_index s + 1\<rparr>) k)"
    using get_new [OF k s(1,2)] by simp
  moreover have n1: "nxt ?w1 + 3 = ?n + 4"
    by simp
  ultimately have "\<exists>w2. qkd_get_key_struct (Client.qkd_get_key (site_ssl R L) L) ?x ?w1 =
        Inr (gks_struct (gk_answer 0 index (stream_key R s index 0 0) (kms_info k @ [0])) (?n + 4), w2) \<and>
      gks_at w2 (gks_struct (gk_answer 0 index (stream_key R s index 0 0) (kms_info k @ [0])) (?n + 4))
        (gk_answer 0 index (stream_key R s index 0 0) (kms_info k @ [0])) \<and>
      session L w2 (with_stream (s\<lparr>ks_index := ks_index s + 1\<rparr>) k) \<and> keeps ?w1 w2"
    using session_get [OF w1(1) at(2), unfolded n1] s(3) by (simp add: length_stream_key)
  then
  obtain w2 where w2: "qkd_get_key_struct (Client.qkd_get_key (site_ssl R L) L) ?x ?w1 =
        Inr (gks_struct (gk_answer 0 index (stream_key R s index 0 0) (kms_info k @ [0])) (?n + 4), w2)"
      "gks_at w2 (gks_struct (gk_answer 0 index (stream_key R s index 0 0) (kms_info k @ [0])) (?n + 4))
        (gk_answer 0 index (stream_key R s index 0 0) (kms_info k @ [0]))"
      "session L w2 (with_stream (s\<lparr>ks_index := ks_index s + 1\<rparr>) k)" "keeps ?w1 w2"
    by blast
  let ?y = "gks_struct (gk_answer 0 index (stream_key R s index 0 0) (kms_info k @ [0])) (?n + 4)"
  have nb: "\<not> in_block ?n (bytes_data (gks_key_buffer ?y))"
    by (simp add: gks_struct_def blob_struct_def)
  have "bytes_at w2 (gks_key_buffer ?y) (stream_key R s index 0 0)"
    using w2(2) by (simp add: gks_at_def gk_answer_def)
  then have "bytes_at (kill_block ?n w2) (gks_key_buffer ?y) (stream_key R s index 0 0)"
    by (simp only: bytes_at_kill_other [OF nb])
  moreover have "ClientApi.getKey (site_ssl R L) L U certPem keyPem host port keyType index p w = Inr (?y, kill_block ?n w2)"
    using at(1) w2(1) U L by (simp add: ClientApi.getKey_def uuid_text_laws_def Let_def)
  moreover have "session L (kill_block ?n w2) (with_stream (s\<lparr>ks_index := ks_index s + 1\<rparr>) k)"
      "keeps w (kill_block ?n w2)"
    using session_block(2) [OF w2(3)] keeps_trans [OF w1(2) w2(4)] by (simp_all add: keeps_kill_block)
  moreover have "gks_status ?y = 0" "gks_index ?y = index"
    by (simp_all add: gks_struct_def gk_answer_def)
  ultimately show ?thesis by blast
qed

text \<open>An application that opens a stream and asks for a key of it.\<close>

definition open_and_get ::
  "'n openssl \<Rightarrow> libuuid \<Rightarrow> uuid_text \<Rightarrow> ptr \<Rightarrow> ptr \<Rightarrow> 32 word \<Rightarrow> u32 \<Rightarrow> 'n client \<Rightarrow>
   (qkd_bytes qkd_get_key_response \<times> 'n client) res" where
  "open_and_get T L U my peer len index w =
     bind_res (openConnect T L U (Some ''cert.pem'') (Some ''key.pem'') ''127.0.0.1'' 25575 my peer NULL len w)
       (\<lambda>(ksid, w). ClientApi.getKey T L U (Some ''cert.pem'') (Some ''key.pem'') ''127.0.0.1'' 25575 0 index ksid w)"

lemma open_and_get_run:
  assumes w: "session L w k" and U: "uuid_text_laws U" and k: "unheard L S D k"
    and args: "cstr w my S" "cstr w peer D" "length S + length D \<le> 16000" "unat len \<le> 8192"
  shows "\<exists>y w'. open_and_get (site_ssl R L) L U my peer len index w = Inr (y, w') \<and>
    gks_status y = 0 \<and> gks_index y = index \<and>
    bytes_at w' (gks_key_buffer y) (prng_bytes R (stream_seed S D index) (unat len)) \<and> keeps w w'"
proof -
  let ?s = "api_stream L S D len k"
  obtain p w1 where w1: "openConnect (site_ssl R L) L U (Some ''cert.pem'') (Some ''key.pem'') ''127.0.0.1'' 25575
        my peer NULL len w = Inr (p, w1)" "cstr w1 p (uuid_unparse U (ks_id ?s))"
      "session L w1 (with_stream ?s k)" "keeps w w1"
    using api_open [OF w U k args(1-3)] by blast
  have s: "ks_id ?s = uuid_generate_random L (kms_draws k)" "ks_index ?s \<noteq> 0x7FFFFFFF"
      "unat (key_chunk_size (ks_qos ?s)) \<le> 8192"
      "stream_key R ?s index 0 0 = prng_bytes R (stream_seed S D index) (unat len)"
    using args(4) by (simp_all add: api_stream_def new_stream_def api_qos_def example_qos_def stream_key_def)
  obtain y w2 where "ClientApi.getKey (site_ssl R L) L U (Some ''cert.pem'') (Some ''key.pem'') ''127.0.0.1'' 25575
        0 index p w1 = Inr (y, w2)" "gks_status y = 0" "gks_index y = index"
      "bytes_at w2 (gks_key_buffer y) (stream_key R ?s index 0 0)" "keeps w1 w2"
    using api_get [OF w1(3) U k s(1-3) w1(2)] by blast
  moreover from this(5) have "keeps w w2"
    by (rule keeps_trans [OF w1(4)])
  ultimately show ?thesis
    using w1(1) s(4) by (intro exI [of _ y] exI [of _ w2]) (simp add: open_and_get_def)
qed

text \<open>
  An identifier that does not parse: the call returns NULL and has released the string of the
  caller; when that string is not from the heap, the release is undefined.
\<close>

lemma open_connect_unparsable:
  assumes "cstr w (Ptr b 0) t" "wf_mem w" "uuid_parse U t = None"
  shows "openConnect T L U certPem keyPem host port my peer (Ptr b 0) len w =
    (if autos w b then Inl BadFree
     else Inr (NULL, kill_block b (new_block True (str_bytes ''application/json'' @ [0])
            (w\<lparr>cfg := api_cfg certPem keyPem host port\<rparr>))))"
proof -
  let ?w1 = "new_block True (str_bytes ''application/json'' @ [0]) (w\<lparr>cfg := api_cfg certPem keyPem host port\<rparr>)"
  have "keeps w ?w1"
    by (simp add: keeps_def)
  then have t: "cstr ?w1 (Ptr b 0) t"
    using cstr_keeps [OF assms(2)] assms(1) by blast
  have "blocks w b \<noteq> None" "b \<noteq> nxt w"
    using assms(1,2) by (auto simp: cstr_Ptr dest: wf_mem_live)
  then show ?thesis
    using read_cstr_cstr [OF t] assms(3) by (auto simp: openConnect_def literal_def free_def Let_def)
qed

lemma get_key_unparsable:
  assumes "cstr w p t" "wf_mem w" "uuid_parse U t = None"
  shows "\<exists>w'. ClientApi.getKey T L U certPem keyPem host port keyType index p w = Inr (zero_get_key_response, w') \<and>
    net w' = net w \<and> blocks w' = blocks w"
proof -
  let ?w = "new_block True [0, 0] (w\<lparr>cfg := api_cfg certPem keyPem host port\<rparr>)"
  have "keeps w ?w"
    by (simp add: keeps_def)
  then have "cstr ?w p t"
    using cstr_keeps [OF assms(2)] assms(1) by blast
  moreover have "blocks w (nxt w) = None"
    using wf_mem_live [OF assms(2), of "nxt w"] by (cases "blocks w (nxt w)") auto
  ultimately show ?thesis
    using assms(3) by (auto simp: ClientApi.getKey_def Let_def read_cstr_cstr)
qed

end
