(* ===== verification/ServerMain.thy ===== *)
theory ServerMain
  imports ServerService
begin

text \<open>
  The program of \<open>server_example.c\<close>: its configuration, the accept loop with the request handler
  in it, and what a whole run of it does. A run is given by the connections the program is going to
  accept. The result holds the exit status, \<open>None\<close> while the program waits for the next
  connection.
\<close>

section \<open>main\<close>

definition start_config :: "bytes \<Rightarrow> server_context_data_example" where
  "start_config u =
     \<lparr>key_rate = 32768, qber = \<lparr>f_num = 16441672, f_scale = 25\<rparr>, example_db_name = ''database_file.db'',
      node_uuid = u, ksid_info_linked_list = None\<rparr>"

definition main ::
  "'n openssl \<Rightarrow> (u32 \<Rightarrow> nat \<Rightarrow> nat) \<Rightarrow> libuuid \<Rightarrow> 'n \<Rightarrow> 'n list \<Rightarrow> server \<Rightarrow>
   (int option \<times> 'n \<times> 'n list \<times> server) res" where
  "main T R L net conns w =
     (let w = w\<lparr>config := start_config (uuid_generate_random L (uuid_draws w)),
                 uuid_draws := Suc (uuid_draws w)\<rparr>
      in
      bind_res (qkd_socket_server_init T L (qkd_open_connect L) (qkd_get_key R L) qkd_close ''127.0.0.1'' 25575
          (Some ''../ssl/127.0.0.1.pem'') (Some ''../ssl/127.0.0.1.key'') None 0 net conns w)
        (\<lambda>(server_status, server_socket, done, w).
      Inr (if server_status = SERVER_FINISHED then Some 0 else None, server_socket, done, w)))"

section \<open>Sequences of connections\<close>

lemma accept_loop_append:
  assumes "accept_loop T ctx servlet cs w = Inr (SERVER_LISTENING, done, w')"
  shows "accept_loop T ctx servlet (cs @ ds) w =
    bind_res (accept_loop T ctx servlet ds w') (\<lambda>(st, done', w). Inr (st, done @ done', w))"
  using assms
proof (induction cs arbitrary: w "done")
  case Nil
  then show ?case
    by (auto simp: bind_res_def split: sum.splits)
next
  case (Cons c cs)
  then show ?case
    by (cases "accept_loop T ctx servlet ds w'") (auto simp: bind_res_eq_Inr split: prod.splits if_splits)
qed

lemma accept_loop_close:
  assumes T: "tls_records T recs" "SSL_new T ctx" "fst (SSL_accept T c) \<noteq> -1"
    and c: "recs (snd (SSL_accept T c)) = packet (service_code QKD_SERVICE_CLOSE_SERVER) p # xs"
    and w: "wf_mem w" "no_oom w" "8 \<le> stack_size w"
  shows "\<exists>c' w'. accept_loop T ctx (qkd_servlet T L open_connect get_key close) (c # cs) w =
      Inr (SERVER_FINISHED, [c'], w') \<and> wf_mem w' \<and> grows w {} w' \<and> mem.more w' = mem.more w"
proof -
  obtain r c1 where c1: "SSL_accept T c = (r, c1)"
    by (cases "SSL_accept T c")
  obtain c' w' where "qkd_servlet T L open_connect get_key close c1 w = Inr (SERVER_FINISHED, c', w')"
      "wf_mem w'" "grows w {} w'" "mem.more w' = mem.more w"
    using servlet_close_server [OF T(1) _ w(2,1,3), of c1 p xs L open_connect get_key close] c c1 by auto
  then show ?thesis
    using T(2,3) c1 by (simp add: socket_ssl_init_def)
qed

section \<open>A run of the program\<close>

definition kms_start :: "nat \<Rightarrow> kms" where
  "kms_start draws = \<lparr>kms_draws = Suc draws, kms_streams = [], kms_info = device_info (start_config [])\<rparr>"

text \<open>The calls that set the program up succeed, with the context \<open>ctx\<close> and the listening socket \<open>l\<close>.\<close>

definition server_up :: "'n openssl \<Rightarrow> 'n \<Rightarrow> ssl_ctx \<Rightarrow> 'n \<Rightarrow> bool" where
  "server_up T net ctx l \<longleftrightarrow>
     socket_ssl_context_create T ROLE_SERVER (Some ''../ssl/127.0.0.1.pem'') (Some ''../ssl/127.0.0.1.key'') None 0 =
       Inr ctx \<and> (\<exists>s. socket_create_server T ''127.0.0.1'' 25575 net = Inr (s, l)) \<and> SSL_new T ctx"

lemma main_accepts:
  assumes "server_up T net ctx l" "uuid_laws L" "wf_mem w" "no_oom w"
  shows "\<exists>w0. main T R L net conns w =
      bind_res (accept_loop T ctx (server_servlet T R L) conns w0)
        (\<lambda>(st, done, w). Inr (if st = SERVER_LISTENING then (None, l, done, w)
           else (Some 0, snd (sys_close T l), done, w))) \<and>
    kms_rel w0 {} (kms_start (uuid_draws w)) \<and> wf_mem w0 \<and> no_oom w0 \<and> stack_size w0 = stack_size w"
proof -
  define w0 where "w0 = w\<lparr>config := start_config (uuid_generate_random L (uuid_draws w)),
      uuid_draws := Suc (uuid_draws w)\<rparr>"
  have "registry w0 {} [] []"
    by (simp add: registry_def w0_def start_config_def)
  then have "kms_rel w0 {} (kms_start (uuid_draws w))"
    by (auto simp: kms_rel_def kms_start_def w0_def start_config_def finite_float_def device_info_def)
  moreover have "main T R L net conns w = bind_res (accept_loop T ctx (server_servlet T R L) conns w0)
      (\<lambda>(st, done, w). Inr (if st = SERVER_LISTENING then (None, l, done, w)
         else (Some 0, snd (sys_close T l), done, w)))"
    using assms(1)
    by (cases "accept_loop T ctx (server_servlet T R L) conns w0")
      (auto simp: main_def w0_def server_up_def qkd_socket_server_init_def socket_server_init_def
        intro: server_status_t.exhaust)
  ultimately show ?thesis
    using assms by (intro exI [of _ w0]) (simp add: w0_def wf_mem_def no_oom_def)
qed

lemma main_serves:
  assumes T: "tls_records T recs" "server_up T net ctx l" and L: "uuid_laws L"
    and w: "wf_mem w" "no_oom w" "16 \<le> stack_size w"
    and reqs: "list_all2 (brings T recs) conns visits" "\<forall>req. Some req \<in> set visits \<longrightarrow> request_ok (stack_size w) req"
      "kms_run R L visits (kms_start (uuid_draws w)) = Some (resps, k)"
  shows "\<exists>done w' F. main T R L net conns w = Inr (None, l, done, w') \<and>
    list_all2 (answered T recs) done resps \<and> kms_rel w' F k \<and> wf_mem w'"
proof -
  obtain w0 where w0: "main T R L net conns w =
      bind_res (accept_loop T ctx (server_servlet T R L) conns w0)
        (\<lambda>(st, done, w). Inr (if st = SERVER_LISTENING then (None, l, done, w)
           else (Some 0, snd (sys_close T l), done, w)))"
      "kms_rel w0 {} (kms_start (uuid_draws w))" "wf_mem w0" "no_oom w0" "stack_size w0 = stack_size w"
    using main_accepts [OF T(2) L w(1,2)] by blast
  have "SSL_new T ctx"
    using T(2) by (simp add: server_up_def)
  then obtain "done" w1 F where "accept_loop T ctx (server_servlet T R L) conns w0 = Inr (SERVER_LISTENING, done, w1)"
      "list_all2 (answered T recs) done resps" "kms_rel w1 F k" "wf_mem w1"
    using accept_loop_runs [OF T(1) _ L reqs(1,3) w0(3,4,2), of ctx] w0(5) w(3) reqs(2) by auto
  then show ?thesis
    using w0(1) by (intro exI [of _ "done"] exI [of _ w1] exI [of _ F]) simp
qed

lemma main_faults:
  assumes T: "tls_records T recs" "server_up T net ctx l" and L: "uuid_laws L"
    and w: "wf_mem w" "no_oom w" "16 \<le> stack_size w"
    and reqs: "list_all2 (brings T recs) conns visits" "\<forall>req. Some req \<in> set visits \<longrightarrow> request_ok (stack_size w) req"
      "kms_run R L visits (kms_start (uuid_draws w)) = Some (resps, k)"
    and c: "fst (SSL_accept T c) \<noteq> -1"
    and fault: "\<And>w1 F. wf_mem w1 \<Longrightarrow> no_oom w1 \<Longrightarrow> kms_rel w1 F k \<Longrightarrow> stack_size w1 = stack_size w \<Longrightarrow>
      server_servlet T R L (snd (SSL_accept T c)) w1 = Inl e"
  shows "main T R L net (conns @ c # rest) w = Inl e"
proof -
  obtain w0 where w0: "main T R L net (conns @ c # rest) w =
      bind_res (accept_loop T ctx (server_servlet T R L) (conns @ c # rest) w0)
        (\<lambda>(st, done, w). Inr (if st = SERVER_LISTENING then (None, l, done, w)
           else (Some 0, snd (sys_close T l), done, w)))"
      "kms_rel w0 {} (kms_start (uuid_draws w))" "wf_mem w0" "no_oom w0" "stack_size w0 = stack_size w"
    using main_accepts [OF T(2) L w(1,2)] by blast
  have new: "SSL_new T ctx"
    using T(2) by (simp add: server_up_def)
  obtain "done" w1 F where w1: "accept_loop T ctx (server_servlet T R L) conns w0 = Inr (SERVER_LISTENING, done, w1)"
      "kms_rel w1 F k" "wf_mem w1" "no_oom w1" "stack_size w1 = stack_size w"
    using accept_loop_runs [OF T(1) new L reqs(1,3) w0(3,4,2)] w0(5) w(3) reqs(2) by auto
  obtain r c1 where c1: "SSL_accept T c = (r, c1)"
    by (cases "SSL_accept T c")
  have "accept_loop T ctx (server_servlet T R L) (c # rest) w1 = Inl e"
    using new c c1 fault [OF w1(3,4,2,5)] by (simp add: socket_ssl_init_def)
  with accept_loop_append [OF w1(1), of "c # rest"] w0(1) show ?thesis
    by simp
qed

lemma main_stops:
  assumes T: "tls_records T recs" "server_up T net ctx l" and L: "uuid_laws L"
    and w: "wf_mem w" "no_oom w" "16 \<le> stack_size w"
    and reqs: "list_all2 (brings T recs) conns visits" "\<forall>req. Some req \<in> set visits \<longrightarrow> request_ok (stack_size w) req"
      "kms_run R L visits (kms_start (uuid_draws w)) = Some (resps, k)"
    and c: "fst (SSL_accept T c) \<noteq> -1"
      "recs (snd (SSL_accept T c)) = packet (service_code QKD_SERVICE_CLOSE_SERVER) p # xs"
  shows "\<exists>done c' w'. main T R L net (conns @ c # rest) w = Inr (Some 0, snd (sys_close T l), done @ [c'], w') \<and>
    list_all2 (answered T recs) done resps \<and> wf_mem w'"
proof -
  obtain w0 where w0: "main T R L net (conns @ c # rest) w =
      bind_res (accept_loop T ctx (server_servlet T R L) (conns @ c # rest) w0)
        (\<lambda>(st, done, w). Inr (if st = SERVER_LISTENING then (None, l, done, w)
           else (Some 0, snd (sys_close T l), done, w)))"
      "kms_rel w0 {} (kms_start (uuid_draws w))" "wf_mem w0" "no_oom w0" "stack_size w0 = stack_size w"
    using main_accepts [OF T(2) L w(1,2)] by blast
  have new: "SSL_new T ctx"
    using T(2) by (simp add: server_up_def)
  obtain "done" w1 F where w1: "accept_loop T ctx (server_servlet T R L) conns w0 = Inr (SERVER_LISTENING, done, w1)"
      "list_all2 (answered T recs) done resps" "wf_mem w1" "no_oom w1" "stack_size w1 = stack_size w"
    using accept_loop_runs [OF T(1) new L reqs(1,3) w0(3,4,2)] w0(5) w(3) reqs(2) by auto
  have "8 \<le> stack_size w1"
    using w1(5) w(3) by simp
  then obtain c' w2 where "accept_loop T ctx (server_servlet T R L) (c # rest) w1 = Inr (SERVER_FINISHED, [c'], w2)"
      "wf_mem w2"
    using accept_loop_close [OF T(1) new c w1(3,4), of L _ _ _ rest] by blast
  with accept_loop_append [OF w1(1), of "c # rest"] w0(1) w1(2) show ?thesis
    by (intro exI [of _ "done"] exI [of _ c'] exI [of _ w2]) simp
qed

end
