(* ===== verification/Utils.thy ===== *)
theory Utils
  imports UuidText
begin

text \<open>
  The printing functions of \<open>utils.c\<close>. The result is what is written to the stream. The loop
  counters are of type \<open>int\<close> while the sizes are unsigned, so a buffer of \<open>2^31\<close> bytes or
  more overflows the counter.
\<close>

section \<open>Conversions with memory\<close>

text \<open>
  \<open>%s\<close> prints up to the terminating zero; \<open>%.*s\<close> reads no more characters than its
  precision, and a negative precision is taken as if it were omitted.
\<close>

definition fmt_s :: "ptr \<Rightarrow> 'z mem_scheme \<Rightarrow> bytes res" where
  "fmt_s p m = read_cstr p m"

definition fmt_prec_s :: "int \<Rightarrow> ptr \<Rightarrow> 'z mem_scheme \<Rightarrow> bytes res" where
  "fmt_prec_s prec p m =
     (if prec < 0 then read_cstr p m
      else if prec = 0 then Inr []
      else bind_res (tail_at p m) (\<lambda>t.
        if 0 \<in> set (take (nat prec) t) then Inr (takeWhile (\<lambda>x. x \<noteq> 0) t)
        else if nat prec \<le> length t then Inr (take (nat prec) t)
        else Inl OutOfBounds))"

section \<open>utils.c\<close>

fun bytes_loop :: "nat \<Rightarrow> int \<Rightarrow> int \<Rightarrow> ptr \<Rightarrow> 'z mem_scheme \<Rightarrow> bytes \<Rightarrow> bytes res" where
  "bytes_loop 0 i group_size data m out = Inr out"
| "bytes_loop (Suc n) i group_size data m out =
     (let out = (if group_size > 0 \<and> i mod group_size = 0 then out @ [10] else out) in
     bind_res (load (padd data (nat i)) 1 m) (\<lambda>b.
     let out = out @ str_bytes (fmt_02X (hd b)) @ str_bytes '' '' in
     if i = 2 ^ 31 - 1 then Inl SignedOverflow else bytes_loop n (i + 1) group_size data m out))"

definition qkd_fprintf_bytes :: "qkd_bytes \<Rightarrow> int \<Rightarrow> 'z mem_scheme \<Rightarrow> bytes res" where
  "qkd_fprintf_bytes data group_size m =
     bind_res (bytes_loop (unat (bytes_size data)) 0 group_size (bytes_data data) m
         (str_bytes (''Data ('' @ fmt_u (bytes_size data) @ '' bytes): '')))
       (\<lambda>out. Inr (out @ [10]))"

definition qkd_fprintf_qos :: "ptr qkd_qos \<Rightarrow> 'z mem_scheme \<Rightarrow> bytes res" where
  "qkd_fprintf_qos q m =
     bind_res (fmt_s (metadata_mimetype q) m) (\<lambda>mime.
     Inr (str_bytes (''['' @ fmt_u (key_chunk_size q) @ '', '' @ fmt_u (max_bps q) @ '', '' @ fmt_u (min_bps q) @
            '', '' @ fmt_u (jitter q) @ '', '' @ fmt_u (priority q) @ '', '' @ fmt_u (timeout q) @ '', '' @
            fmt_u (ttl q) @ '', \"'') @ mime @ str_bytes ''\"]''))"

definition qkd_fprintf_uuid :: "uuid_text \<Rightarrow> bytes \<Rightarrow> bytes res" where
  "qkd_fprintf_uuid U uuid =
     (if unat UUID_STR_LEN < length (uuid_unparse_lower U uuid) + 1 then Inl OutOfBounds
      else Inr (str_bytes ''\"'' @ uuid_unparse_lower U uuid @ str_bytes ''\"''))"

fun key_buffer_loop :: "nat \<Rightarrow> int \<Rightarrow> ptr \<Rightarrow> 'z mem_scheme \<Rightarrow> bytes \<Rightarrow> bytes res" where
  "key_buffer_loop 0 i data m out = Inr out"
| "key_buffer_loop (Suc n) i data m out =
     bind_res (load (padd data (nat i)) 1 m) (\<lambda>b.
     let out = out @ str_bytes ('', '' @ fmt_u (ucast (hd b))) in
     if i = 2 ^ 31 - 1 then Inl SignedOverflow else key_buffer_loop n (i + 1) data m out)"

definition qkd_fprintf_key_buffer :: "qkd_bytes \<Rightarrow> 'z mem_scheme \<Rightarrow> bytes res" where
  "qkd_fprintf_key_buffer key_buffer m =
     (if bytes_size key_buffer < 1 then Inr (str_bytes ''[]'')
      else
        bind_res (load (bytes_data key_buffer) 1 m) (\<lambda>b.
        bind_res (key_buffer_loop (unat (bytes_size key_buffer) - 1) 1 (bytes_data key_buffer) m
            (str_bytes (''['' @ fmt_u (ucast (hd b)))))
          (\<lambda>out. Inr (out @ str_bytes '']''))))"

definition qkd_fprintf_oc_request ::
  "uuid_text \<Rightarrow> ptr qkd_open_connect_request \<Rightarrow> 'z mem_scheme \<Rightarrow> bytes res" where
  "qkd_fprintf_oc_request U oc_req m =
     bind_res (fmt_s (ocq_source oc_req) m) (\<lambda>source.
     bind_res (fmt_s (ocq_destination oc_req) m) (\<lambda>destination.
     bind_res (qkd_fprintf_qos (ocq_qos oc_req) m) (\<lambda>q.
     bind_res (qkd_fprintf_uuid U (ocq_key_stream_id oc_req)) (\<lambda>u.
     Inr (str_bytes ''{\"source\": \"'' @ source @ str_bytes ''\", \"destination\": \"'' @ destination @
       str_bytes ''\", \"qos\": '' @ q @ str_bytes '', \"key_stream_id\": '' @ u @ str_bytes ''}'')))))"

definition qkd_fprintf_oc_response ::
  "uuid_text \<Rightarrow> ptr qkd_open_connect_response \<Rightarrow> 'z mem_scheme \<Rightarrow> bytes res" where
  "qkd_fprintf_oc_response U oc_res m =
     bind_res (qkd_fprintf_qos (ocs_qos oc_res) m) (\<lambda>q.
     bind_res (qkd_fprintf_uuid U (ocs_key_stream_id oc_res)) (\<lambda>u.
     Inr (str_bytes (''{\"status\": '' @ fmt_d (sint (ocs_status oc_res)) @ '', \"qos\": '') @ q @
       str_bytes '', \"key_stream_id\": '' @ u @ str_bytes ''}'')))"

definition qkd_fprintf_gk_request ::
  "uuid_text \<Rightarrow> qkd_bytes qkd_get_key_request \<Rightarrow> 'z mem_scheme \<Rightarrow> bytes res" where
  "qkd_fprintf_gk_request U gk_req m =
     bind_res (qkd_fprintf_uuid U (gkq_key_stream_id gk_req)) (\<lambda>u.
     bind_res (fmt_prec_s (sint (bytes_size (gkq_metadata gk_req))) (bytes_data (gkq_metadata gk_req)) m) (\<lambda>md.
     Inr (str_bytes ''{\"key_stream_id\": '' @ u @ str_bytes ('',  \"index\": '' @ fmt_u (gkq_index gk_req) @
       '', \"metadata\": '') @ md @ str_bytes ''}'')))"

definition qkd_fprintf_gk_response ::
  "qkd_bytes qkd_get_key_response \<Rightarrow> 'z mem_scheme \<Rightarrow> bytes res" where
  "qkd_fprintf_gk_response gk_res m =
     bind_res (qkd_fprintf_key_buffer (gks_key_buffer gk_res) m) (\<lambda>k.
     bind_res (fmt_prec_s (sint (bytes_size (gks_metadata gk_res))) (bytes_data (gks_metadata gk_res)) m) (\<lambda>md.
     Inr (str_bytes (''{\"status\": '' @ fmt_d (sint (gks_status gk_res)) @ '', \"index\": '' @
       fmt_u (gks_index gk_res) @ '', \"key_buffer\": '') @ k @ str_bytes '', \"metadata\": '' @ md @ str_bytes ''}'')))"

definition qkd_fprintf_cl_request :: "uuid_text \<Rightarrow> qkd_close_request \<Rightarrow> bytes res" where
  "qkd_fprintf_cl_request U cl_req =
     bind_res (qkd_fprintf_uuid U (clq_key_stream_id cl_req)) (\<lambda>u.
     Inr (str_bytes ''{\"key_stream_id\": '' @ u @ str_bytes ''}''))"

definition qkd_fprintf_cl_response :: "qkd_close_response \<Rightarrow> bytes" where
  "qkd_fprintf_cl_response cl_res = str_bytes (''{\"status\": '' @ fmt_d (sint (cls_status cl_res)) @ ''}'')"

definition qkd_fprintf_header :: "qkd_header \<Rightarrow> bytes" where
  "qkd_fprintf_header h =
     str_bytes (''{\"version\": ['' @ fmt_u (ucast (major (hdr_version h))) @ '', '' @
       fmt_u (ucast (minor (hdr_version h))) @ '', '' @ fmt_u (ucast (micro (hdr_version h))) @
       ''], \"service\": '' @ fmt_u (ucast (hdr_service h)) @ '', \"payload_size\": '' @
       fmt_u (hdr_payload_size h) @ ''}'')"

section \<open>What is printed\<close>

fun dump :: "int \<Rightarrow> nat \<Rightarrow> bytes \<Rightarrow> bytes" where
  "dump group_size i [] = []"
| "dump group_size i (b # bs) =
     (if group_size > 0 \<and> int i mod group_size = 0 then [10] else []) @ str_bytes (fmt_02X b) @ [32] @
     dump group_size (Suc i) bs"

lemma bytes_loop_dump:
  assumes "cbytes m (padd data i) bs" "i + length bs < 2 ^ 31"
  shows "bytes_loop (length bs) (int i) group_size data m out = Inr (out @ dump group_size i bs)"
  using assms
proof (induction bs arbitrary: i out)
  case (Cons b bs)
  have "bytes_loop (length bs) (int i + 1) group_size data m out' = Inr (out' @ dump group_size (Suc i) bs)" for out'
    using Cons.IH [of "Suc i" out'] Cons.prems cbytes_Cons(2) [OF Cons.prems(1)] by (simp add: add.commute)
  moreover have "int i \<noteq> 2 ^ 31 - 1"
    using Cons.prems(2) by simp
  ultimately show ?case
    using cbytes_Cons(1) [OF Cons.prems(1)] by (simp add: Let_def str_bytes_def)
qed simp

lemma fprintf_bytes_text:
  assumes "bytes_at m d bs" "length bs < 2 ^ 31"
  shows "qkd_fprintf_bytes d group_size m =
    Inr (str_bytes (''Data ('' @ fmt_nat (length bs) @ '' bytes): '') @ dump group_size 0 bs @ [10])"
  using assms bytes_loop_dump [of m "bytes_data d" 0 bs group_size]
  by (simp add: qkd_fprintf_bytes_def bytes_at_def fmt_u_def)

text \<open>Reading a dump back: separators are dropped, two hexadecimal digits are one byte.\<close>

definition hex_value :: "u8 \<Rightarrow> nat" where
  "hex_value c = (if unat c < 58 then unat c - 48 else unat c - 55)"

fun unhex :: "bytes \<Rightarrow> bytes" where
  "unhex (a # b # r) = of_nat (16 * hex_value a + hex_value b) # unhex r"
| "unhex _ = []"

definition undump :: "bytes \<Rightarrow> bytes" where
  "undump t = unhex (filter (\<lambda>x. x \<noteq> 10 \<and> x \<noteq> 32) t)"

lemma unat_of_char_of:
  assumes "n < 256"
  shows "unat (of_char (char_of n) :: u8) = n"
proof -
  have "(of_char (char_of n) :: u8) = of_nat (of_char (char_of n))"
    by (rule of_nat_of_char [symmetric])
  then show ?thesis
    using assms by (simp add: unat_of_nat take_bit_nat_eq_self del: of_nat_of_char)
qed

lemma hex_digit_value:
  assumes "d < 16"
  shows "hex_value (of_char (hex_digit d)) = d" "of_char (hex_digit d) \<noteq> (10 :: u8)" "of_char (hex_digit d) \<noteq> (32 :: u8)"
proof -
  let ?c = "of_char (hex_digit d) :: u8"
  have c: "unat ?c = (if d < 10 then 48 + d else 55 + d)"
    using assms by (simp add: hex_digit_def unat_of_char_of)
  then show "hex_value ?c = d"
    by (simp add: hex_value_def)
  show "?c \<noteq> 10" "?c \<noteq> 32"
    using c by (auto simp: word_unat_eq_iff)
qed

lemma unhex_02X: "unhex (str_bytes (fmt_02X b) @ r) = b # unhex r"
proof -
  have "unat b < 256"
    using unsigned_less [of b] by simp
  then have "unat b div 16 < 16" "unat b mod 16 < 16"
    by (simp_all add: div_less_iff_less_mult)
  then show ?thesis
    by (simp add: fmt_02X_def str_bytes_def hex_digit_value)
qed

lemma undump_dump: "undump (dump group_size i bs) = bs"
proof (induction bs arbitrary: i)
  case (Cons b bs)
  have "unat b < 256"
    using unsigned_less [of b] by simp
  then have "unat b div 16 < 16" "unat b mod 16 < 16"
    by (simp_all add: div_less_iff_less_mult)
  then have "filter (\<lambda>x. x \<noteq> 10 \<and> x \<noteq> 32) (str_bytes (fmt_02X b)) = str_bytes (fmt_02X b)"
    by (simp add: fmt_02X_def str_bytes_def hex_digit_value)
  with Cons show ?case
    by (simp add: undump_def unhex_02X)
qed (simp add: undump_def)

text \<open>From \<open>2^31\<close> bytes on the loop never ends in a defined way.\<close>

lemma bytes_loop_overflow:
  assumes "0 \<le> i" "i < 2 ^ 31" "2 ^ 31 \<le> i + int n"
  shows "\<not> ok (bytes_loop n i group_size data m out)"
  using assms
proof (induction n arbitrary: i out)
  case (Suc n)
  show ?case
  proof (cases "load (padd data (nat i)) 1 m")
    case (Inr b)
    then show ?thesis
      using Suc by (auto simp: Let_def)
  qed (simp add: Let_def)
qed simp

lemma fprintf_bytes_overflow:
  assumes "2 ^ 31 \<le> unat (bytes_size d)"
  shows "\<not> ok (qkd_fprintf_bytes d group_size m)"
proof -
  have "2 ^ 31 \<le> int (unat (bytes_size d))"
    using assms [THEN iffD2 [OF of_nat_le_iff [where 'a = int]]] by simp
  then show ?thesis
    using bytes_loop_overflow [of 0 "unat (bytes_size d)" group_size "bytes_data d" m]
    by (auto simp: qkd_fprintf_bytes_def bind_res_def split: sum.splits dest: spec) (metis ok.simps(1))
qed

lemma unat_ucast_8_32: "unat (ucast (b :: u8) :: u32) = unat b"
proof -
  have "unat b < 256"
    using unsigned_less [of b] by simp
  then show ?thesis
    by (simp add: unsigned_ucast_eq take_bit_nat_eq_self)
qed

lemma key_buffer_loop_text:
  assumes "cbytes m (padd data i) bs" "i + length bs < 2 ^ 31"
  shows "key_buffer_loop (length bs) (int i) data m out =
    Inr (out @ concat (map (\<lambda>b. str_bytes ('', '' @ fmt_nat (unat b))) bs))"
  using assms
proof (induction bs arbitrary: i out)
  case (Cons b bs)
  have "key_buffer_loop (length bs) (int i + 1) data m out' =
      Inr (out' @ concat (map (\<lambda>b. str_bytes ('', '' @ fmt_nat (unat b))) bs))" for out'
    using Cons.IH [of "Suc i" out'] Cons.prems cbytes_Cons(2) [OF Cons.prems(1)] by (simp add: add.commute)
  moreover have "int i \<noteq> 2 ^ 31 - 1" "unat (ucast b :: u32) = unat b"
    using Cons.prems(2) by (simp_all add: unat_ucast_8_32)
  ultimately show ?case
    using cbytes_Cons(1) [OF Cons.prems(1)] by (simp add: Let_def str_bytes_def fmt_u_def)
qed simp

lemma fprintf_key_buffer_text:
  assumes "bytes_at m d (b # bs)" "length (b # bs) < 2 ^ 31"
  shows "qkd_fprintf_key_buffer d m =
    Inr (str_bytes (''['' @ fmt_nat (unat b)) @ concat (map (\<lambda>b. str_bytes ('', '' @ fmt_nat (unat b))) bs) @
      str_bytes '']'')"
proof -
  have d: "cbytes m (bytes_data d) (b # bs)" "unat (bytes_size d) = Suc (length bs)"
    using assms(1) by (simp_all add: bytes_at_def)
  then have "\<not> bytes_size d < 1" "unat (ucast b :: u32) = unat b"
    by (simp_all add: word_less_nat_alt unat_ucast_8_32)
  then show ?thesis
    using cbytes_Cons [OF d(1)] key_buffer_loop_text [of m "bytes_data d" 1 bs] assms(2) d(2)
    by (simp add: qkd_fprintf_key_buffer_def fmt_u_def)
qed

end
