(* ===== verification/SampleSites.thy ===== *)
theory SampleSites
  imports EndToEnd ServerMain Utils
begin

text \<open>
  Concrete deployments on which the properties of whole programs are exercised: servers with and
  without a stream, a client connected to one of them, and an implementation of the text form of
  identifiers.
\<close>

section \<open>Servers\<close>

definition sample_kms :: "key_stream list \<Rightarrow> kms" where
  "sample_kms ss = \<lparr>kms_draws = 0, kms_streams = ss, kms_info = device_info (start_config [])\<rparr>"

lemma kms_rel_sample:
  "kms_rel (sample_server cs [] None) {} (sample_kms [])"
  "kms_rel (one_stream_server [97] [98] [] index) {0, 1, 2} (sample_kms [sample_stream [97] [98] index])"
proof -
  have i: "device_info (config (sample_server cs ns h)) = device_info (start_config [])" for cs ns h
    by (simp add: device_info_def sample_server_def start_config_def)
  have "registry (sample_server cs [] None) {} [] []"
    by (simp add: registry_def)
  then show "kms_rel (sample_server cs [] None) {} (sample_kms [])"
    by (auto simp: kms_rel_def sample_kms_def i)
  have "uuid_draws (one_stream_server [97] [98] [] index) = 0"
    by (simp add: one_stream_server_def)
  then show "kms_rel (one_stream_server [97] [98] [] index) {0, 1, 2} (sample_kms [sample_stream [97] [98] index])"
    using one_stream_server(3,5) [of "[97]" "[98]" "[]" index]
    by (auto simp: kms_rel_def sample_kms_def) (simp add: one_stream_server_def i)
qed

text \<open>The same server when its stream has chunks of \<open>n\<close> bytes.\<close>

definition chunk_stream :: "u32 \<Rightarrow> key_stream" where
  "chunk_stream n = (sample_stream [97] [98] 0)\<lparr>ks_qos := (sample_qos [])\<lparr>key_chunk_size := n\<rparr>\<rparr>"

definition chunk_server :: "u32 \<Rightarrow> server" where
  "chunk_server n = (one_stream_server [97] [98] [] 0)
     \<lparr>nodes := [4 \<mapsto> \<lparr>ki_key_stream_id = replicate 16 9, ki_qos = (sample_qos (Ptr 2 0))\<lparr>key_chunk_size := n\<rparr>,
        ki_source = Ptr 0 0, ki_destination = Ptr 1 0, ki_current_index = 0, ki_next = None\<rparr>]\<rparr>"

lemma chunk_server:
  "wf_mem (chunk_server n)" "no_oom (chunk_server n)" "stack_size (chunk_server n) = 8388608"
  "kms_rel (chunk_server n) {0, 1, 2} (sample_kms [chunk_stream n])"
proof -
  have r: "registry (one_stream_server [97] [98] [] 0) {0, 1, 2} [4] [sample_stream [97] [98] 0]"
      "kms_rel (one_stream_server [97] [98] [] 0) {0, 1, 2} (sample_kms [sample_stream [97] [98] 0])"
    using one_stream_server(3) [of "[97]" "[98]"] kms_rel_sample(2) by simp_all
  show "wf_mem (chunk_server n)" "no_oom (chunk_server n)" "stack_size (chunk_server n) = 8388608"
    using one_stream_server(1,2) [of "[97]" "[98]" "[]" 0]
    by (simp_all add: chunk_server_def wf_mem_def no_oom_def) (simp add: one_stream_server_def sample_server_def)
  have "registry (chunk_server n) {0, 1, 2} [4] [chunk_stream n]"
    using r(1) by (auto simp: registry_def chunk_server_def chunk_stream_def node_at_def qos_at_def owned_def node_owns_def
        one_stream_server_def sample_stream_def sample_qos_def cstr_def)
  then show "kms_rel (chunk_server n) {0, 1, 2} (sample_kms [chunk_stream n])"
    using r(2) by (auto simp: kms_rel_def sample_kms_def chunk_server_def)
qed

section \<open>Clients\<close>

definition sample_client :: "server \<Rightarrow> bytes list \<Rightarrow> site client" where
  "sample_client w cs =
     \<lparr>blocks = (\<lambda>i. if i < length cs then Some (cs ! i) else None), autos = (\<lambda>_. False),
      nxt = length cs, alloc_ok = (\<lambda>_ _. True), junk = (\<lambda>_ _. 0), host_be = True, stack_size = 8388608,
      net = \<lparr>srv = w, inbox = []\<rparr>, cfg = example_cfg\<rparr>"

lemma sample_client_fields [simp]:
  "blocks (sample_client w cs) i = (if i < length cs then Some (cs ! i) else None)"
  "nxt (sample_client w cs) = length cs" "no_oom (sample_client w cs)" "stack_size (sample_client w cs) = 8388608"
  "\<not> autos (sample_client w cs) i" "net (sample_client w cs) = \<lparr>srv = w, inbox = []\<rparr>"
  by (simp_all add: sample_client_def no_oom_def)

lemma wf_sample_client: "wf_mem (sample_client w cs) \<longleftrightarrow> (\<forall>i < length cs. length (cs ! i) < 2 ^ 64)"
  by (auto simp: wf_mem_def)

lemma site_at_sample:
  "site_at sample_uuid 8388608 \<lparr>srv = sample_server [] [] None, inbox = []\<rparr> (sample_kms [])"
  "site_at sample_uuid 8388608 \<lparr>srv = one_stream_server [97] [98] [] index, inbox = []\<rparr>
     (sample_kms [sample_stream [97] [98] index])"
proof -
  have "stack_size (sample_server cs ns h) = 8388608" for cs ns h
    by (simp add: sample_server_def)
  then show "site_at sample_uuid 8388608 \<lparr>srv = sample_server [] [] None, inbox = []\<rparr> (sample_kms [])"
    "site_at sample_uuid 8388608 \<lparr>srv = one_stream_server [97] [98] [] index, inbox = []\<rparr>
     (sample_kms [sample_stream [97] [98] index])"
    using kms_rel_sample(1) [of "[]"] kms_rel_sample(2) [of index] wf_sample_server [of "[]" "[]" None]
      one_stream_server(1,2) [of "[97]" "[98]" "[]" index]
    by (auto simp: site_at_def) (simp add: one_stream_server_def)
qed

lemma session_sample:
  "(\<forall>i < length cs. length (cs ! i) < 2 ^ 64) \<Longrightarrow>
   session sample_uuid (sample_client (sample_server [] [] None) cs) (sample_kms [])"
  using site_at_sample(1) by (simp add: session_def wf_sample_client)

lemma unheard_sample: "unheard sample_uuid S D (sample_kms [])"
  by (simp add: unheard_def sample_kms_def find_peer_def)

section \<open>Identifiers as text\<close>

definition hex_text :: "bytes \<Rightarrow> bytes" where
  "hex_text bs = concat (map (\<lambda>b. str_bytes (fmt_02X b)) bs)"

definition uuid_to_text :: "bytes \<Rightarrow> bytes" where
  "uuid_to_text u =
     hex_text (take 4 u) @ 45 # hex_text (take 2 (drop 4 u)) @ 45 # hex_text (take 2 (drop 6 u)) @ 45 #
     hex_text (take 2 (drop 8 u)) @ 45 # hex_text (drop 10 u)"

definition uuid_of_text :: "bytes \<Rightarrow> bytes option" where
  "uuid_of_text t =
     (let u = unhex (filter (\<lambda>c. c \<noteq> 45) t)
      in if length u = 16 \<and> uuid_to_text u = t then Some u else None)"

definition sample_text :: uuid_text where
  "sample_text = \<lparr>uuid_parse = uuid_of_text, uuid_unparse = uuid_to_text, uuid_unparse_lower = uuid_to_text\<rparr>"

lemma hex_digit_not:
  assumes "d < 16"
  shows "of_char (hex_digit d) \<noteq> (45 :: u8)" "of_char (hex_digit d) \<noteq> (0 :: u8)"
proof -
  have "unat (of_char (hex_digit d) :: u8) = (if d < 10 then 48 + d else 55 + d)"
    using assms by (simp add: hex_digit_def unat_of_char_of)
  then show "of_char (hex_digit d) \<noteq> (45 :: u8)" "of_char (hex_digit d) \<noteq> (0 :: u8)"
    by (auto simp: word_unat_eq_iff)
qed

lemma hex_text_facts:
  "length (hex_text bs) = 2 * length bs" "45 \<notin> set (hex_text bs)" "0 \<notin> set (hex_text bs)"
  "unhex (hex_text bs @ r) = bs @ unhex r"
proof (induction bs)
  case (Cons b bs)
  have "unat b < 256"
    using unsigned_less [of b] by simp
  then have "unat b div 16 < 16" "unat b mod 16 < 16"
    by (simp_all add: div_less_iff_less_mult)
  note d = hex_digit_not [OF this(1)] hex_digit_not [OF this(2)]
  show "length (hex_text (b # bs)) = 2 * length (b # bs)" "45 \<notin> set (hex_text (b # bs))" "0 \<notin> set (hex_text (b # bs))"
    using Cons d by (auto simp: hex_text_def str_bytes_def fmt_02X_def)
  show "unhex (hex_text (b # bs) @ r) = (b # bs) @ unhex r"
    using Cons(4) by (simp add: hex_text_def unhex_02X)
qed (simp_all add: hex_text_def)

lemma filter_hex_text: "filter (\<lambda>c. c \<noteq> 45) (hex_text bs) = hex_text bs"
  using hex_text_facts(2) [of bs] by (auto simp: filter_id_conv)

lemma uuid_text_parts: "length u = 16 \<Longrightarrow> unhex (filter (\<lambda>c. c \<noteq> 45) (uuid_to_text u)) = u"
proof -
  assume "length u = 16"
  have "unhex (filter (\<lambda>c. c \<noteq> 45) (uuid_to_text u)) =
      take 4 u @ take 2 (drop 4 u) @ take 2 (drop 6 u) @ take 2 (drop 8 u) @ drop 10 u"
    using hex_text_facts(4) [of "drop 10 u" "[]"]
    by (simp add: uuid_to_text_def filter_hex_text hex_text_facts(4))
  also have "take 2 (drop 8 u) @ drop 10 u = drop 8 u"
    using append_take_drop_id [of 2 "drop 8 u"] by simp
  also have "take 2 (drop 6 u) @ drop 8 u = drop 6 u"
    using append_take_drop_id [of 2 "drop 6 u"] by simp
  also have "take 2 (drop 4 u) @ drop 6 u = drop 4 u"
    using append_take_drop_id [of 2 "drop 4 u"] by simp
  also have "take 4 u @ drop 4 u = u"
    by simp
  finally show ?thesis .
qed

lemma uuid_text_laws_sample [simp]: "uuid_text_laws sample_text"
proof -
  have "uuid_to_text nil_uuid = str_bytes nil_text"
    by code_simp
  moreover have "uuid_of_text (uuid_to_text u) = Some u" if "length u = 16" for u
    using uuid_text_parts [OF that] that by (simp add: uuid_of_text_def)
  ultimately have "uuid_of_text (str_bytes nil_text) = Some nil_uuid"
    by (metis length_nil_uuid)
  moreover have "length (uuid_to_text u) = 36" "0 \<notin> set (uuid_to_text u)" if "length u = 16" for u
    using that hex_text_facts(3) by (simp_all add: uuid_to_text_def hex_text_facts(1))
  ultimately show ?thesis
    using \<open>\<And>u. length u = 16 \<Longrightarrow> uuid_of_text (uuid_to_text u) = Some u\<close>
    by (auto simp: uuid_text_laws_def sample_text_def uuid_of_text_def Let_def split: if_splits)
qed

end
