(* ===== verification/LinkProps.thy ===== *)
theory LinkProps
  imports SampleSites
begin

text \<open>
  The properties of the request handler and of the server program: every transaction is a step
  of the specified server, what a transaction leaves allocated, which packets the handler does not
  survive, and what a whole run does.
\<close>

section \<open>One connection\<close>

text \<open>
  C4. The request handler implements the specified server. On a connection that brings a
  well-formed request for which \<open>kms_handle\<close> has an answer, it returns without a fault,
  having consumed the request and written exactly that answer, and the server is in the state of
  the specification.
\<close>

theorem servlet_implements_server:
  assumes "tls_records T recs" "recs c = request_packet req # xs"
    and "wf_mem w" "no_oom w" "kms_rel w F k" "16 \<le> stack_size w" "uuid_laws L"
    and "request_ok (stack_size w) req" "kms_handle R L req k = Some (resp, k')"
  shows "\<exists>c2 w' F' A. recs c2 = xs \<and>
    qkd_servlet T L (ServerExample.qkd_open_connect L) (ServerExample.qkd_get_key R L) ServerExample.qkd_close c w =
      Inr (SERVER_LISTENING, snd (SSL_write T c2 (int (length resp)) resp), w') \<and>
    kms_rel w' F' k' \<and> wf_mem w' \<and> no_oom w' \<and> grows w A w'"
  using assms by (rule servlet_handles)

lemma sample_get_key:
  "request_ok 8388608 (GetKey (sample_gkq [0, 0]))"
  "kms_get sample_rand sample_uuid (replicate 16 9) 258 [0, 0] (sample_kms [sample_stream [97] [98] 41]) =
     Some (stream_key sample_rand (sample_stream [97] [98] 41) 258 0 0, device_info (start_config []) @ [0],
       sample_kms [sample_stream [97] [98] 42])"
  by (simp_all add: sample_gkq_def valid_gkq_def valid_bytes_def enc_gkq_def length_enc kms_get_def sample_kms_def
      find_stream_def sample_stream_def)

lemma sample_answer_length:
  "length (packet 5 (enc_gks (gk_answer 0 258 (stream_key sample_rand (sample_stream [97] [98] 41) 258 0 0)
     (device_info (start_config []) @ [0])))) < 2 ^ 31"
  using length_device_info [of "start_config []"]
  by (simp add: packet_split enc_gks_def length_enc gk_answer_def length_stream_key sample_stream_def sample_qos_def
      finite_float_def start_config_def)

definition sample_answer :: bytes where
  "sample_answer = packet 5 (enc_gks (gk_answer 0 258 (stream_key sample_rand (sample_stream [97] [98] 41) 258 0 0)
     (device_info (start_config []) @ [0])))"

lemma sample_handle:
  "kms_handle sample_rand sample_uuid (GetKey (sample_gkq [0, 0])) (sample_kms [sample_stream [97] [98] 41]) =
     Some (sample_answer, sample_kms [sample_stream [97] [98] 42])"
proof -
  have "\<not> kms_unknown (replicate 16 9) (sample_kms [sample_stream [97] [98] 41])"
    by (simp add: kms_unknown_def sample_kms_def find_stream_def sample_stream_def)
  then show ?thesis
    using sample_get_key(2) sample_answer_length by (simp add: sample_gkq_def sample_answer_def Let_def)
qed

lemma sample_conn:
  "conn_recs \<lparr>c_in = [request_packet req], c_out = []\<rparr> = request_packet req # []"
  by (simp add: conn_recs_def)

lemma sample_written:
  assumes "conn_recs c = []"
  shows "c_out (snd (SSL_write conn_ssl c n bs)) = [bs]"
  using assms by (simp add: conn_recs_def)

lemma sample_server_ready:
  "wf_mem (one_stream_server [97] [98] [] 41)" "no_oom (one_stream_server [97] [98] [] 41)"
  "stack_size (one_stream_server [97] [98] [] 41) = 8388608"
  using one_stream_server(1,2) [of "[97]" "[98]" "[]" 41] by simp_all (simp add: one_stream_server_def sample_server_def)

theorem servlet_implements_server_witness:
  "\<exists>c' w' F'. qkd_servlet conn_ssl sample_uuid (ServerExample.qkd_open_connect sample_uuid)
      (ServerExample.qkd_get_key sample_rand sample_uuid) ServerExample.qkd_close
      \<lparr>c_in = [packet 4 (enc_gkq (sample_gkq [0, 0]))], c_out = []\<rparr> (one_stream_server [97] [98] [] 41) =
      Inr (SERVER_LISTENING, c', w') \<and> c_out c' = [sample_answer] \<and>
    kms_rel w' F' (sample_kms [sample_stream [97] [98] 42])"
proof -
  have "16 \<le> stack_size (one_stream_server [97] [98] [] 41)"
      "request_ok (stack_size (one_stream_server [97] [98] [] 41)) (GetKey (sample_gkq [0, 0]))"
    unfolding sample_server_ready(3) by (simp, rule sample_get_key(1))
  from servlet_implements_server [OF conn_records sample_conn sample_server_ready(1,2) kms_rel_sample(2) this(1)
      uuid_laws_sample this(2) sample_handle]
  obtain c2 w' F' where "conn_recs c2 = []" "qkd_servlet conn_ssl sample_uuid (ServerExample.qkd_open_connect sample_uuid)
      (ServerExample.qkd_get_key sample_rand sample_uuid) ServerExample.qkd_close
      \<lparr>c_in = [packet 4 (enc_gkq (sample_gkq [0, 0]))], c_out = []\<rparr> (one_stream_server [97] [98] [] 41) =
      Inr (SERVER_LISTENING, snd (SSL_write conn_ssl c2 (int (length sample_answer)) sample_answer), w')"
      "kms_rel w' F' (sample_kms [sample_stream [97] [98] 42])"
    unfolding request_packet.simps by blast
  with sample_written show ?thesis by blast
qed

text \<open>
  C34. A GET_KEY transaction that delivers a key loses memory: of everything allocated while it was
  served exactly one block is left, the metadata of the request, and the registry does not own it.
\<close>

theorem get_key_transaction_leaks:
  assumes "tls_records T recs" "recs c = packet 4 (enc_gkq X) # xs" "8 \<le> stack_size w"
      "length (enc_gkq X) \<le> stack_size w"
    and "uuid_laws L" "wf_mem w" "no_oom w" "kms_rel w F k" "valid_gkq X" "length (enc_gkq X) < 2 ^ 31"
    and "kms_get R L (gkq_key_stream_id X) (gkq_index X) (gkq_metadata X) k = Some (key, info, k')"
    and "length (packet 5 (enc_gks (gk_answer 0 (gkq_index X) key info))) < 2 ^ 31"
  shows "\<exists>c' w'.
    qkd_servlet T L (ServerExample.qkd_open_connect L) (ServerExample.qkd_get_key R L) ServerExample.qkd_close c w =
      Inr (SERVER_LISTENING, c', w') \<and>
    kms_rel w' F k' \<and> grows w {nxt w + 3} w' \<and> nxt w + 3 \<notin> F"
proof -
  have "nxt w + 3 \<notin> F"
    using server.rel_owned [OF assms(6,8), of "nxt w + 3"] by auto
  then show ?thesis
    using server.handle_get_key [OF assms] by blast
qed

theorem get_key_transaction_leaks_witness:
  "\<exists>c' w'. qkd_servlet conn_ssl sample_uuid (ServerExample.qkd_open_connect sample_uuid)
      (ServerExample.qkd_get_key sample_rand sample_uuid) ServerExample.qkd_close
      \<lparr>c_in = [packet 4 (enc_gkq (sample_gkq [0, 0]))], c_out = []\<rparr> (one_stream_server [97] [98] [] 41) =
      Inr (SERVER_LISTENING, c', w') \<and> grows (one_stream_server [97] [98] [] 41) {8} w'"
proof -
  let ?X = "sample_gkq [0, 0] :: bytes qkd_get_key_request" and ?w = "one_stream_server [97] [98] [] 41"
  have X: "valid_gkq ?X" "length (enc_gkq ?X) < 2 ^ 31" "8 \<le> stack_size ?w" "length (enc_gkq ?X) \<le> stack_size ?w"
    unfolding sample_server_ready(3) using sample_get_key(1) by simp_all
  have "kms_get sample_rand sample_uuid (gkq_key_stream_id ?X) (gkq_index ?X) (gkq_metadata ?X)
      (sample_kms [sample_stream [97] [98] 41]) = Some (stream_key sample_rand (sample_stream [97] [98] 41) 258 0 0,
      device_info (start_config []) @ [0], sample_kms [sample_stream [97] [98] 42])"
    using sample_get_key(2) by (simp add: sample_gkq_def)
  moreover have "length (packet 5 (enc_gks (gk_answer 0 (gkq_index ?X)
      (stream_key sample_rand (sample_stream [97] [98] 41) 258 0 0) (device_info (start_config []) @ [0])))) < 2 ^ 31"
    using sample_answer_length by (simp add: sample_gkq_def)
  ultimately show ?thesis
    using get_key_transaction_leaks [OF conn_records _ X(3,4) uuid_laws_sample sample_server_ready(1,2)
        kms_rel_sample(2) X(1,2), of "\<lparr>c_in = [packet 4 (enc_gkq ?X)], c_out = []\<rparr>" "[]"]
      one_stream_server(7) [of "[97]" "[98]" "[]" 41]
    by (fastforce simp: conn_recs_def)
qed



text \<open>
  A packet with a service code the handler does not know takes the server down: no response is
  built, and eight bytes are then sent from the null pointer.
\<close>

theorem unknown_service_crashes:
  assumes "tls_records T recs" "recs c = packet service p # xs" "no_oom m" "wf_mem m"
      "8 \<le> stack_size m" "length p \<le> stack_size m" "p \<noteq> []" "length p < 2 ^ 31"
    and "service \<notin> {service_code QKD_SERVICE_OPEN_CONNECT_REQUEST, service_code QKD_SERVICE_GET_KEY_REQUEST,
      service_code QKD_SERVICE_CLOSE_REQUEST, service_code QKD_SERVICE_CLOSE_SERVER}"
  shows "qkd_servlet T L oc gk cl c m = Inl NullDeref"
  using assms(9) by (intro servlet_unknown_service [OF assms(1-8)]) simp

theorem unknown_service_crashes_witness:
  "qkd_servlet conn_ssl sample_uuid (ServerExample.qkd_open_connect sample_uuid)
     (ServerExample.qkd_get_key sample_rand sample_uuid) ServerExample.qkd_close
     \<lparr>c_in = [packet 6 [1]], c_out = []\<rparr> (sample_server [] [] None) = Inl NullDeref"
  by (rule unknown_service_crashes [OF conn_records, where service = 6 and p = "[1]" and xs = "[]"])
    (simp_all add: conn_recs_def wf_sample_server, simp_all add: sample_server_def)

section \<open>The server program\<close>

text \<open>
  C7. The server program serves its clients: started on a system where its set-up calls succeed and
  given any sequence of connections, of which some fail in the handshake and all others bring a
  well-formed request, it answers every request with the response that the specified server,
  started without streams, gives at that point of the sequence, shuts down and closes every
  connection, and then waits for the next one.
\<close>

theorem server_program_serves:
  assumes "tls_records T recs" "server_up T c0 ctx l" "uuid_laws L"
    and "wf_mem w" "no_oom w" "16 \<le> stack_size w"
    and "list_all2 (brings T recs) conns visits" "\<forall>req. Some req \<in> set visits \<longrightarrow> request_ok (stack_size w) req"
    and "kms_run R L visits (kms_start (uuid_draws w)) = Some (resps, k)"
  shows "\<exists>done w' F. ServerMain.main T R L c0 conns w = Inr (None, l, done, w') \<and>
    list_all2 (answered T recs) done resps \<and> kms_rel w' F k \<and> wf_mem w'"
  using assms by (rule main_serves)

text \<open>An OPEN\_CONNECT, a peer whose handshake fails, and a CLOSE.\<close>

definition sample_visits :: "qkd_request option list" where
  "sample_visits = [Some (OpenConnect (sample_ocq [97] [98] [])), None, Some (Close \<lparr>clq_key_stream_id = replicate 16 9\<rparr>)]"

definition sample_conn_of :: "qkd_request option \<Rightarrow> conn" where
  "sample_conn_of v = (case v of None \<Rightarrow> \<lparr>c_in = [], c_out = []\<rparr> | Some req \<Rightarrow> \<lparr>c_in = [request_packet req], c_out = []\<rparr>)"

definition sample_conns :: "conn list" where
  "sample_conns = map sample_conn_of sample_visits"

text \<open>Peers that send nothing fail in the handshake.\<close>

definition shaky_ssl :: "conn openssl" where
  "shaky_ssl = conn_ssl\<lparr>SSL_accept := (\<lambda>c. (if c_in c = [] then -1 else 1, c))\<rparr>"

lemma shaky_records: "tls_records shaky_ssl conn_recs"
  using conn_records by (simp add: tls_records_def shaky_ssl_def)

lemma shaky_up: "\<exists>ctx. server_up shaky_ssl c ctx c"
  by (simp add: server_up_def socket_ssl_context_create_def socket_ssl_context_load_certs_def
      socket_ssl_context_load_peer_CA_def socket_create_server_def Let_def wire_ssl_def shaky_ssl_def)

lemma sample_run:
  "list_all2 (brings shaky_ssl conn_recs) sample_conns sample_visits"
  "\<forall>req. Some req \<in> set sample_visits \<longrightarrow> request_ok 8388608 req"
  "\<exists>resps k. kms_run sample_rand sample_uuid sample_visits (kms_start 0) = Some (resps, k) \<and> length resps = 3"
  by (auto simp: sample_visits_def sample_conns_def sample_conn_of_def conn_recs_def sample_messages valid_ocq_def
      valid_str_def valid_qos_def fits_ocq_def fits_mime_def enc_ocq_def length_enc valid_clq_def shaky_ssl_def
      split: prod.splits)

theorem server_program_serves_witness:
  "\<exists>l done w'. ServerMain.main shaky_ssl sample_rand sample_uuid \<lparr>c_in = [], c_out = []\<rparr> sample_conns
      (sample_server [] [] None) = Inr (None, l, done, w') \<and> length done = 3"
proof -
  obtain ctx where up: "server_up shaky_ssl \<lparr>c_in = [], c_out = []\<rparr> ctx \<lparr>c_in = [], c_out = []\<rparr>"
    using shaky_up by blast
  obtain resps k where run: "kms_run sample_rand sample_uuid sample_visits (kms_start 0) = Some (resps, k)"
      "length resps = 3"
    using sample_run(3) by blast
  have w: "wf_mem (sample_server [] [] None)" "stack_size (sample_server [] [] None) = 8388608"
    by (simp_all add: wf_sample_server) (simp add: sample_server_def)
  from server_program_serves [OF shaky_records up uuid_laws_sample w(1) _ _ sample_run(1), of sample_rand resps k]
  show ?thesis
    using sample_run(2) run w(2) by (auto dest!: list_all2_lengthD)
qed

text \<open>
  C23. A CLOSE_SERVER packet ends the program: the connections before it are served as specified,
  it is not answered, the program returns status 0 with its listening socket closed, and no later
  connection is served.
\<close>

theorem server_program_stops:
  assumes "tls_records T recs" "server_up T c0 ctx l" "uuid_laws L"
    and "wf_mem w" "no_oom w" "16 \<le> stack_size w"
    and "list_all2 (brings T recs) conns visits" "\<forall>req. Some req \<in> set visits \<longrightarrow> request_ok (stack_size w) req"
    and "kms_run R L visits (kms_start (uuid_draws w)) = Some (resps, k)"
    and "fst (SSL_accept T c) \<noteq> -1"
      "recs (snd (SSL_accept T c)) = packet (service_code QKD_SERVICE_CLOSE_SERVER) p # xs"
  shows "\<exists>done c' w'. ServerMain.main T R L c0 (conns @ c # rest) w =
      Inr (Some 0, snd (sys_close T l), done @ [c'], w') \<and>
    list_all2 (answered T recs) done resps \<and> wf_mem w'"
  using assms by (rule main_stops)

theorem server_program_stops_witness:
  "\<exists>l done w'. ServerMain.main shaky_ssl sample_rand sample_uuid \<lparr>c_in = [], c_out = []\<rparr>
      (sample_conns @ \<lparr>c_in = [packet 255 []], c_out = []\<rparr> # sample_conns) (sample_server [] [] None) =
      Inr (Some 0, l, done, w') \<and> length done = 4"
proof -
  let ?c = "\<lparr>c_in = [packet 255 []], c_out = []\<rparr>"
  obtain ctx where up: "server_up shaky_ssl \<lparr>c_in = [], c_out = []\<rparr> ctx \<lparr>c_in = [], c_out = []\<rparr>"
    using shaky_up by blast
  obtain resps k where run: "kms_run sample_rand sample_uuid sample_visits (kms_start 0) = Some (resps, k)"
      "length resps = 3"
    using sample_run(3) by blast
  have w: "wf_mem (sample_server [] [] None)" "stack_size (sample_server [] [] None) = 8388608"
    by (simp_all add: wf_sample_server) (simp add: sample_server_def)
  have c: "fst (SSL_accept shaky_ssl ?c) \<noteq> -1"
    by (simp add: shaky_ssl_def)
  have "conn_recs (snd (SSL_accept shaky_ssl ?c)) = packet (service_code QKD_SERVICE_CLOSE_SERVER) [] # []"
    by (simp add: conn_recs_def shaky_ssl_def)
  from server_program_stops [OF shaky_records up uuid_laws_sample w(1) _ _ sample_run(1) _ _ c this, of sample_rand resps k sample_conns]
  obtain l "done" c' w' where "ServerMain.main shaky_ssl sample_rand sample_uuid \<lparr>c_in = [], c_out = []\<rparr>
      (sample_conns @ ?c # sample_conns) (sample_server [] [] None) = Inr (Some 0, l, done @ [c'], w')"
      "list_all2 (answered shaky_ssl conn_recs) done resps"
    using sample_run(2) run w(2) by auto
  then show ?thesis
    using run(2) by (intro exI [of _ l] exI [of _ "done @ [c']"] exI [of _ w']) (auto dest!: list_all2_lengthD)
qed

end
