(* ===== verification/RunProps.thy ===== *)
theory RunProps
  imports SampleSites
begin

text \<open>
  The properties of client programs that are connected to the server: a remote call is a step of
  the specified server, and what the applications on top of it obtain.
\<close>

section \<open>Remote calls\<close>

text \<open>
  C9. A remote OPEN_CONNECT, from the client's structure through serialisation, transport, request
  handler and registry and back, returns status 0, the quality of service of the request and the
  identifier that the specified server gives; the server moves to the state of the specification,
  and no memory of the client is changed. Three blocks stay allocated: the MIME type of the result,
  which the caller gets, and the header and the MIME type of the response, which nobody releases.
\<close>

theorem remote_open_connect:
  assumes "site_at L stack (net w) k" "wf_mem w" "no_oom w" "512 \<le> stack_size w"
    and "ocq_at w x X" "fits_ocq X" "length (enc_ocq X) + 8 \<le> 16384" "length (enc_ocq X) \<le> stack"
    and "kms_open L (ocq_source X) (ocq_destination X) (ocq_qos X) (ocq_key_stream_id X) k = (ksid, k')"
  shows "\<exists>y w'. qkd_open_connect_struct (Client.qkd_open_connect (site_ssl R L) L) x w = Inr (y, w') \<and>
    ocs_at w' y (oc_answer X ksid) \<and> site_at L stack (net w') k' \<and>
    grows w {nxt w + 2, nxt w + 4, nxt w + 6} w'"
  using site_open [OF assms, of R] by blast

theorem remote_open_connect_witness:
  "\<exists>y w'. qkd_open_connect_struct (Client.qkd_open_connect (site_ssl sample_rand sample_uuid) sample_uuid)
      (sample_ocq (Ptr 0 0) (Ptr 1 0) (Ptr 2 0))
      (sample_client (sample_server [] [] None) [[97, 0], [98, 0], [0]]) = Inr (y, w') \<and>
    ocs_at w' y (oc_answer (sample_ocq [97] [98] []) (uuid_generate_random sample_uuid 0))"
proof -
  let ?X = "sample_ocq [97] [98] [] :: bytes qkd_open_connect_request"
  let ?w = "sample_client (sample_server [] [] None) [[97, 0], [98, 0], [0]]"
  have "ocq_at ?w (sample_ocq (Ptr 0 0) (Ptr 1 0) (Ptr 2 0)) ?X" "fits_ocq ?X"
      "length (enc_ocq ?X) + 8 \<le> 16384" "length (enc_ocq ?X) \<le> 8388608"
    by (simp_all add: sample_messages sample_at fits_ocq_def fits_mime_def enc_ocq_def length_enc)
  moreover have "kms_open sample_uuid (ocq_source ?X) (ocq_destination ?X) (ocq_qos ?X) (ocq_key_stream_id ?X) (sample_kms []) =
      (uuid_generate_random sample_uuid 0,
       with_stream (new_stream sample_uuid [97] [98] (sample_qos []) (sample_kms [])) (sample_kms []))"
    using open_new [OF unheard_sample, of "[97]" "[98]" "sample_qos []"]
    by (simp add: sample_ocq_def) (simp add: sample_kms_def)
  moreover have "site_at sample_uuid 8388608 (net ?w) (sample_kms [])" "wf_mem ?w"
    by (simp_all add: site_at_sample wf_sample_client less_Suc_eq)
  ultimately show ?thesis
    using remote_open_connect [of sample_uuid 8388608 ?w "sample_kms []"] by fastforce
qed

text \<open>
  C10. A remote GET_KEY for a stream of the server returns status 0, the index that was asked for,
  and the key and the device description that the specified server gives, each in a buffer of its
  own; the counter of the stream is the only thing that changes on the server.
\<close>

theorem remote_get_key:
  assumes "site_at L stack (net w) k" "wf_mem w" "no_oom w" "8 \<le> stack_size w"
    and "gkq_at w x X" "length (enc_gkq X) + 8 \<le> 16384" "length (enc_gkq X) \<le> stack"
    and "kms_get R L (gkq_key_stream_id X) (gkq_index X) (gkq_metadata X) k = Some (key, info, k')"
    and "length key + length info + 24 \<le> 16384" "length key + length info + 16 \<le> stack_size w"
  shows "\<exists>y w'. qkd_get_key_struct (Client.qkd_get_key (site_ssl R L) L) x w = Inr (y, w') \<and>
    gks_at w' y (gk_answer 0 (gkq_index X) key info) \<and> site_at L stack (net w') k' \<and>
    grows w {nxt w + 1, nxt w + 3, nxt w + 4} w'"
  using site_get [OF assms] by blast

theorem remote_get_key_witness:
  "\<exists>y w'. qkd_get_key_struct (Client.qkd_get_key (site_ssl sample_rand sample_uuid) sample_uuid)
      (sample_gkq \<lparr>bytes_size = 2, bytes_data = Ptr 0 0\<rparr>)
      (sample_client (one_stream_server [97] [98] [] 41) [[0, 0]]) = Inr (y, w') \<and>
    gks_at w' y (gk_answer 0 258 (stream_key sample_rand (sample_stream [97] [98] 41) 258 0 0)
      (device_info (start_config []) @ [0]))"
proof -
  let ?X = "sample_gkq [0, 0] :: bytes qkd_get_key_request"
  let ?x = "sample_gkq \<lparr>bytes_size = 2, bytes_data = Ptr 0 0\<rparr>"
  let ?w = "sample_client (one_stream_server [97] [98] [] 41) [[0, 0]]"
  let ?key = "stream_key sample_rand (sample_stream [97] [98] 41) 258 0 0" and ?info = "device_info (start_config []) @ [0]"
  have X: "gkq_at ?w ?x ?X" "length (enc_gkq ?X) + 8 \<le> 16384" "length (enc_gkq ?X) \<le> 8388608"
      "gkq_index ?X = 258"
    by (simp_all add: sample_messages sample_at enc_gkq_def length_enc)
  have get: "kms_get sample_rand sample_uuid (gkq_key_stream_id ?X) (gkq_index ?X) (gkq_metadata ?X)
      (sample_kms [sample_stream [97] [98] 41]) = Some (?key, ?info, sample_kms [sample_stream [97] [98] 42])"
    by (simp add: sample_gkq_def kms_get_def sample_kms_def find_stream_def sample_stream_def)
  have "length ?key = 2" "length ?info \<le> 105"
    using length_device_info [of "start_config []"]
    by (simp_all add: length_stream_key sample_stream_def sample_qos_def finite_float_def start_config_def)
  moreover have "site_at sample_uuid 8388608 (net ?w) (sample_kms [sample_stream [97] [98] 41])" "wf_mem ?w"
    by (simp_all add: site_at_sample wf_sample_client)
  ultimately show ?thesis
    using remote_get_key [OF _ _ _ _ X(1-3) get, unfolded X(4)] by fastforce
qed

text \<open>
  C25. A remote GET_KEY for an identifier that the server does not know returns status 3 (peer not
  connected), no key, and the metadata of the request; nothing changes on the server.
\<close>

theorem remote_get_key_unknown:
  assumes "site_at L stack (net w) k" "wf_mem w" "no_oom w" "8 \<le> stack_size w"
    and "gkq_at w x X" "length (gkq_metadata X) + 32 \<le> 16384" "length (enc_gkq X) \<le> stack"
      "length (gkq_metadata X) + 16 \<le> stack_size w"
    and "gkq_key_stream_id X \<notin> set (map ks_id (kms_streams k))"
  shows "\<exists>y w'. qkd_get_key_struct (Client.qkd_get_key (site_ssl R L) L) x w = Inr (y, w') \<and>
    gks_at w' y (gk_answer (status_code qkd_status_code_gk_peer_not_connected) (gkq_index X) [] (gkq_metadata X)) \<and>
    site_at L stack (net w') k"
  using site_get_unknown [OF assms, of R] by fastforce

theorem remote_get_key_unknown_witness:
  "\<exists>y w'. qkd_get_key_struct (Client.qkd_get_key (site_ssl sample_rand sample_uuid) sample_uuid)
      (sample_gkq \<lparr>bytes_size = 2, bytes_data = Ptr 0 0\<rparr>)
      (sample_client (sample_server [] [] None) [[0, 0]]) = Inr (y, w') \<and>
    gks_at w' y (gk_answer 3 258 [] [0, 0])"
proof -
  let ?X = "sample_gkq [0, 0] :: bytes qkd_get_key_request"
  let ?x = "sample_gkq \<lparr>bytes_size = 2, bytes_data = Ptr 0 0\<rparr>"
  let ?w = "sample_client (sample_server [] [] None) [[0, 0]]"
  have X: "gkq_at ?w ?x ?X" "length (gkq_metadata ?X) + 32 \<le> 16384" "length (enc_gkq ?X) \<le> 8388608"
      "length (gkq_metadata ?X) + 16 \<le> stack_size ?w"
      "gkq_key_stream_id ?X \<notin> set (map ks_id (kms_streams (sample_kms [])))"
    by (simp_all add: sample_messages sample_at enc_gkq_def length_enc sample_kms_def)
  have "site_at sample_uuid 8388608 (net ?w) (sample_kms [])" "wf_mem ?w" "no_oom ?w" "8 \<le> stack_size ?w"
    by (simp_all add: site_at_sample wf_sample_client)
  from remote_get_key_unknown [OF this X, of sample_rand] show ?thesis
    by (auto simp: sample_gkq_def)
qed

text \<open>
  C35. Closing a stream does not close it. A remote CLOSE returns status 0, and a GET_KEY that follows it
  for the same stream still returns status 0 and the key the stream had for that index before.
\<close>

theorem closed_stream_delivers_keys:
  assumes "session L w k" "gkq_at w x X" "length (gkq_metadata X) \<le> 1024"
    and "kms_get R L (gkq_key_stream_id X) (gkq_index X) (gkq_metadata X) k = Some (key, info, k')" "length key \<le> 8192"
  shows "\<exists>w1 y w'.
    qkd_close_struct (Client.qkd_close (site_ssl R L) L) \<lparr>clq_key_stream_id = gkq_key_stream_id X\<rparr> w =
      Inr (\<lparr>cls_status = 0\<rparr>, w1) \<and>
    qkd_get_key_struct (Client.qkd_get_key (site_ssl R L) L) x w1 = Inr (y, w') \<and>
    gks_at w' y (gk_answer 0 (gkq_index X) key info) \<and> session L w' k'"
proof -
  have "valid_clq \<lparr>clq_key_stream_id = gkq_key_stream_id X\<rparr>" "wf_mem w"
    using assms(1,2) by (simp_all add: valid_clq_def gkq_at_def session_def)
  with session_close [OF assms(1)]
  obtain w1 where w1: "qkd_close_struct (Client.qkd_close (site_ssl R L) L) \<lparr>clq_key_stream_id = gkq_key_stream_id X\<rparr> w =
      Inr (\<lparr>cls_status = 0\<rparr>, w1)" "session L w1 k" "keeps w w1"
    by blast
  have "gkq_at w1 x X"
    using gkq_at_keeps [OF \<open>wf_mem w\<close> w1(3) assms(2)] .
  from session_get [OF w1(2) this assms(3-5)] w1(1) show ?thesis
    by blast
qed

theorem closed_stream_delivers_keys_witness:
  "\<exists>w1 y w'. qkd_close_struct (Client.qkd_close (site_ssl sample_rand sample_uuid) sample_uuid)
      \<lparr>clq_key_stream_id = replicate 16 9\<rparr> (sample_client (chunk_server 32) [[0, 0]]) = Inr (\<lparr>cls_status = 0\<rparr>, w1) \<and>
    qkd_get_key_struct (Client.qkd_get_key (site_ssl sample_rand sample_uuid) sample_uuid)
      (sample_gkq \<lparr>bytes_size = 2, bytes_data = Ptr 0 0\<rparr>) w1 = Inr (y, w') \<and>
    bytes_at w' (gks_key_buffer y) (prng_bytes sample_rand (stream_seed [97] [98] 258) 32)"
proof -
  let ?w = "sample_client (chunk_server 32) [[0, 0]]" and ?X = "sample_gkq [0, 0] :: bytes qkd_get_key_request"
  let ?key = "prng_bytes sample_rand (stream_seed [97] [98] 258) 32"
  let ?k = "sample_kms [chunk_stream 32]" and ?k' = "sample_kms [(chunk_stream 32)\<lparr>ks_index := 1\<rparr>]"
  have w: "session sample_uuid ?w ?k"
    using chunk_server [of 32] by (auto simp: session_def site_at_def wf_sample_client)
  have X: "gkq_at ?w (sample_gkq \<lparr>bytes_size = 2, bytes_data = Ptr 0 0\<rparr>) ?X"
    by (simp add: sample_gkq_def sample_at)
  have "kms_get sample_rand sample_uuid (gkq_key_stream_id ?X) (gkq_index ?X) (gkq_metadata ?X) ?k =
      Some (?key, device_info (start_config []) @ [0], ?k')"
    by (simp add: kms_get_def sample_kms_def chunk_stream_def sample_stream_def find_stream_def stream_key_def
        sample_qos_def sample_gkq_def Let_def)
  from closed_stream_delivers_keys [OF w X _ this] show ?thesis
    by (fastforce simp: sample_gkq_def gks_at_def gk_answer_def)
qed

section \<open>Applications\<close>

text \<open>
  C8. The example program: against a server that has not seen its pair of URIs yet, it runs to its
  end and returns 0, and it has appended one entry to each of its two files: to \<open>test.key\<close> the
  8192 bytes of the sender's key of index 0, as bits, and to \<open>test_.key\<close> the masked key that
  the receiver gets. All other files are as they were.
\<close>

theorem client_example_writes_both_keys:
  assumes "session L w k" "uuid_text_laws U" "unheard L example_source example_destination k"
    and "fopen ''test.key''" "fopen ''test_.key''"
    and "key = prng_bytes R (stream_seed example_source example_destination 0) 8192"
  shows "\<exists>w'. ClientExample.main (site_ssl R L) L U fopen fs w =
    Inr (0, appended (appended fs ''test.key'' (key_entry 0 key))
              ''test_.key'' (key_entry 0 (oblivious_mask key)), w')"
proof -
  let ?s = "new_stream L example_source example_destination (example_qos (str_bytes ''application/json'')) k"
  have "stream_key R ?s 0 1 16 = key" "stream_key R ?s 0 1 17 = oblivious_mask key"
    by (simp_all add: assms(6) stream_key_def Let_def new_stream_def example_qos_def)
  then show ?thesis
    using getKey_run [OF assms(1-5) refl, of R fs] by (auto simp: ClientExample.main_def)
qed

theorem client_example_writes_both_keys_witness:
  "\<exists>w' fs. ClientExample.main (site_ssl sample_rand sample_uuid) sample_uuid sample_text (\<lambda>_. True) Map.empty
      (sample_client (sample_server [] [] None) []) = Inr (0, fs, w') \<and>
    fs ''test.key'' = Some (key_entry 0 (prng_bytes sample_rand (stream_seed example_source example_destination 0) 8192))"
proof -
  have "session sample_uuid (sample_client (sample_server [] [] None) []) (sample_kms [])"
    by (rule session_sample) simp
  from client_example_writes_both_keys [OF this uuid_text_laws_sample unheard_sample, of "\<lambda>_. True" _ sample_rand Map.empty]
  show ?thesis
    by (fastforce simp: appended_def)
qed

text \<open>
  C1. Key agreement end to end. Two applications, each with its own server, open a stream through
  the C interface, one from A to B and the other from B to A with the same key length, and ask for
  the key of the same index: both calls return status 0 and both applications hold the same bytes,
  as many as they asked for, although the two servers share nothing but \<open>rand\<close>.
\<close>

theorem applications_agree_on_key:
  assumes "session L w1 k1" "unheard L A B k1" "cstr w1 my1 A" "cstr w1 peer1 B"
    and "session L w2 k2" "unheard L B A k2" "cstr w2 my2 B" "cstr w2 peer2 A"
    and "uuid_text_laws U" "length A + length B \<le> 16000" "unat len \<le> 8192"
  shows "\<exists>y1 w1' y2 w2' key.
    open_and_get (site_ssl R L) L U my1 peer1 len index w1 = Inr (y1, w1') \<and>
    open_and_get (site_ssl R L) L U my2 peer2 len index w2 = Inr (y2, w2') \<and>
    gks_status y1 = 0 \<and> gks_status y2 = 0 \<and>
    bytes_at w1' (gks_key_buffer y1) key \<and> bytes_at w2' (gks_key_buffer y2) key \<and> length key = unat len"
proof -
  let ?key = "prng_bytes R (stream_seed A B index) (unat len)"
  obtain y1 w1' where "open_and_get (site_ssl R L) L U my1 peer1 len index w1 = Inr (y1, w1')"
      "gks_status y1 = 0" "bytes_at w1' (gks_key_buffer y1) ?key"
    using open_and_get_run [OF assms(1,9,2-4,10,11)] by blast
  moreover have "length B + length A \<le> 16000"
    using assms(10) by simp
  then obtain y2 w2' where "open_and_get (site_ssl R L) L U my2 peer2 len index w2 = Inr (y2, w2')"
      "gks_status y2 = 0" "bytes_at w2' (gks_key_buffer y2) ?key"
    using open_and_get_run [OF assms(5,9,6-8) _ assms(11), of R index] stream_seed_swap [of B A index] by auto
  moreover have "length ?key = unat len"
    by simp
  ultimately show ?thesis by blast
qed

theorem applications_agree_on_key_witness:
  "\<exists>y1 w1' y2 w2' key.
    open_and_get (site_ssl sample_rand sample_uuid) sample_uuid sample_text (Ptr 0 0) (Ptr 1 0) 32 7
      (sample_client (sample_server [] [] None) [[97, 0], [98, 0]]) = Inr (y1, w1') \<and>
    open_and_get (site_ssl sample_rand sample_uuid) sample_uuid sample_text (Ptr 1 0) (Ptr 0 0) 32 7
      (sample_client (sample_server [] [] None) [[97, 0], [98, 0]]) = Inr (y2, w2') \<and>
    bytes_at w1' (gks_key_buffer y1) key \<and> bytes_at w2' (gks_key_buffer y2) key \<and> length key = 32"
proof -
  let ?w = "sample_client (sample_server [] [] None) [[97, 0], [98, 0]]"
  have w: "session sample_uuid ?w (sample_kms [])"
    by (rule session_sample) (simp add: less_Suc_eq)
  have c: "cstr ?w (Ptr 0 0) [97]" "cstr ?w (Ptr 1 0) [98]"
    by (simp_all add: cstr_def)
  from applications_agree_on_key [OF w unheard_sample c w unheard_sample c(2,1) uuid_text_laws_sample, of 32 sample_rand 7]
  show ?thesis
    by fastforce
qed

text \<open>
  \<open>openConnect\<close> with an identifier that does not parse returns NULL, but it has released the
  string of the caller; and when that string is not from the heap, the release itself is undefined.
\<close>

theorem openConnect_frees_argument:
  assumes "cstr w (Ptr b 0) t" "wf_mem w" "uuid_parse U t = None"
  shows "(autos w b \<longrightarrow>
      openConnect T L U certPem keyPem host port my peer (Ptr b 0) len w = Inl BadFree) \<and>
    (\<not> autos w b \<longrightarrow>
      (\<exists>w'. openConnect T L U certPem keyPem host port my peer (Ptr b 0) len w = Inr (NULL, w') \<and>
        blocks w b \<noteq> None \<and> blocks w' b = None))"
  using open_connect_unparsable [OF assms, of T L certPem keyPem host port my peer len] assms(1)
  by (auto simp: cstr_Ptr)

theorem openConnect_frees_argument_witness:
  "\<exists>w'. openConnect (site_ssl sample_rand sample_uuid) sample_uuid sample_text None None ''localhost'' 25575
      NULL NULL (Ptr 0 0) 32 (sample_client (sample_server [] [] None) [[97, 0]]) = Inr (NULL, w') \<and>
    blocks w' 0 = None"
proof -
  let ?w = "sample_client (sample_server [] [] None) [[97, 0]]"
  have "cstr ?w (Ptr 0 0) [97]" "wf_mem ?w" "uuid_parse sample_text [97] = None"
    by (simp_all add: cstr_def wf_sample_client sample_text_def uuid_of_text_def)
  from openConnect_frees_argument [OF this, of "site_ssl sample_rand sample_uuid" sample_uuid None None "''localhost''"
      25575 NULL NULL 32]
  show ?thesis by auto
qed

text \<open>
  \<open>getKey\<close> with an identifier that does not parse reports success: no request is sent and nothing
  is written, but the response that is returned has status 0, which is the code for success, and a null
  key of size 0.
\<close>

theorem getKey_unparsable_reports_success:
  assumes "cstr w p t" "wf_mem w" "uuid_parse U t = None"
  shows "\<exists>y w'. ClientApi.getKey T L U certPem keyPem host port keyType index p w = Inr (y, w') \<and>
    gks_status y = status_code qkd_status_code_successful \<and>
    bytes_size (gks_key_buffer y) = 0 \<and> bytes_data (gks_key_buffer y) = NULL \<and>
    net w' = net w \<and> blocks w' = blocks w"
  using get_key_unparsable [OF assms, of T L certPem keyPem host port keyType index]
  by (auto simp: zero_get_key_response_def zero_bytes_def)

theorem getKey_unparsable_reports_success_witness:
  "\<exists>y w'. ClientApi.getKey (site_ssl sample_rand sample_uuid) sample_uuid sample_text None None ''localhost'' 25575 0 7
      (Ptr 0 0) (sample_client (sample_server [] [] None) [[97, 0]]) = Inr (y, w') \<and>
    gks_status y = 0 \<and> bytes_data (gks_key_buffer y) = NULL"
proof -
  let ?w = "sample_client (sample_server [] [] None) [[97, 0]]"
  have "cstr ?w (Ptr 0 0) [97]" "wf_mem ?w" "uuid_parse sample_text [97] = None"
    by (simp_all add: cstr_def wf_sample_client sample_text_def uuid_of_text_def)
  from getKey_unparsable_reports_success [OF this, of "site_ssl sample_rand sample_uuid" sample_uuid None None
      "''localhost''" 25575 0 7]
  show ?thesis by auto
qed

end
