(* ===== verification/Peers.thy ===== *)
theory Peers
  imports Deployment ServerMain
begin

text \<open>
  What lies outside the contract of client and server: peers that are not these programs, and
  messages that do not fit in one TLS record. A client is connected to an arbitrary responder
  (a second interpretation of \<open>request_link\<close>); the request handler gets headers that announce more
  than its stack holds and GET\_KEY requests without the two bytes of metadata it reads; and a
  response longer than a record reaches the client with its parts laid over each other.
\<close>

section \<open>A client and an arbitrary responder\<close>

text \<open>The network of such a client is the list of records that are on their way to it.\<close>

abbreviation peer_ssl :: "(bytes \<Rightarrow> bytes) \<Rightarrow> bytes list openssl" where
  "peer_ssl reply \<equiv> wire_ssl (\<lambda>xs. xs) (\<lambda>xs _. xs) (\<lambda>req _. [reply req])"

interpretation peer: request_link "peer_ssl reply" "\<lambda>xs. xs" "\<lambda>_. True" "\<lambda>_ _. True"
  "\<lambda>req s. Some (reply req, s)" for reply
proof unfold_locales
  show "tls_records (peer_ssl reply) (\<lambda>xs. xs)"
    by (simp add: wire_ssl_records)
  show "\<exists>ctx c. dial (peer_ssl reply) cf n = Inr (ctx, c) \<and> True \<and> c = []" for cf n
    using wire_ssl_dial [of "\<lambda>xs. xs" "\<lambda>xs _. xs" "\<lambda>req _. [reply req]" cf n] by auto
qed auto

section \<open>Headers that announce too much\<close>

lemma recv_stack_overflow:
  assumes "stack_size m < unat n"
  shows "socket_ssl_recv T n c m = Inl StackOverflow"
proof -
  have "n \<noteq> 0"
    using assms by auto
  then show ?thesis
    using assms by (simp add: socket_ssl_recv_def)
qed

lemma servlet_stack_overflow:
  assumes T: "tls_records T recs" and c: "recs c = (enc_header h @ q) # xs"
    and m: "no_oom m" "wf_mem m" "8 \<le> stack_size m"
    and h: "hdr_service h \<noteq> service_code QKD_SERVICE_CLOSE_SERVER" "stack_size m < unat (hdr_payload_size h)"
  shows "qkd_servlet T L open_connect get_key close c m = Inl StackOverflow"
proof -
  let ?m = "new_block False (enc_header h) m"
  obtain c1 where "socket_ssl_recv T 8 c m = Inr (\<lparr>bytes_size = 8, bytes_data = Ptr (nxt m) 0\<rparr>, c1, ?m)"
      "qkd_header_from_stream (Ptr (nxt m) 0) ?m = Inr (h, Ptr (nxt m) 8)"
    using recv_record_header [OF T c m] by blast
  moreover have "socket_ssl_recv T (ucast (hdr_payload_size h)) c1 (kill_block (nxt m) ?m) = Inl StackOverflow"
    using h(2) by (intro recv_stack_overflow) simp
  ultimately show ?thesis
    using h(1) by (simp add: qkd_servlet_def free_live)
qed

section \<open>GET\_KEY without its metadata\<close>

text \<open>Metadata of which the server reads a byte that is not there.\<close>

definition short_metadata :: "bytes \<Rightarrow> bool" where
  "short_metadata md \<longleftrightarrow> md = [] \<or> (\<exists>ty. md = [ty] \<and> ty \<noteq> type_code qkd_key_type_symmetric)"

lemma get_key_short_metadata:
  assumes reg: "registry w F is ss" and L: "uuid_laws L" and ksid: "length ksid = 16"
    and s: "find_stream ksid ss = Some s"
    and md: "bytes_data md = Ptr b 0" "blocks w b = Some x" "short_metadata x"
  shows "ServerExample.qkd_get_key R L ksid index kb md status w = Inl OutOfBounds"
proof -
  obtain i n where "gk_search L (Suc (nxt w)) (ksid_info_linked_list (config w)) ksid w = Inr (Some i)"
      "nodes w i = Some n"
    using gk_search_registry [OF reg L ksid] s by auto
  moreover have "gen_requested_key R n index (Ptr b 0) w = Inl OutOfBounds"
    using md(2,3) by (auto simp: gen_requested_key_def short_metadata_def load_def Let_def)
  ultimately show ?thesis
    using md(1) by (simp add: ServerExample.qkd_get_key_def del: gk_search.simps)
qed

lemma servlet_get_key_fault:
  assumes rcv: "tls_records T recs" "recs c = packet 4 (enc_gkq X) # xs" "8 \<le> stack_size m"
      "length (enc_gkq X) \<le> stack_size m"
    and L: "uuid_laws L" and m: "wf_mem m" "no_oom m" and X: "valid_gkq X" "length (enc_gkq X) < 2 ^ 31"
    and fault: "\<And>index kb status. get_key (gkq_key_stream_id X) index kb
      (blob_struct (gkq_metadata X) (nxt m + 3)) status (gk_call_mem X m) = Inl e"
  shows "qkd_servlet T L open_connect get_key close c m = Inl e"
proof -
  have "enc_gkq X \<noteq> []"
    using X(1) by (auto simp: enc_gkq_def valid_gkq_def)
  from servlet_receives [OF rcv(1,2) m(2,1) rcv(3,4) this X(2), of L open_connect get_key close]
  have "\<exists>f. qkd_servlet T L open_connect get_key close c m =
      bind_res (serve_request L open_connect get_key close 4 (Ptr (Suc (nxt m)) 0) (request_mem 4 (enc_gkq X) m)) f"
    by auto
  moreover have "qkd_get_key_struct get_key (gkq_struct X (nxt m + 2)) (gk_call_mem X m) = Inl e"
    using fault by (simp add: qkd_get_key_struct_def gkq_struct_def zero_get_key_response_def eval_nat_numeral)
  ultimately show ?thesis
    using gk_request_read(1) [OF L m X] by (auto simp: serve_request_def)
qed

lemma servlet_short_metadata:
  assumes rcv: "tls_records T recs" "recs c = packet 4 (enc_gkq X) # xs" "8 \<le> stack_size w"
      "length (enc_gkq X) \<le> stack_size w"
    and L: "uuid_laws L" and w: "wf_mem w" "no_oom w" "kms_rel w F k"
    and X: "valid_gkq X" "length (enc_gkq X) < 2 ^ 31"
      "gkq_key_stream_id X \<in> set (map ks_id (kms_streams k))" "short_metadata (gkq_metadata X)"
  shows "server_servlet T R L c w = Inl OutOfBounds"
proof -
  note rd = gk_request_read [OF L w(1,2) X(1,2)]
  have "kms_rel (gk_call_mem X w) F k"
    using w(3) by (rule kms_rel_frame)
      (simp_all add: gk_call_mem_fields server.rel_owned [OF w(1,3)] grows_old [OF rd(5)])
  then obtain "is" where reg: "registry (gk_call_mem X w) F is (kms_streams k)"
    by (auto simp: kms_rel_def)
  obtain s where s: "find_stream (gkq_key_stream_id X) (kms_streams k) = Some s"
    using X(3) find_stream_member by fastforce
  have "blocks (gk_call_mem X w) (nxt w + 3) = Some (gkq_metadata X)"
    by (simp add: gk_call_mem_def gkq_mem_def)
  from get_key_short_metadata [OF reg L rd(6) s _ this X(4), of "blob_struct (gkq_metadata X) (nxt w + 3)"]
  show ?thesis
    by (intro servlet_get_key_fault [OF rcv L w(1,2) X(1,2)]) (simp add: blob_struct_def)
qed

section \<open>Peers the server does not survive\<close>

lemma servlet_disconnected:
  assumes "fst (SSL_read T c 8) = 0" "8 \<le> stack_size m"
  shows "qkd_servlet T L open_connect get_key close c m = Inl (Exited EXIT_FAILURE)"
proof -
  have "socket_ssl_recv T 8 c m = Inl (Exited EXIT_FAILURE)"
    using assms by (intro recv_closed) simp_all
  then show ?thesis
    by (simp add: qkd_servlet_def)
qed

text \<open>
  \<open>fatal_peer T recs stack k c e\<close>: the connection \<open>c\<close>, when a server in state \<open>k\<close> with a stack of
  \<open>stack\<close> bytes gets to serve it, makes it end by \<open>e\<close>.
\<close>

inductive fatal_peer :: "'n openssl \<Rightarrow> ('n \<Rightarrow> bytes list) \<Rightarrow> nat \<Rightarrow> kms \<Rightarrow> 'n \<Rightarrow> fault \<Rightarrow> bool"
  for T recs stack k c where
  disconnects: "fst (SSL_read T c 8) = 0 \<Longrightarrow> fatal_peer T recs stack k c (Exited EXIT_FAILURE)"
| announces_too_much:
    "recs c = (enc_header h @ q) # xs \<Longrightarrow> hdr_service h \<noteq> service_code QKD_SERVICE_CLOSE_SERVER \<Longrightarrow>
     stack < unat (hdr_payload_size h) \<Longrightarrow> fatal_peer T recs stack k c StackOverflow"
| unknown_service:
    "recs c = packet service p # xs \<Longrightarrow> p \<noteq> [] \<Longrightarrow> length p < 2 ^ 31 \<Longrightarrow> length p \<le> stack \<Longrightarrow>
     service \<notin> service_code ` {QKD_SERVICE_OPEN_CONNECT_REQUEST, QKD_SERVICE_GET_KEY_REQUEST,
       QKD_SERVICE_CLOSE_REQUEST, QKD_SERVICE_CLOSE_SERVER} \<Longrightarrow>
     fatal_peer T recs stack k c NullDeref"
| lacks_metadata:
    "recs c = packet (service_code QKD_SERVICE_GET_KEY_REQUEST) (enc_gkq X) # xs \<Longrightarrow> valid_gkq X \<Longrightarrow>
     length (enc_gkq X) < 2 ^ 31 \<Longrightarrow> length (enc_gkq X) \<le> stack \<Longrightarrow>
     gkq_key_stream_id X \<in> set (map ks_id (kms_streams k)) \<Longrightarrow> short_metadata (gkq_metadata X) \<Longrightarrow>
     fatal_peer T recs stack k c OutOfBounds"

lemma servlet_fatal:
  assumes "fatal_peer T recs (stack_size w) k c e" "tls_records T recs" "uuid_laws L"
    and w: "wf_mem w" "no_oom w" "kms_rel w F k" "8 \<le> stack_size w"
  shows "server_servlet T R L c w = Inl e"
  using assms(1)
proof cases
  case disconnects
  then show ?thesis
    using w(4) by (simp add: servlet_disconnected)
next
  case (announces_too_much h q xs)
  then show ?thesis
    using servlet_stack_overflow [OF assms(2) _ w(2,1,4)] by simp
next
  case (unknown_service service p xs)
  then show ?thesis
    using servlet_unknown_service [OF assms(2) _ w(2,1,4)] by simp
next
  case (lacks_metadata X xs)
  then show ?thesis
    using servlet_short_metadata [OF assms(2) _ w(4) _ assms(3) w(1-3)] by simp
qed

section \<open>Responses that need two records\<close>

text \<open>
  The two parts of the payload are received one over the other: the buffer has the size of the
  payload and starts with its second part.
\<close>

definition overlaid :: "bytes \<Rightarrow> bytes \<Rightarrow> bytes \<Rightarrow> bool" where
  "overlaid x y buf \<longleftrightarrow> length buf = length x + length y \<and> take (length y) buf = y"

lemma overlaid_write:
  "length j = length x + length y \<Longrightarrow> overlaid x y (write_at 0 y (write_at 0 x j))"
  by (simp add: overlaid_def write_at_def)

lemma perform_request_two_records:
  assumes T: "tls_records T recs" "dial T (cfg w) (net w) = Inr (ctx, c0)"
      "recs (snd (SSL_write T c0 (int (length req)) req)) = [enc_header h @ x, y]"
    and xy: "x \<noteq> []" "y \<noteq> []" "length x + length y < 2 ^ 31" "length x + length y \<noteq> 16384"
      "length x + length y \<le> stack_size w" "8 \<le> stack_size w"
      "hdr_payload_size h = of_nat (length x + length y)"
    and w: "wf_mem w" "no_oom w" "blocks w b = Some req" and req: "req \<noteq> []" "length req < 2 ^ 31"
  shows "\<exists>c buf. overlaid x y buf \<and>
    client_perform_request T \<lparr>bytes_size = of_nat (length req), bytes_data = Ptr b 0\<rparr> w =
      Inr (\<lparr>bytes_size = of_nat (length buf), bytes_data = Ptr (Suc (nxt w)) 0\<rparr>,
        (new_block False buf (new_block False (enc_header h) w))\<lparr>net := c\<rparr>)"
proof -
  let ?h = "new_block False (enc_header h) w" and ?c = "snd (SSL_write T c0 (int (length req)) req)"
  define n where "n = (ucast (of_nat (length x + length y) :: u32) :: size_t)"
  have un: "unat n = length x + length y"
    using xy(3) unfolding n_def by (simp add: unat_of_nat take_bit_nat_eq_self del: of_nat_add)
  have nu: "ucast n = (of_nat (length x + length y) :: u32)"
    by (simp add: n_def del: of_nat_add)
  have n_max: "n \<noteq> SSL3_RT_MAX_PLAIN_LENGTH"
    using un xy(4) unat_SSL3 by auto
  have "load (Ptr b 0) (length req) w = Inr req"
    using w(3) by (simp add: load_def)
  note send = send_exact [OF this req, of T c0]
  obtain c1 where c1: "socket_ssl_recv T 8 ?c w = Inr (\<lparr>bytes_size = 8, bytes_data = Ptr (nxt w) 0\<rparr>, c1, ?h)"
      "recs c1 = [x, y]" "qkd_header_from_stream (Ptr (nxt w) 0) ?h = Inr (h, Ptr (nxt w) 8)"
    using recv_record_header [OF T(1,3) w(2,1) xy(6)] xy(1) by auto
  define buf where "buf = write_at 0 y (write_at 0 x (junk_bytes (unat n) ?h))"
  have buf: "overlaid x y buf"
    unfolding buf_def by (rule overlaid_write) (simp add: un)
  obtain c2 where "socket_ssl_recv T n c1 ?h =
      Inr (\<lparr>bytes_size = ucast n, bytes_data = Ptr (Suc (nxt w)) 0\<rparr>, c2, new_block False buf ?h)"
    using recv_two_records [OF T(1) c1(2) xy(1,2) un _ n_max, of ?h] w(2) xy(3,5) un by (auto simp: buf_def)
  then have "client_perform_request T \<lparr>bytes_size = of_nat (length req), bytes_data = Ptr b 0\<rparr> w =
      Inr (\<lparr>bytes_size = of_nat (length buf), bytes_data = Ptr (Suc (nxt w)) 0\<rparr>,
        (new_block False buf ?h)\<lparr>net := c2\<rparr>)"
    using T(2) send c1(1,3) buf
    by (simp add: client_perform_request_def dial_def xy(7) nu n_def [symmetric] overlaid_def del: of_nat_add)
  with buf show ?thesis by blast
qed

lemma dec_gks_status: "dec_gks bs = Some (Y, r) \<Longrightarrow> gks_status Y = be_word (take 4 bs)"
  by (auto simp: dec_gks_def dec_u32_def dec_take_def bind_eq_Some_conv split: if_splits)

text \<open>The payload of a long GET\_KEY response: the record ends in the middle of the key.\<close>

lemma long_response_parts:
  assumes "16368 \<le> length key" "info \<noteq> []" and p_def: "p = enc_gks (gk_answer st index key info)"
  shows "take 16384 (packet 5 p) = enc_header \<lparr>hdr_version = QKD_004_VERSION, hdr_service = 5,
      hdr_payload_size = of_nat (length p)\<rparr> @ take 16376 p"
    "drop 16384 (packet 5 p) = drop 16376 p" "16384 < length p" "take 4 (drop 16376 p) = take 4 (drop 16364 key)"
proof -
  have len: "length p = 16 + length key + length info"
    by (simp add: p_def enc_gks_def gk_answer_def length_enc)
  with assms(1,2) show "16384 < length p"
    by (cases info) simp_all
  show "take 16384 (packet 5 p) = enc_header \<lparr>hdr_version = QKD_004_VERSION, hdr_service = 5,
      hdr_payload_size = of_nat (length p)\<rparr> @ take 16376 p" "drop 16384 (packet 5 p) = drop 16376 p"
    by (simp_all add: packet_def length_enc)
  have "drop 12 p = key @ enc_bytes info"
    by (simp add: p_def enc_gks_def gk_answer_def enc_bytes_def length_enc)
  moreover have "drop 16376 p = drop 16364 (drop 12 p)"
    by simp
  ultimately show "take 4 (drop 16376 p) = take 4 (drop 16364 key)"
    using assms(1) by simp
qed

lemma site_sends_long:
  assumes n: "site_at L stack n k" and X: "valid_gkq X" "length (enc_gkq X) + 8 \<le> 16384" "length (enc_gkq X) \<le> stack"
    and step: "kms_get R L (gkq_key_stream_id X) (gkq_index X) (gkq_metadata X) k = Some (key, info, k')"
    and len: "16368 \<le> length key" "length key + length info + 24 \<le> 32768"
    and p: "p = enc_gks (gk_answer 0 (gkq_index X) key info)"
  shows "inbox (turn R L (packet 4 (enc_gkq X)) n) =
    [enc_header \<lparr>hdr_version = QKD_004_VERSION, hdr_service = 5, hdr_payload_size = of_nat (length p)\<rparr> @ take 16376 p,
     drop 16376 p]"
proof -
  have info: "info \<noteq> []" "\<not> kms_unknown (gkq_key_stream_id X) k"
    using step by (auto simp: kms_get_def kms_unknown_def split: option.splits list.splits if_splits)
  have lp: "length p = 16 + length key + length info"
    by (simp add: p enc_gks_def gk_answer_def length_enc)
  have "kms_handle R L (GetKey X) k = Some (packet 5 p, k')"
    using step info(2) lp len(2) by (simp add: Let_def p [symmetric] packet_split(3))
  then have "inbox (turn R L (packet 4 (enc_gkq X)) n) = tls_split (packet 5 p)"
    using turn_handles(1) [of L stack n k "packet 4 (enc_gkq X)" "GetKey X" R "packet 5 p" k'] n X
    by (simp add: packet_split(3))
  then show ?thesis
    using tls_split_two [of "packet 5 p"] long_response_parts [OF len(1) info(1) p] lp len(2)
    by (simp add: packet_split(3))
qed

lemma site_get_long:
  assumes n: "site_at L stack (net w) k"
    and w: "wf_mem w" "no_oom w" "8 \<le> stack_size w"
    and X: "gkq_at w \<lparr>gkq_key_stream_id = ksid, gkq_index = index, gkq_metadata = md\<rparr> X"
      "length (enc_gkq X) + 8 \<le> 16384" "length (enc_gkq X) \<le> stack"
    and step: "kms_get R L (gkq_key_stream_id X) (gkq_index X) (gkq_metadata X) k = Some (key, info, k')"
    and len: "16368 \<le> length key" "length key + length info + 24 \<le> 32768" "length key + length info + 16 \<le> stack_size w"
  shows "Client.qkd_get_key (site_ssl R L) L ksid index kb md status w = Inl OutOfBounds \<or>
    (\<exists>index' kb' md' w'. Client.qkd_get_key (site_ssl R L) L ksid index kb md status w =
       Inr (index', kb', md', be_word (take 4 (drop 16364 key)), w'))"
proof -
  let ?x = "\<lparr>gkq_key_stream_id = ksid, gkq_index = index, gkq_metadata = md\<rparr>"
  let ?req = "packet 4 (enc_gkq X)" and ?c0 = "(net w)\<lparr>inbox := []\<rparr>" and ?q = "new_block False (packet 4 (enc_gkq X)) w"
  define p where "p = enc_gks (gk_answer 0 (gkq_index X) key info)"
  let ?h = "\<lparr>hdr_version = QKD_004_VERSION, hdr_service = 5, hdr_payload_size = of_nat (length p)\<rparr>"
  have "info \<noteq> []"
    using step by (auto simp: kms_get_def split: option.splits list.splits if_splits)
  note parts = long_response_parts [OF len(1) this p_def]
  have lp: "length p = 16 + length key + length info"
    by (simp add: p_def enc_gks_def gk_answer_def length_enc)
  have v: "valid_gkq X" "fits_gkq X" "length (enc_gkq X) < 2 ^ 32" "length ?req = 8 + length (enc_gkq X)" "length ksid = 16"
    using gkq_c.at_valid [OF X(1)] X(1,2)
    by (simp_all add: fits_gkq_def fits_bytes_def enc_gkq_def length_enc packet_split(3) gkq_at_def)
  have "site_at L stack ?c0 k"
    using n by (simp add: site_at_def)
  then have rec: "inbox (snd (SSL_write (site_ssl R L) ?c0 (int (length ?req)) ?req)) =
      [enc_header ?h @ take 16376 p, drop 16376 p]"
    using site_sends_long [OF _ v(1) X(2,3) step len(1,2) p_def] by simp
  obtain ctx where dial: "dial (site_ssl R L) (cfg ?q) (net ?q) = Inr (ctx, ?c0)"
    using wire_ssl_dial [of inbox "\<lambda>xs n. n\<lparr>inbox := xs\<rparr>" "turn R L" "cfg w" "net w"] by auto
  have T: "tls_records (site_ssl R L) inbox"
    by (simp add: wire_ssl_records)
  have xy: "take 16376 p \<noteq> []" "drop 16376 p \<noteq> []" "length (take 16376 p) + length (drop 16376 p) = length p"
      "length p < 2 ^ 31" "length p \<noteq> 16384" "length p \<le> stack_size w" "wf_mem ?q" "length ?req < 2 ^ 31"
    using parts(3) lp len(2,3) w(1) v(4) X(2) by auto
  obtain c buf where buf: "overlaid (take 16376 p) (drop 16376 p) buf"
      "client_perform_request (site_ssl R L) \<lparr>bytes_size = of_nat (length ?req), bytes_data = Ptr (nxt w) 0\<rparr> ?q =
        Inr (\<lparr>bytes_size = of_nat (length buf), bytes_data = Ptr (nxt w + 2) 0\<rparr>,
          (new_block False buf (new_block False (enc_header ?h) ?q))\<lparr>net := c\<rparr>)"
    using perform_request_two_records [OF T dial rec xy(1,2), unfolded xy(3), of "nxt w"] w(2,3) xy(4-8) by auto
  let ?w = "(kill_block (nxt w) (new_block False buf (new_block False (enc_header ?h) ?q)))\<lparr>net := c\<rparr>"
  have "ucast (of_nat (length ?req) :: size_t) = (of_nat (length ?req) :: u32)"
    using xy(8) by (intro ucast_of_nat_64_32) simp
  then have ex: "exchange (site_ssl R L) 4 qkd_sizeof_get_key_request qkd_get_key_request_to_stream ?x w =
      Inr (\<lparr>bytes_size = of_nat (length buf), bytes_data = Ptr (nxt w + 2) 0\<rparr>, ?w)"
    using gkq_w.make_packet_exact [OF w(1,2) X(1) v(2,3), of 4, folded v(4)] buf(2)
    by (simp add: exchange_def free_live del: of_nat_add)
  have "take 4 buf = take 4 (take (length (drop 16376 p)) buf)"
    using parts(3) by (auto simp: min_def)
  also have "\<dots> = take 4 (drop 16364 key)"
    using buf(1) parts(4) unfolding overlaid_def by simp
  finally have buf': "take 4 buf = take 4 (drop 16364 key)" "length buf = length p"
    using buf(1) xy(3) unfolding overlaid_def by simp_all
  have "readable ?w (nxt w + 2) buf"
    using xy(4,7) w(2) buf'(2) by (simp add: readable_def length_enc)
  from read_gks [OF this, of 0] site_laws [OF n] show ?thesis
    using dec_gks_status [of buf] buf'(1)
    by (auto simp: Client.qkd_get_key_def uuid_copy_id [OF _ v(5)] ex free_live gks_mem_def gks_struct_def split: option.splits)
qed

end
