(* ===== verification/PeerProps.thy ===== *)
theory PeerProps
  imports Peers SampleSites LinkProps
begin

text \<open>
  The properties that delimit the contract of client and server: what happens to a message that
  does not fit in one TLS record, and to messages of a peer that is not one of these two programs.
\<close>

section \<open>Keys that do not fit in one record\<close>



section \<open>Messages of other peers\<close>

text \<open>
  C37. A client takes the payload of a response for what it expects, whatever the header says: with
  any peer that answers a GET_KEY request by a header with the right payload size and the encoding of
  a GET_KEY response, the caller gets that response, also when version and service in the header
  are those of another message.
\<close>

theorem client_ignores_response_header:
  assumes "uuid_laws L" "wf_mem w" "no_oom w" "8 \<le> stack_size w"
    and "gkq_at w x X" "length (enc_gkq X) + 8 < 2 ^ 31"
    and "reply (packet 4 (enc_gkq X)) = enc_header h @ enc_gks Y" "hdr_payload_size h = of_nat (length (enc_gks Y))"
    and "valid_gks Y" "length (enc_gks Y) < 2 ^ 31" "length (enc_gks Y) \<le> stack_size w"
  shows "\<exists>y w'. qkd_get_key_struct (Client.qkd_get_key (peer_ssl reply) L) x w = Inr (y, w') \<and> gks_at w' y Y \<and>
    grows w {nxt w + 1, nxt w + 3, nxt w + 4} w'"
  using peer.get_key_struct_remote [of L reply X "()" h Y "()" w x] assms by auto

theorem client_ignores_response_header_witness:
  "\<exists>y w'. qkd_get_key_struct (Client.qkd_get_key (peer_ssl (\<lambda>_. enc_header \<lparr>hdr_version = QKD_004_VERSION,
        hdr_service = 9, hdr_payload_size = 20\<rparr> @ enc_gks (sample_gks [1, 2] [3, 4]))) sample_uuid)
      (sample_gkq \<lparr>bytes_size = 2, bytes_data = Ptr 0 0\<rparr>)
      \<lparr>blocks = [0 \<mapsto> [0, 0]], autos = (\<lambda>_. False), nxt = 1, alloc_ok = (\<lambda>_ _. True), junk = (\<lambda>_ _. 0), host_be = True,
       stack_size = 8388608, net = [], cfg = example_cfg\<rparr> = Inr (y, w') \<and> gks_at w' y (sample_gks [1, 2] [3, 4])"
proof -
  let ?w = "\<lparr>blocks = [0 \<mapsto> [0, 0]], autos = (\<lambda>_. False), nxt = 1, alloc_ok = (\<lambda>_ _. True), junk = (\<lambda>_ _. 0),
    host_be = True, stack_size = 8388608, net = [], cfg = example_cfg\<rparr> :: bytes list client"
  let ?X = "sample_gkq [0, 0] :: bytes qkd_get_key_request"
  let ?Y = "sample_gks [1, 2] [3, 4] :: bytes qkd_get_key_response"
  let ?h = "\<lparr>hdr_version = QKD_004_VERSION, hdr_service = 9, hdr_payload_size = 20\<rparr>"
  have len: "length (enc_gks ?Y) = 20" "length (enc_gkq ?X) = 26"
    by (simp_all add: sample_messages enc_gks_def enc_gkq_def length_enc)
  have "wf_mem ?w" "no_oom ?w" "gkq_at ?w (sample_gkq \<lparr>bytes_size = 2, bytes_data = Ptr 0 0\<rparr>) ?X" "valid_gks ?Y"
    by (simp_all add: wf_mem_def no_oom_def sample_messages sample_at valid_gks_def valid_bytes_def)
  then show ?thesis
    using client_ignores_response_header [of sample_uuid ?w _ ?X "\<lambda>_. enc_header ?h @ enc_gks ?Y" ?h ?Y] len
    by fastforce
qed

text \<open>
  The request handler reserves as many bytes on its stack as the header of a packet announces:
  a header with a payload size beyond the stack takes the server down, whatever follows it, for every
  service but CLOSE_SERVER, which has no payload.
\<close>

theorem oversized_header_overflows_stack:
  assumes "tls_records T recs" "recs c = (enc_header h @ q) # xs" "no_oom w" "wf_mem w" "8 \<le> stack_size w"
    and "hdr_service h \<noteq> service_code QKD_SERVICE_CLOSE_SERVER" "stack_size w < unat (hdr_payload_size h)"
  shows "qkd_servlet T L oc gk cl c w = Inl StackOverflow"
  using assms by (rule servlet_stack_overflow)

theorem oversized_header_overflows_stack_witness:
  "server_servlet conn_ssl sample_rand sample_uuid
     \<lparr>c_in = [enc_header \<lparr>hdr_version = QKD_004_VERSION, hdr_service = 4, hdr_payload_size = 0x10000000\<rparr>], c_out = []\<rparr>
     (sample_server [] [] None) = Inl StackOverflow"
  using oversized_header_overflows_stack [OF conn_records, of
      "\<lparr>c_in = [enc_header \<lparr>hdr_version = QKD_004_VERSION, hdr_service = 4, hdr_payload_size = 0x10000000\<rparr>], c_out = []\<rparr>"
      "\<lparr>hdr_version = QKD_004_VERSION, hdr_service = 4, hdr_payload_size = 0x10000000\<rparr>" "[]" "[]" "sample_server [] [] None"]
    wf_sample_server [of "[]" "[]" None]
    sample_server_fields(3) [of "[]" "[]" None]
  by (simp add: conn_recs_def sample_server_def del: sample_server_fields)

text \<open>
  The server reads the key type and the role of a GET_KEY request without looking at the size of
  the metadata: for a stream it knows, a request with empty metadata, or with a single byte that is not
  the type of symmetric keys, makes the request handler read out of bounds.
\<close>

theorem short_metadata_crashes:
  assumes "tls_records T recs" "recs c = packet 4 (enc_gkq X) # xs" "8 \<le> stack_size w" "length (enc_gkq X) \<le> stack_size w"
    and "uuid_laws L" "wf_mem w" "no_oom w" "kms_rel w F k"
    and "valid_gkq X" "length (enc_gkq X) < 2 ^ 31" "gkq_key_stream_id X \<in> set (map ks_id (kms_streams k))"
    and "gkq_metadata X = [] \<or> (\<exists>ty. gkq_metadata X = [ty] \<and> ty \<noteq> type_code qkd_key_type_symmetric)"
  shows "qkd_servlet T L (ServerExample.qkd_open_connect L) (ServerExample.qkd_get_key R L) ServerExample.qkd_close c w =
    Inl OutOfBounds"
  using servlet_short_metadata [OF assms(1-11)] assms(12) by (simp add: short_metadata_def)

theorem short_metadata_crashes_witness:
  "qkd_servlet conn_ssl sample_uuid (ServerExample.qkd_open_connect sample_uuid)
     (ServerExample.qkd_get_key sample_rand sample_uuid) ServerExample.qkd_close
     \<lparr>c_in = [packet 4 (enc_gkq (sample_gkq []))], c_out = []\<rparr> (chunk_server 32) = Inl OutOfBounds"
proof -
  let ?X = "sample_gkq [] :: bytes qkd_get_key_request" and ?w = "chunk_server 32"
  have "valid_gkq ?X" "length (enc_gkq ?X) = 24" "gkq_key_stream_id ?X \<in> set (map ks_id (kms_streams (sample_kms [chunk_stream 32])))"
      "gkq_metadata ?X = []"
    by (simp_all add: sample_gkq_def valid_gkq_def valid_bytes_def enc_gkq_def length_enc sample_kms_def chunk_stream_def
        sample_stream_def)
  then show ?thesis
    using short_metadata_crashes [OF conn_records, of "\<lparr>c_in = [packet 4 (enc_gkq ?X)], c_out = []\<rparr>" ?X "[]" ?w sample_uuid
        "{0, 1, 2}" "sample_kms [chunk_stream 32]" sample_rand] chunk_server [of 32]
    by (simp add: conn_recs_def)
qed

section \<open>Peers that end the server\<close>




end
