(* ===== verification/Sessions.thy ===== *)
theory Sessions
  imports EndToEnd
begin

text \<open>
  Applications that share a server. Any number of client processes, each with its own memory, call
  the server of the deployment one after the other in an arbitrary order; \<open>interleave\<close> runs such a
  sequence of calls with the code of \<open>interfaces.c\<close> and \<open>ssl_socket_client.c\<close>. It refines
  \<open>kms_calls\<close>, the same sequence on the specified server: every client gets the answers of the
  specification, and what a client has in memory, earlier answers included, is not changed by later
  calls of anyone.
\<close>

section \<open>Calls and replies\<close>

datatype call =
    CallOpen "ptr qkd_open_connect_request"
  | CallGet "qkd_bytes qkd_get_key_request"
  | CallClose qkd_close_request

datatype ('p, 'b) reply =
    ReplyOpen "'p qkd_open_connect_response"
  | ReplyGet "'b qkd_get_key_response"
  | ReplyClose qkd_close_response

fun perform ::
  "'n openssl \<Rightarrow> libuuid \<Rightarrow> call \<Rightarrow> 'n client \<Rightarrow> ((ptr, qkd_bytes) reply \<times> 'n client) res" where
  "perform T L (CallOpen x) w =
     bind_res (qkd_open_connect_struct (Client.qkd_open_connect T L) x w) (\<lambda>(y, w). Inr (ReplyOpen y, w))"
| "perform T L (CallGet x) w =
     bind_res (qkd_get_key_struct (Client.qkd_get_key T L) x w) (\<lambda>(y, w). Inr (ReplyGet y, w))"
| "perform T L (CallClose x) w =
     bind_res (qkd_close_struct (Client.qkd_close T L) x w) (\<lambda>(y, w). Inr (ReplyClose y, w))"

text \<open>Client \<open>i\<close> calls; the network with the server in it goes from client to client.\<close>

fun interleave ::
  "'n openssl \<Rightarrow> libuuid \<Rightarrow> (nat \<times> call) list \<Rightarrow> (nat \<Rightarrow> 'n client) \<Rightarrow> 'n \<Rightarrow>
   ((nat \<times> (ptr, qkd_bytes) reply) list \<times> (nat \<Rightarrow> 'n client) \<times> 'n) res" where
  "interleave T L [] ws n = Inr ([], ws, n)"
| "interleave T L ((i, x) # calls) ws n =
     bind_res (perform T L x ((ws i)\<lparr>net := n\<rparr>)) (\<lambda>(y, w).
     bind_res (interleave T L calls (ws(i := w)) (net w)) (\<lambda>(ys, ws, n).
     Inr ((i, y) # ys, ws, n)))"

fun call_at :: "'z mem_scheme \<Rightarrow> call \<Rightarrow> qkd_request \<Rightarrow> bool" where
  "call_at m (CallOpen x) (OpenConnect X) \<longleftrightarrow> ocq_at m x X"
| "call_at m (CallGet x) (GetKey X) \<longleftrightarrow> gkq_at m x X"
| "call_at m (CallClose x) (Close X) \<longleftrightarrow> x = X \<and> valid_clq X"
| "call_at m _ _ \<longleftrightarrow> False"

fun reply_at :: "'z mem_scheme \<Rightarrow> (ptr, qkd_bytes) reply \<Rightarrow> (bytes, bytes) reply \<Rightarrow> bool" where
  "reply_at m (ReplyOpen y) (ReplyOpen Y) \<longleftrightarrow> ocs_at m y Y"
| "reply_at m (ReplyGet y) (ReplyGet Y) \<longleftrightarrow> gks_at m y Y"
| "reply_at m (ReplyClose y) (ReplyClose Y) \<longleftrightarrow> y = Y"
| "reply_at m _ _ \<longleftrightarrow> False"

fun_cases reply_at_OpenE: "reply_at m y (ReplyOpen Y)"
  and reply_at_GetE: "reply_at m y (ReplyGet Y)"

section \<open>The specification\<close>

text \<open>
  What the specified server answers; \<open>None\<close> for requests and answers that need more than one TLS
  record and for those \<open>kms_get\<close> does not answer.
\<close>

fun kms_call :: "(u32 \<Rightarrow> nat \<Rightarrow> nat) \<Rightarrow> libuuid \<Rightarrow> qkd_request \<Rightarrow> kms \<Rightarrow> ((bytes, bytes) reply \<times> kms) option" where
  "kms_call R L (OpenConnect X) k =
     (if fits_ocq X \<and> length (enc_ocq X) + 8 \<le> 16384
      then (case kms_open L (ocq_source X) (ocq_destination X) (ocq_qos X) (ocq_key_stream_id X) k of
              (ksid, k') \<Rightarrow> Some (ReplyOpen (oc_answer X ksid), k'))
      else None)"
| "kms_call R L (GetKey X) k =
     (if 16384 < length (gkq_metadata X) + 32 then None
      else if kms_unknown (gkq_key_stream_id X) k
      then Some (ReplyGet (gk_answer 3 (gkq_index X) [] (gkq_metadata X)), k)
      else (case kms_get R L (gkq_key_stream_id X) (gkq_index X) (gkq_metadata X) k of
              None \<Rightarrow> None
            | Some (key, info, k') \<Rightarrow>
                (if length key + length info + 24 \<le> 16384
                 then Some (ReplyGet (gk_answer 0 (gkq_index X) key info), k') else None)))"
| "kms_call R L (Close X) k = Some (ReplyClose \<lparr>cls_status = 0\<rparr>, k)"

fun kms_calls ::
  "(u32 \<Rightarrow> nat \<Rightarrow> nat) \<Rightarrow> libuuid \<Rightarrow> qkd_request list \<Rightarrow> kms \<Rightarrow> ((bytes, bytes) reply list \<times> kms) option" where
  "kms_calls R L [] k = Some ([], k)"
| "kms_calls R L (X # Xs) k =
     (case kms_call R L X k of
        None \<Rightarrow> None
      | Some (Y, k') \<Rightarrow>
          (case kms_calls R L Xs k' of None \<Rightarrow> None | Some (Ys, k'') \<Rightarrow> Some (Y # Ys, k'')))"

fun_cases kms_calls_ConsE: "kms_calls R L (X # Xs) k = Some r"

section \<open>Memory and network\<close>

lemma at_net [simp]:
  "cstr (w\<lparr>net := n\<rparr>) p s = cstr w p s" "cbytes (w\<lparr>net := n\<rparr>) p bs = cbytes w p bs"
  "keeps (w\<lparr>net := n\<rparr>) w' = keeps w w'" "keeps w (w'\<lparr>net := n\<rparr>) = keeps w w'"
  by (simp_all add: cstr_def cbytes_def load_def keeps_def split: ptr.splits)

lemma call_at_net [simp]: "call_at (w\<lparr>net := n\<rparr>) x X = call_at w x X"
  by (cases x; cases X) (simp_all add: ocq_at_def gkq_at_def qos_at_def bytes_at_def)

lemma call_at_keeps:
  assumes "wf_mem m" "keeps m m'" "call_at m x X"
  shows "call_at m' x X"
  using assms(3) cstr_keeps [OF assms(1,2)] cbytes_keeps [OF assms(1,2)]
  by (cases x; cases X) (simp_all add: ocq_at_def gkq_at_def qos_at_def bytes_at_def)

lemma reply_at_keeps:
  assumes "wf_mem m" "keeps m m'" "reply_at m y Y"
  shows "reply_at m' y Y"
  using assms(3) cstr_keeps [OF assms(1,2)] cbytes_keeps [OF assms(1,2)]
  by (cases y; cases Y) (simp_all add: ocs_at_def gks_at_def qos_at_def bytes_at_def)

section \<open>Refinement\<close>

lemma session_get_any:
  assumes w: "session L w k" "gkq_at w x X" and step: "kms_call R L (GetKey X) k = Some (ReplyGet Y, k')"
  shows "\<exists>y w'. qkd_get_key_struct (Client.qkd_get_key (site_ssl R L) L) x w = Inr (y, w') \<and> gks_at w' y Y \<and>
    session L w' k' \<and> keeps w w'"
proof -
  have n: "site_at L 8388608 (net w) k" "wf_mem w" "no_oom w" "8 \<le> stack_size w" "16384 \<le> stack_size w"
    using w(1) by (simp_all add: session_def)
  have len: "length (gkq_metadata X) + 32 \<le> 16384" "length (enc_gkq X) = 24 + length (gkq_metadata X)"
    using step w(2) by (auto simp: gkq_at_def enc_gkq_def length_enc split: if_splits)
  have "\<exists>y w'. qkd_get_key_struct (Client.qkd_get_key (site_ssl R L) L) x w = Inr (y, w') \<and> gks_at w' y Y \<and>
    site_at L 8388608 (net w') k' \<and> wf_mem w' \<and> no_oom w' \<and> grows w {nxt w + 1, nxt w + 3, nxt w + 4} w'"
  proof (cases "kms_unknown (gkq_key_stream_id X) k")
    case True
    then have "gkq_key_stream_id X \<notin> set (map ks_id (kms_streams k))"
      using find_stream_member by (fastforce simp: kms_unknown_def)
    with site_get_unknown [OF n(1-4) w(2), of R] True step len n(5) show ?thesis
      by fastforce
  next
    case False
    with step len(1) obtain key info where
        "kms_get R L (gkq_key_stream_id X) (gkq_index X) (gkq_metadata X) k = Some (key, info, k')"
        "length key + length info + 24 \<le> 16384" "Y = gk_answer 0 (gkq_index X) key info"
      by (auto split: option.splits if_splits)
    with site_get [OF n(1-4) w(2), of R key info k'] len n(5) show ?thesis
      by auto
  qed
  then show ?thesis
    using session_grows [OF w(1)] grows_keeps by blast
qed

lemma perform_refines:
  assumes w: "session L w k" "call_at w x X" and step: "kms_call R L X k = Some (Y, k')"
  shows "\<exists>y w'. perform (site_ssl R L) L x w = Inr (y, w') \<and> reply_at w' y Y \<and> session L w' k' \<and> keeps w w'"
proof (cases X)
  case (OpenConnect Q)
  with w(2) obtain q where q: "x = CallOpen q" "ocq_at w q Q"
    by (cases x) auto
  obtain ksid where k: "fits_ocq Q" "length (enc_ocq Q) + 8 \<le> 16384" "Y = ReplyOpen (oc_answer Q ksid)"
      "kms_open L (ocq_source Q) (ocq_destination Q) (ocq_qos Q) (ocq_key_stream_id Q) k = (ksid, k')"
    using step OpenConnect by (auto split: if_splits prod.splits)
  show ?thesis
    using session_open [OF w(1) q(2) k(1,2,4), of R] q(1) k(3) by auto
next
  case (GetKey Q)
  with w(2) obtain q where q: "x = CallGet q" "gkq_at w q Q"
    by (cases x) auto
  obtain Z where Z: "Y = ReplyGet Z"
    using step GetKey by (auto split: if_splits option.splits)
  show ?thesis
    using session_get_any [OF w(1) q(2) step [unfolded GetKey Z]] q(1) Z by auto
next
  case (Close Q)
  with w(2) have q: "x = CallClose Q" "valid_clq Q"
    by (cases x; simp)+
  show ?thesis
    using session_close [OF w(1) q(2), of R] q(1) step Close by auto
qed

lemma interleave_refines:
  assumes "\<And>i. session L ((ws i)\<lparr>net := n\<rparr>) k"
    and "list_all2 (\<lambda>(i, x). call_at (ws i) x) calls Xs" "kms_calls R L Xs k = Some (Ys, k')"
  shows "\<exists>ys ws' n'. interleave (site_ssl R L) L calls ws n = Inr (ys, ws', n') \<and>
    map fst ys = map fst calls \<and> list_all2 (\<lambda>(i, y). reply_at (ws' i) y) ys Ys \<and>
    (\<forall>i. session L ((ws' i)\<lparr>net := n'\<rparr>) k') \<and> (\<forall>i. keeps (ws i) (ws' i))"
  using assms
proof (induction calls arbitrary: ws n k Xs Ys)
  case Nil
  then show ?case by auto
next
  case (Cons c calls)
  obtain i x where c: "c = (i, x)"
    by (cases c)
  obtain X Xs' where Xs: "Xs = X # Xs'" "call_at (ws i) x X" "list_all2 (\<lambda>(i, x). call_at (ws i) x) calls Xs'"
    using Cons.prems(2) c by (auto simp: list_all2_Cons1)
  obtain Y k1 Ys' where Y: "kms_call R L X k = Some (Y, k1)" "kms_calls R L Xs' k1 = Some (Ys', k')" "Ys = Y # Ys'"
    using Cons.prems(3) Xs(1) by (auto elim!: kms_calls_ConsE split: option.splits)
  obtain y w where w: "perform (site_ssl R L) L x ((ws i)\<lparr>net := n\<rparr>) = Inr (y, w)" "reply_at w y Y"
      "session L w k1" "keeps (ws i) w"
    using perform_refines [OF Cons.prems(1) _ Y(1), of i x] Xs(2) by auto
  have wf: "wf_mem (ws j)" for j
    using Cons.prems(1) [of j] by (simp add: session_def)
  have ses: "session L (((ws(i := w)) j)\<lparr>net := net w\<rparr>) k1" for j
    using w(3) Cons.prems(1) [of j] by (auto simp: session_def)
  have "list_all2 (\<lambda>(j, x). call_at ((ws(i := w)) j) x) calls Xs'"
    using Xs(3) by (rule list_all2_mono) (use call_at_keeps [OF wf w(4)] in auto)
  from Cons.IH [OF ses this Y(2)] obtain ys ws' n' where
      r: "interleave (site_ssl R L) L calls (ws(i := w)) (net w) = Inr (ys, ws', n')" "map fst ys = map fst calls"
      "list_all2 (\<lambda>(i, y). reply_at (ws' i) y) ys Ys'" "\<forall>j. session L ((ws' j)\<lparr>net := n'\<rparr>) k'"
      "\<And>j. keeps ((ws(i := w)) j) (ws' j)"
    by blast
  have "reply_at (ws' i) y Y"
    using reply_at_keeps [OF _ _ w(2)] w(3) r(5) [of i] by (simp add: session_def)
  moreover have "keeps (ws j) (ws' j)" for j
    using r(5) [of j] keeps_trans [OF w(4)] by (cases "j = i") auto
  ultimately show ?case
    using c w(1) r(1-4) Y(3) by auto
qed

section \<open>A server that does not answer\<close>

text \<open>
  The server cannot be reached, the context or the handshake fails, or the connection is closed
  before the first byte of an answer to \<open>req\<close>.
\<close>

definition unanswered :: "'n openssl \<Rightarrow> qkd_client_context_data \<Rightarrow> 'n \<Rightarrow> bytes \<Rightarrow> bool" where
  "unanswered T cf n req \<longleftrightarrow>
     (case dial T cf n of
        Inl e \<Rightarrow> True
      | Inr (ctx, c) \<Rightarrow> fst (SSL_read T (snd (SSL_write T c (int (length req)) req)) 8) = 0)"

lemma dial_fails: "dial T cf n = Inl e \<Longrightarrow> e = Exited EXIT_FAILURE"
  by (auto simp: dial_def socket_client_init_def socket_create_connection_def socket_ssl_context_create_def
      socket_ssl_context_load_certs_def socket_ssl_context_load_peer_CA_def socket_ssl_init_def Let_def bind_res_def
      split: sum.splits prod.splits if_splits option.splits)

lemma perform_request_unanswered:
  assumes "unanswered T (cfg w) (net w) req" "blocks w b = Some req" "req \<noteq> []" "length req < 2 ^ 31" "8 \<le> stack_size w"
  shows "client_perform_request T \<lparr>bytes_size = of_nat (length req), bytes_data = Ptr b 0\<rparr> w = Inl (Exited EXIT_FAILURE)"
proof (cases "dial T (cfg w) (net w)")
  case (Inl e)
  with dial_fails [OF Inl] show ?thesis
    by (simp add: client_perform_request_def dial_def)
next
  case (Inr a)
  then obtain ctx c where c: "dial T (cfg w) (net w) = Inr (ctx, c)"
    by (cases a) auto
  have "load (Ptr b 0) (length req) w = Inr req"
    using assms(2) by (simp add: load_def)
  note send = send_exact [OF this assms(3,4), of T c]
  have "socket_ssl_recv T 8 (snd (SSL_write T c (int (length req)) req)) w = Inl (Exited EXIT_FAILURE)"
    using assms(1,5) c by (intro recv_closed) (simp_all add: unanswered_def)
  with c send show ?thesis
    by (simp add: client_perform_request_def dial_def)
qed

lemma exchange_unanswered:
  assumes "unanswered T (cfg w) (net w) (packet sv P)" "length P + 8 < 2 ^ 31" "8 \<le> stack_size w"
    and packed: "make_packet sv sizeof to_stream x w =
        Inr (of_nat (8 + length P), Ptr (nxt w) 0, new_block False (packet sv P) w)"
  shows "exchange T sv sizeof to_stream x w = Inl (Exited EXIT_FAILURE)"
proof -
  let ?req = "packet sv P"
  have len: "length ?req = 8 + length P" "?req \<noteq> []"
    by (simp_all add: packet_split packet_def enc_header_def length_enc)
  have "ucast (of_nat (8 + length P) :: size_t) = (of_nat (8 + length P) :: u32)"
    using assms(2) by (intro ucast_of_nat_64_32) simp
  moreover have "client_perform_request T \<lparr>bytes_size = of_nat (8 + length P), bytes_data = Ptr (nxt w) 0\<rparr>
      (new_block False ?req w) = Inl (Exited EXIT_FAILURE)"
    using perform_request_unanswered [of T "new_block False ?req w" ?req "nxt w"] assms(1-3) len
    by (simp del: of_nat_add)
  ultimately show ?thesis
    using packed by (simp add: exchange_def del: of_nat_add)
qed

lemma perform_unanswered:
  assumes w: "wf_mem w" "no_oom w" "8 \<le> stack_size w" and L: "uuid_laws L" and x: "call_at w x X"
    and X: "request_ok stack X" "length (request_packet X) < 2 ^ 31"
    and un: "unanswered T (cfg w) (net w) (request_packet X)"
  shows "perform T L x w = Inl (Exited EXIT_FAILURE)"
proof (cases X)
  case (OpenConnect Q)
  with x obtain q where q: "x = CallOpen q" "ocq_at w q Q"
    by (cases x) auto
  let ?s = "metadata_mimetype (ocq_qos Q)"
  let ?w = "str_block ?s w" and ?q = "qos_struct (ocq_qos Q) (Ptr (nxt w) 0)"
  let ?x = "\<lparr>ocq_source = ocq_source q, ocq_destination = ocq_destination q, ocq_qos = ?q,
      ocq_key_stream_id = ocq_key_stream_id q\<rparr>"
  have Q: "fits_ocq Q" "length (enc_ocq Q) + 8 < 2 ^ 31" "length (enc_ocq Q) < 2 ^ 32" "length (ocq_key_stream_id q) = 16"
    using X OpenConnect q(2) by (simp_all add: packet_split ocq_at_def)
  have s: "qos_at w (ocq_qos q) (ocq_qos Q)" "length ?s + 1 < 2 ^ 64" "0 \<notin> set ?s"
    using q(2) Q(2) by (simp_all add: ocq_at_def enc_ocq_def length_enc qos_at_def cstr_def split: ptr.splits option.splits)
  have w1: "wf_mem ?w" "no_oom ?w" "cfg ?w = cfg w" "net ?w = net w" "stack_size ?w = stack_size w"
    using w s(2) by (simp_all add: wf_mem_str_block) (simp_all add: str_block_def)
  have "ocq_at ?w ?x Q"
    using q(2) s(3) w(1) by (auto simp: ocq_at_def str_block_def cstr_new_block valid_qos_def valid_str_def
        intro!: qos_at_struct)
  from exchange_unanswered [OF _ Q(2) _ ocq_w.make_packet_exact [OF w1(1,2) this Q(1,3)], of T 2] un w(3)
  have "exchange T 2 qkd_sizeof_open_connect_request qkd_open_connect_request_to_stream ?x ?w = Inl (Exited EXIT_FAILURE)"
    by (simp add: w1 OpenConnect)
  moreover have "qkd_copy_qos zero_qos (ocq_qos q) w = Inr (?q, ?w)"
    using copy_qos_fresh [OF w(1,2) s(1), of zero_qos] by (simp add: zero_qos_def)
  ultimately show ?thesis
    using q(1) by (simp add: qkd_open_connect_struct_def Client.qkd_open_connect_def uuid_copy_id [OF L Q(4)])
next
  case (GetKey Q)
  with x obtain q where q: "x = CallGet q" "gkq_at w q Q"
    by (cases x) auto
  have Q: "length (enc_gkq Q) + 8 < 2 ^ 31" "length (gkq_key_stream_id q) = 16" "fits_gkq Q" "length (enc_gkq Q) < 2 ^ 32"
    using X GetKey q(2) by (simp_all add: packet_split gkq_at_def fits_gkq_def fits_bytes_def enc_gkq_def length_enc)
  from exchange_unanswered [OF _ Q(1) w(3) gkq_w.make_packet_exact [OF w(1,2) q(2) Q(3,4)], of T 4] un
  have "exchange T 4 qkd_sizeof_get_key_request qkd_get_key_request_to_stream q w = Inl (Exited EXIT_FAILURE)"
    by (simp add: GetKey)
  then show ?thesis
    using q(1) uuid_copy_id [OF L Q(2)]
    by (cases q) (simp add: qkd_get_key_struct_def Client.qkd_get_key_def zero_get_key_response_def)
next
  case (Close Q)
  with x have q: "x = CallClose Q" "valid_clq Q"
    by (cases x; simp)+
  have Q: "length (enc_clq Q) + 8 < 2 ^ 31" "length (clq_key_stream_id Q) = 16" "clq_at w Q Q" "length (enc_clq Q) < 2 ^ 32"
    using q(2) by (simp_all add: valid_clq_def enc_clq_def clq_at_def)
  from exchange_unanswered [OF _ Q(1) w(3) clq_w.make_packet_exact [OF w(1,2) Q(3) _ Q(4)], of T 8] un q(2)
  have "exchange T 8 qkd_sizeof_close_request qkd_close_request_to_stream Q w = Inl (Exited EXIT_FAILURE)"
    by (simp add: Close)
  then show ?thesis
    using q(1) uuid_copy_id [OF L Q(2)] by (cases Q) (simp add: qkd_close_struct_def Client.qkd_close_def)
qed

end
