(* ===== verification/SessionProps.thy ===== *)
theory SessionProps
  imports Sessions Peers SampleSites
begin

text \<open>
  The properties of applications that share a server, and of calls that get no answer.
\<close>

section \<open>Interleaved calls\<close>

text \<open>
  C15. Applications that share a server are served as if each call were a step of the specified server.
  For any number of client processes and any interleaving of OPEN_CONNECT, GET_KEY and CLOSE calls
  whose requests and answers fit in one TLS record, every call returns without a fault the answer that
  the specification gives at that point of the sequence; every process still holds all its answers at
  the end, next to everything it had in memory before.
\<close>

theorem interleaved_calls_refine:
  assumes "\<And>i. session L ((ws i)\<lparr>net := n\<rparr>) k"
    and "list_all2 (\<lambda>(i, x). call_at (ws i) x) calls Xs" "kms_calls R L Xs k = Some (Ys, k')"
  shows "\<exists>ys ws' n'. interleave (site_ssl R L) L calls ws n = Inr (ys, ws', n') \<and>
    map fst ys = map fst calls \<and> list_all2 (\<lambda>(i, y). reply_at (ws' i) y) ys Ys \<and>
    (\<forall>i. session L ((ws' i)\<lparr>net := n'\<rparr>) k') \<and> (\<forall>i. keeps (ws i) (ws' i))"
  using assms by (rule interleave_refines)

text \<open>Two processes open the same stream, and both ask for its key of index 7.\<close>

definition shared_ksid :: bytes where
  "shared_ksid = uuid_generate_random sample_uuid 0"

definition shared_get :: "'b \<Rightarrow> 'b qkd_get_key_request" where
  "shared_get md = \<lparr>gkq_key_stream_id = shared_ksid, gkq_index = 7, gkq_metadata = md\<rparr>"

definition shared_calls :: "(nat \<times> call) list" where
  "shared_calls =
     [(0, CallOpen (sample_ocq (Ptr 0 0) (Ptr 1 0) (Ptr 2 0))), (1, CallOpen (sample_ocq (Ptr 0 0) (Ptr 1 0) (Ptr 2 0))),
      (0, CallGet (shared_get \<lparr>bytes_size = 2, bytes_data = Ptr 3 0\<rparr>)),
      (1, CallGet (shared_get \<lparr>bytes_size = 2, bytes_data = Ptr 3 0\<rparr>))]"

definition shared_requests :: "qkd_request list" where
  "shared_requests = [OpenConnect (sample_ocq [97] [98] []), OpenConnect (sample_ocq [97] [98] []),
     GetKey (shared_get [0, 0]), GetKey (shared_get [0, 0])]"

definition shared_key :: bytes where
  "shared_key = prng_bytes sample_rand (stream_seed [97] [98] 7) 2"

lemma shared_run:
  "\<exists>k'. kms_calls sample_rand sample_uuid shared_requests (sample_kms []) =
    Some ([ReplyOpen (oc_answer (sample_ocq [97] [98] []) shared_ksid),
           ReplyOpen (oc_answer (sample_ocq [97] [98] []) shared_ksid),
           ReplyGet (gk_answer 0 7 shared_key (device_info (start_config []) @ [0])),
           ReplyGet (gk_answer 0 7 shared_key (device_info (start_config []) @ [0]))], k')"
proof -
  have fits: "fits_ocq (sample_ocq [97] [98] [])" "length (enc_ocq (sample_ocq [97] [98] [])) + 8 \<le> 16384"
    by (simp_all add: sample_messages fits_ocq_def fits_mime_def enc_ocq_def length_enc)
  have "length (device_info (start_config [])) \<le> 104"
    by (rule length_device_info) (simp add: finite_float_def start_config_def)
  with fits show ?thesis
    by (simp add: shared_requests_def shared_get_def shared_ksid_def shared_key_def sample_kms_def kms_open_def oc_spec_def
        find_peer_def find_stream_def kms_unknown_def kms_get_def stream_key_def sample_ocq_def sample_qos_def Let_def)
qed

theorem interleaved_calls_refine_witness:
  "\<exists>y0 y1 z0 z1 ws' n'.
    interleave (site_ssl sample_rand sample_uuid) sample_uuid shared_calls
      (\<lambda>_. sample_client (sample_server [] [] None) [[97, 0], [98, 0], [0], [0, 0]])
      \<lparr>srv = sample_server [] [] None, inbox = []\<rparr> =
      Inr ([(0, ReplyOpen y0), (1, ReplyOpen y1), (0, ReplyGet z0), (1, ReplyGet z1)], ws', n') \<and>
    ocs_key_stream_id y0 = ocs_key_stream_id y1 \<and>
    bytes_at (ws' 0) (gks_key_buffer z0) shared_key \<and> bytes_at (ws' 1) (gks_key_buffer z1) shared_key"
proof -
  let ?w = "sample_client (sample_server [] [] None) [[97, 0], [98, 0], [0], [0, 0]]"
  let ?n = "\<lparr>srv = sample_server [] [] None, inbox = []\<rparr>"
  have "session sample_uuid ?w (sample_kms [])"
    by (rule session_sample) (simp add: less_Suc_eq)
  then have w: "session sample_uuid (?w\<lparr>net := ?n\<rparr>) (sample_kms [])"
    by (simp add: session_def)
  have calls: "list_all2 (\<lambda>(i, x). call_at ?w x) shared_calls shared_requests"
    by (simp add: shared_calls_def shared_requests_def shared_get_def shared_ksid_def sample_messages sample_at
        sample_uuid_def)
  obtain k' where run: "kms_calls sample_rand sample_uuid shared_requests (sample_kms []) =
    Some ([ReplyOpen (oc_answer (sample_ocq [97] [98] []) shared_ksid),
           ReplyOpen (oc_answer (sample_ocq [97] [98] []) shared_ksid),
           ReplyGet (gk_answer 0 7 shared_key (device_info (start_config []) @ [0])),
           ReplyGet (gk_answer 0 7 shared_key (device_info (start_config []) @ [0]))], k')"
    using shared_run by blast
  from interleaved_calls_refine [where ws = "\<lambda>_. ?w", OF w calls run] obtain ys ws' n' where
      "interleave (site_ssl sample_rand sample_uuid) sample_uuid shared_calls (\<lambda>_. ?w) ?n = Inr (ys, ws', n')"
      "map fst ys = [0, 1, 0, 1]" "list_all2 (\<lambda>(i, y). reply_at (ws' i) y) ys
        [ReplyOpen (oc_answer (sample_ocq [97] [98] []) shared_ksid),
         ReplyOpen (oc_answer (sample_ocq [97] [98] []) shared_ksid),
         ReplyGet (gk_answer 0 7 shared_key (device_info (start_config []) @ [0])),
         ReplyGet (gk_answer 0 7 shared_key (device_info (start_config []) @ [0]))]"
    by (auto simp: shared_calls_def)
  then show ?thesis
    by (auto simp: list_all2_Cons2 oc_answer_def gk_answer_def ocs_at_def gks_at_def elim!: reply_at_OpenE reply_at_GetE)
qed

section \<open>Calls without an answer\<close>

text \<open>
  C18. A call that gets no answer ends the process: when the server cannot be reached, when the TLS
  context or the handshake fails, or when the connection is closed before the answer, each of the three
  calls ends in \<open>exit(1)\<close>, and the application does not get to see a status.
\<close>

theorem unanswered_call_exits:
  assumes "wf_mem w" "no_oom w" "8 \<le> stack_size w" "uuid_laws L" "call_at w x X"
    and "request_ok stack X" "length (request_packet X) < 2 ^ 31"
    and "unanswered T (cfg w) (net w) (request_packet X)"
  shows "perform T L x w = Inl (Exited EXIT_FAILURE)"
  using assms by (rule perform_unanswered)

text \<open>A server that dies of the request of its client.\<close>

lemma turn_dies:
  assumes "server_servlet conn_ssl R L \<lparr>c_in = tls_split req, c_out = []\<rparr> (srv n) = Inl e"
  shows "inbox (turn R L req n) = []"
  using assms by (simp add: turn_def socket_ssl_init_def)

theorem unanswered_call_exits_witness:
  "perform (site_ssl sample_rand sample_uuid) sample_uuid (CallGet (sample_gkq \<lparr>bytes_size = 0, bytes_data = Ptr 0 0\<rparr>))
    (sample_client (chunk_server 32) [[]]) = Inl (Exited EXIT_FAILURE)"
proof -
  let ?X = "sample_gkq [] :: bytes qkd_get_key_request" and ?w = "sample_client (chunk_server 32) [[]]"
  let ?T = "site_ssl sample_rand sample_uuid" and ?p = "packet 4 (enc_gkq (sample_gkq []))"
  let ?c = "\<lparr>c_in = [packet 4 (enc_gkq (sample_gkq []))], c_out = []\<rparr>"
  have X: "valid_gkq ?X" "length (enc_gkq ?X) = 24" "gkq_key_stream_id ?X \<in> set (map ks_id (kms_streams (sample_kms [chunk_stream 32])))"
      "short_metadata (gkq_metadata ?X)" "request_ok 8388608 (GetKey ?X)"
    by (simp_all add: sample_gkq_def valid_gkq_def valid_bytes_def enc_gkq_def length_enc sample_kms_def chunk_stream_def
        sample_stream_def short_metadata_def)
  have "server_servlet conn_ssl sample_rand sample_uuid ?c (chunk_server 32) = Inl OutOfBounds"
    using servlet_short_metadata [OF conn_records, of ?c ?X "[]" "chunk_server 32" sample_uuid] chunk_server [of 32] X
    by (simp add: conn_recs_def)
  moreover have "tls_split ?p = [?p]"
    using X(2) by (intro tls_split_one) (simp_all add: packet_split packet_nonempty)
  ultimately have dead: "inbox (turn sample_rand sample_uuid ?p n) = []" if "srv n = chunk_server 32" for n
    using turn_dies [where R = sample_rand and L = sample_uuid and req = ?p and n = n] that by simp
  obtain ctx where "dial ?T (cfg ?w) (net ?w) = Inr (ctx, (net ?w)\<lparr>inbox := []\<rparr>)"
    using wire_ssl_dial [of inbox "\<lambda>xs n. n\<lparr>inbox := xs\<rparr>" "turn sample_rand sample_uuid" "cfg ?w" "net ?w"] by auto
  then have "unanswered ?T (cfg ?w) (net ?w) (request_packet (GetKey ?X))"
    using dead by (simp add: unanswered_def read_record_def)
  moreover have "call_at ?w (CallGet (sample_gkq \<lparr>bytes_size = 0, bytes_data = Ptr 0 0\<rparr>)) (GetKey ?X)"
    by (simp add: sample_gkq_def sample_at)
  ultimately show ?thesis
    using unanswered_call_exits [of ?w sample_uuid _ "GetKey ?X" 8388608 ?T] X(2,5)
    by (simp add: wf_sample_client packet_split del: perform.simps)
qed

end
