(* ===== verification/TextProps.thy ===== *)
theory TextProps
  imports WriteKey Utils Samples
begin

text \<open>The properties of the text the programs write: key files and dumps.\<close>

section \<open>Key files\<close>

text \<open>
  The digit counter of the key files agrees with decimal notation for every index: it is the
  length of the decimal numeral, 1 for zero, and never more than 10.
\<close>

theorem number_of_digits_decimal:
  "number_of_digits n = length (fmt_nat (unat n)) \<and> number_of_digits n \<le> 10"
proof -
  have "unat n < 10 ^ 10"
    using unat_u32_less [of n] by simp
  then show ?thesis
    using length_fmt_nat [of 10 "unat n"] by (simp add: number_of_digits_eq)
qed

text \<open>
  C29. A key file entry determines what was written: for an index below \<open>2^31\<close> the function appends
  to the file, and to no other, a line with the decimal index and a line of zeros and ones from
  which the key can be read back byte for byte.
\<close>

theorem key_file_entry_readable:
  assumes "fopen name" "bytes_at m (gks_key_buffer resp) key" "unat (gks_index resp) < 2 ^ 31"
  shows "\<exists>index bits. write_key_to_file_bit_format fopen resp name fs m =
      Inr (fs(name \<mapsto> (case fs name of None \<Rightarrow> [] | Some c \<Rightarrow> c) @ str_bytes (''Index: '' @ index) @ [10] @
        str_bytes ''Key: '' @ bits @ [10, 10])) \<and>
    digits_value index = unat (gks_index resp) \<and> set bits \<subseteq> {48, 49} \<and> length bits = 8 * length key \<and>
    read_bits bits = key"
proof -
  let ?bits = "concat (map bit_chars key)"
  have "length ?bits = 8 * length key" "set ?bits \<subseteq> {48, 49}"
    by (induction key) (auto simp: bit_chars_def)
  then show ?thesis
    using write_key_entry [of fopen name m resp key fs] assms
    by (intro exI [of _ "fmt_nat (unat (gks_index resp))"] exI [of _ ?bits])
      (simp add: key_entry_def digits_value_fmt_nat read_bits_key del: digits_value.simps)
qed

theorem key_file_entry_readable_witness:
  "\<exists>index bits. write_key_to_file_bit_format (\<lambda>_. True)
      (sample_gks \<lparr>bytes_size = 2, bytes_data = Ptr 0 0\<rparr> \<lparr>bytes_size = 0, bytes_data = NULL\<rparr>) ''k'' Map.empty
      (sample_mem False [[255, 16]]) =
      Inr ([''k'' \<mapsto> str_bytes (''Index: '' @ index) @ [10] @ str_bytes ''Key: '' @ bits @ [10, 10]]) \<and>
    read_bits bits = [255, 16]"
proof -
  let ?r = "sample_gks \<lparr>bytes_size = 2, bytes_data = Ptr 0 0\<rparr> \<lparr>bytes_size = 0, bytes_data = NULL\<rparr>"
  have "bytes_at (sample_mem False [[255, 16]]) (gks_key_buffer ?r) [255, 16]" "unat (gks_index ?r) < 2 ^ 31"
    by (simp_all add: sample_gks_def sample_at)
  from key_file_entry_readable [OF _ this, of "\<lambda>_. True" "''k''" Map.empty] show ?thesis
    by fastforce
qed

text \<open>
  C40. From index \<open>2^31\<close> on the index is printed as a negative number; up to \<open>2^32 - 10^9\<close> that
  takes eleven characters and a terminator, one more than the buffer has.
\<close>

theorem key_file_index_overruns:
  assumes "fopen name" "2 ^ 31 \<le> unat (gks_index resp)" "unat (gks_index resp) \<le> 2 ^ 32 - 10 ^ 9"
  shows "write_key_to_file_bit_format fopen resp name fs m = Inl OutOfBounds"
  using assms by (rule write_key_overflow)

theorem key_file_index_overruns_witness:
  "write_key_to_file_bit_format (\<lambda>_. True)
     ((sample_gks \<lparr>bytes_size = 0, bytes_data = NULL\<rparr> \<lparr>bytes_size = 0, bytes_data = NULL\<rparr>)\<lparr>gks_index := 0x80000000\<rparr>)
     ''k'' Map.empty (sample_mem False []) = Inl OutOfBounds"
  by (rule key_file_index_overruns) simp_all

section \<open>Dumps\<close>

text \<open>
  C30. The hexadecimal dump of a buffer of fewer than \<open>2^31\<close> bytes shows its size and every byte of
  it: the bytes can be read back from the text, whatever the grouping. A larger buffer overflows
  the loop counter.
\<close>

theorem dump_shows_buffer:
  assumes "bytes_at m d bs"
  shows "(length bs < 2 ^ 31 \<longrightarrow>
      (\<exists>text. qkd_fprintf_bytes d group_size m =
          Inr (str_bytes (''Data ('' @ fmt_nat (length bs) @ '' bytes): '') @ text @ [10]) \<and> undump text = bs)) \<and>
    (2 ^ 31 \<le> length bs \<longrightarrow> \<not> ok (qkd_fprintf_bytes d group_size m))"
proof -
  have "length bs = unat (bytes_size d)"
    using assms by (simp add: bytes_at_def)
  then show ?thesis
    using fprintf_bytes_text [OF assms, of group_size] fprintf_bytes_overflow [of d group_size m]
      undump_dump [of group_size 0 bs] by auto
qed

theorem dump_shows_buffer_witness:
  "\<exists>text. qkd_fprintf_bytes \<lparr>bytes_size = 3, bytes_data = Ptr 0 0\<rparr> 2 (sample_mem False [[1, 171, 255]]) =
      Inr (str_bytes (''Data ('' @ fmt_nat 3 @ '' bytes): '') @ text @ [10]) \<and> undump text = [1, 171, 255]"
proof -
  have "bytes_at (sample_mem False [[1, 171, 255]]) \<lparr>bytes_size = 3, bytes_data = Ptr 0 0\<rparr> [1, 171, 255]"
    by (simp add: sample_at)
  moreover have "length [1, 171, 255 :: u8] = 3" "(3 :: nat) < 2 ^ 31"
    by simp_all
  ultimately show ?thesis
    using dump_shows_buffer by metis
qed

end
