(* ===== verification/Wrapper.thy ===== *)
theory Wrapper
  imports UuidText
begin

text \<open>
  The Python extension module of \<open>wrapper.c\<close>. It is written against an earlier version of the
  interface, in which URIs and MIME types were strings with their length, the calls took the address
  of the server, returned the status and got the quality of service by value. That version is not in
  the repository (the file is commented out in the build), and neither is the C interface of
  Python: both are parameters. \<open>old_interface\<close> holds the two calls the file makes, with the
  identifier as the in-out argument it is; \<open>Py_BuildValue P fmt args\<close> is the object that
  \<open>Py_BuildValue\<close> makes of a format and the arguments that follow it.
\<close>

section \<open>Parameters\<close>

record sized_str =
  str_size :: nat
  str_text :: string

record 's old_interface =
  old_open_connect :: "string \<Rightarrow> sized_str \<Rightarrow> sized_str \<Rightarrow> sized_str qkd_qos \<Rightarrow> bytes \<Rightarrow> 's \<Rightarrow> (u32 \<times> bytes \<times> 's) res"
  old_close :: "string \<Rightarrow> bytes \<Rightarrow> 's \<Rightarrow> (u32 \<times> bytes \<times> 's) res"

datatype 'o c_arg = UnsignedArg u32 | StringArg bytes | ObjectArg 'o

record 'o python_api =
  Py_BuildValue :: "string \<Rightarrow> 'o c_arg list \<Rightarrow> 'o"

definition sized :: "string \<Rightarrow> sized_str" where
  "sized s = \<lparr>str_size = length s, str_text = s\<rparr>"

text \<open>
  \<open>uuid_parse\<close> into an array that was not initialised: its old contents \<open>old\<close> stay when the text
  does not parse.
\<close>

definition parse_into :: "uuid_text \<Rightarrow> string \<Rightarrow> bytes \<Rightarrow> bytes" where
  "parse_into U s old = (case uuid_parse U (str_bytes s) of None \<Rightarrow> old | Some u \<Rightarrow> u)"

section \<open>wrapper.c\<close>

definition wrapper_qos :: "sized_str qkd_qos" where
  "wrapper_qos = \<lparr>key_chunk_size = 1, max_bps = 2, min_bps = 3, jitter = 4, priority = 5, timeout = 6, ttl = 7,
     metadata_mimetype = sized ''hello''\<rparr>"

definition build_qos :: "'o python_api \<Rightarrow> sized_str qkd_qos \<Rightarrow> 'o" where
  "build_qos P q =
     Py_BuildValue P ''{s:I,s:I,s:I,s:I,s:I,s:I,s:I,s:s}''
       [StringArg (str_bytes ''key_chunk_size''), UnsignedArg (key_chunk_size q),
        StringArg (str_bytes ''max_bps''), UnsignedArg (max_bps q),
        StringArg (str_bytes ''min_bps''), UnsignedArg (min_bps q),
        StringArg (str_bytes ''jitter''), UnsignedArg (jitter q),
        StringArg (str_bytes ''priority''), UnsignedArg (priority q),
        StringArg (str_bytes ''timeout''), UnsignedArg (timeout q),
        StringArg (str_bytes ''ttl''), UnsignedArg (ttl q),
        StringArg (str_bytes ''metadata_mimetype''), StringArg (str_bytes (str_text (metadata_mimetype q)))]"

definition qkd_open_connect_wrapper ::
  "'s old_interface \<Rightarrow> uuid_text \<Rightarrow> 'o python_api \<Rightarrow> bytes \<Rightarrow> 's \<Rightarrow> ('o \<times> 's) res" where
  "qkd_open_connect_wrapper I U P old w =
     (let kms_address = ''localhost:1234'';
          source = sized ''qkd://app1@n1'';
          destination = sized ''qkd://app2@n2'';
          q = wrapper_qos;
          key_stream_id = parse_into U ''12345678-1234-1234-1234-123456789abc'' old
      in
      bind_res (old_open_connect I kms_address source destination q key_stream_id w)
        (\<lambda>(result, key_stream_id, w).
      let key_stream_id_r = uuid_unparse_lower U key_stream_id; qos_r = build_qos P q in
      Inr (Py_BuildValue P ''(IsO)'' [UnsignedArg result, StringArg key_stream_id_r, ObjectArg qos_r], w)))"

definition qkd_get_key_wrapper ::
  "'s old_interface \<Rightarrow> uuid_text \<Rightarrow> 'o python_api \<Rightarrow> bytes \<Rightarrow> 's \<Rightarrow> ('o \<times> 's) res" where
  "qkd_get_key_wrapper I U P old w =
     (let kms_address = ''localhost:1234'';
          source = sized ''qkd://app1@n1'';
          destination = sized ''qkd://app2@n2'';
          q = wrapper_qos;
          key_stream_id = parse_into U ''12345678-1234-1234-1234-123456789abc'' old
      in
      bind_res (old_open_connect I kms_address source destination q key_stream_id w)
        (\<lambda>(result, key_stream_id, w).
      let key_stream_id_r = uuid_unparse_lower U key_stream_id; qos_r = build_qos P q in
      Inr (Py_BuildValue P ''(IsO)'' [UnsignedArg result, StringArg key_stream_id_r, ObjectArg qos_r], w)))"

definition qkd_close_wrapper ::
  "'s old_interface \<Rightarrow> uuid_text \<Rightarrow> 'o python_api \<Rightarrow> bytes \<Rightarrow> 's \<Rightarrow> ('o \<times> 's) res" where
  "qkd_close_wrapper I U P old w =
     (let kms_address = ''localhost:1234'';
          key_stream_id = parse_into U ''12345678-1234-1234-1234-123456789abc'' old
      in
      bind_res (old_close I kms_address key_stream_id w) (\<lambda>(result, key_stream_id, w).
      Inr (Py_BuildValue P ''I'' [UnsignedArg result], w)))"

text \<open>The method table of the module.\<close>

definition CudaextMethods ::
  "(string \<times> ('s old_interface \<Rightarrow> uuid_text \<Rightarrow> 'o python_api \<Rightarrow> bytes \<Rightarrow> 's \<Rightarrow> ('o \<times> 's) res)) list" where
  "CudaextMethods =
     [(''open_connect'', qkd_open_connect_wrapper), (''get_key'', qkd_get_key_wrapper), (''close'', qkd_close_wrapper)]"

record ('s, 'o) py_module =
  m_name :: string
  m_doc :: string
  m_size :: int
  m_methods :: "(string \<times> ('s old_interface \<Rightarrow> uuid_text \<Rightarrow> 'o python_api \<Rightarrow> bytes \<Rightarrow> 's \<Rightarrow> ('o \<times> 's) res)) list"

definition qkd_ext_definition :: "('s, 'o) py_module" where
  "qkd_ext_definition =
     \<lparr>m_name = ''interface'',
      m_doc = ''A Python module extension for the standard \"etsi-gs-qkd-004\" library'',
      m_size = -1, m_methods = CudaextMethods\<rparr>"

text \<open>\<open>PyModule_Create\<close>, which makes the module object of such a definition, is a parameter too.\<close>

definition PyInit_interface :: "(('s, 'o) py_module \<Rightarrow> 'm) \<Rightarrow> 'm" where
  "PyInit_interface PyModule_Create = PyModule_Create qkd_ext_definition"

text \<open>What Python calls for a method of the module.\<close>

definition call_method ::
  "('s, 'o) py_module \<Rightarrow> string \<Rightarrow> 's old_interface \<Rightarrow> uuid_text \<Rightarrow> 'o python_api \<Rightarrow> bytes \<Rightarrow> 's \<Rightarrow> ('o \<times> 's) res option" where
  "call_method M name I U P old w = map_option (\<lambda>f. f I U P old w) (map_of (m_methods M) name)"

section \<open>What the methods do\<close>

lemma module_methods:
  "call_method qkd_ext_definition ''open_connect'' I U P old w = Some (qkd_open_connect_wrapper I U P old w)"
  "call_method qkd_ext_definition ''get_key'' I U P old w = Some (qkd_get_key_wrapper I U P old w)"
  "call_method qkd_ext_definition ''close'' I U P old w = Some (qkd_close_wrapper I U P old w)"
  by (simp_all add: call_method_def qkd_ext_definition_def CudaextMethods_def)

text \<open>The method \<open>get_key\<close> of the module opens a stream and asks for no key.\<close>

lemma python_get_key_opens_a_stream:
  "call_method qkd_ext_definition ''get_key'' I U P old w = call_method qkd_ext_definition ''open_connect'' I U P old w"
  by (simp add: module_methods qkd_get_key_wrapper_def qkd_open_connect_wrapper_def)

text \<open>The quality of service the method reports is the one it asked for, whatever the server granted.\<close>

lemma python_open_reports_requested_qos:
  assumes "call_method qkd_ext_definition ''open_connect'' I U P old w = Some (Inr (r, w'))"
  shows "\<exists>result ksid. r = Py_BuildValue P ''(IsO)''
    [UnsignedArg result, StringArg (uuid_unparse_lower U ksid), ObjectArg (build_qos P wrapper_qos)]"
  using assms by (auto simp: module_methods qkd_open_connect_wrapper_def Let_def bind_res_eq_Inr)

end
