(* ===== verification/Spec2Isabelle.thy ===== *)
theory Spec2Isabelle
  imports Samples WireProps SocketProps ServerProps LinkProps RunProps PeerProps SessionProps TextProps Wrapper
begin

text \<open>
  Verification of a C implementation of the ETSI GS QKD 004 key delivery interface: a library with
  which applications open key streams and fetch keys from a key management server over TLS, a
  server, and two client applications. File names below are those under
  \<open>src/etsi-gs-qkd-004-c/\<close>.

  \<^bold>\<open>The program.\<close> A client calls \<open>qkd_open_connect\<close>, \<open>qkd_get_key\<close> or
  \<open>qkd_close\<close>, directly or through the structure-based calls of \<open>interfaces.c\<close>. The remote
  implementation of the three (\<open>ssl_socket_client.c\<close>) serialises a request (\<open>serializers.c\<close>,
  \<open>sizes.c\<close>), sends it over a TLS connection (\<open>ssl_socket.c\<close>), receives a header and a
  payload, and decodes the response. On the other side the accept loop of \<open>ssl_socket.c\<close> hands
  each connection to the request handler (\<open>ssl_socket_server.c\<close>), which decodes the request, calls
  the server's own implementation of the same three functions (\<open>server_example.c\<close>: a linked
  list of key streams and a deterministic key generator), and sends the response. The
  applications are \<open>client_example.c\<close>, which writes keys to files
  (\<open>write_key_to_file.c\<close>), and the flat interface \<open>client_api.c\<close>. A Python module
  (\<open>wrapper.c\<close>) is in the sources but not in the build.

  \<^bold>\<open>Theories.\<close>
  \<^item> \<open>Prelude\<close>: widths, faults, results, byte order. \<open>CMem\<close>: the memory model (blocks,
    \<open>malloc\<close>, \<open>free\<close>, strings), with the assertions \<open>cstr\<close>, \<open>cbytes\<close>, \<open>grows\<close>
    and \<open>keeps\<close>. \<open>Models\<close>: \<open>models.h\<close> (its enumerations as instances of \<open>enum\<close>) and libuuid. \<open>Format\<close>: the printf conversions.
  \<^item> \<open>WireFormat\<close>: the wire format as encoders and decoders (locale \<open>wire_codec\<close>, one
    interpretation per type). \<open>Sizes\<close>, \<open>Serializers\<close>: \<open>sizes.c\<close>, \<open>serializers.c\<close>; each
    writer is shown to write the encoding and each reader to compute the decoder, on hosts of either
    byte order. \<open>Packets\<close>: header and payload in one buffer (locales \<open>message_writer\<close> and
    \<open>message_channel\<close>, interpreted for the six messages).
  \<^item> \<open>Copy\<close>, \<open>FreeUtils\<close>, \<open>Interfaces\<close>: \<open>copy.c\<close>, \<open>memory_free_utils.c\<close>,
    \<open>interfaces.c\<close>.
  \<^item> \<open>SslSocket\<close>: \<open>ssl_socket.c\<close> over OpenSSL as a parameter, with the end of every connection
    (\<open>hang_up\<close>) and of the listening socket; \<open>SslErrors\<close>: its error log. \<open>Transport\<close>: packets over a connection, the facts
    that server and client share.
  \<^item> \<open>ServerExample\<close>: \<open>server_example.c\<close>. \<open>ServerRegistry\<close>: the specification of the
    three calls on lists of streams, and that the code on the linked list refines it.
    \<open>ServerRun\<close>: reachable states as an inductive relation, their invariant, and that calls with
    well-typed arguments return well-typed results.
  \<^item> \<open>Servlet\<close>: \<open>ssl_socket_server.c\<close>; the locale \<open>key_service\<close> is what the handler
    relies on in the three functions it calls. \<open>ServerService\<close>: the abstract server \<open>kms\<close>
    and the interpretation of that locale for it; sequences of connections, among them connections
    whose handshake fails. \<open>ServerMain\<close>: the server program.
  \<^item> \<open>Client\<close>: \<open>ssl_socket_client.c\<close>; the locale \<open>request_link\<close> is what a client relies
    on in the network and the server behind it. \<open>Deployment\<close>: client and server on one wire, on
    which what is written travels in TLS records of at most \<open>2^14\<close> bytes, and
    the interpretation of that locale with the server program at its end. \<open>Peers\<close>: what lies outside
    that contract, with a second interpretation of it for a client and an arbitrary responder, and the peers a server
    does not survive (\<open>fatal_peer\<close>, an inductive predicate). \<open>UuidText\<close>,
    \<open>WriteKey\<close>, \<open>ClientExample\<close>, \<open>ClientApi\<close>, \<open>Utils\<close>: libuuid's text functions,
    \<open>write_key_to_file.c\<close>, \<open>client_example.c\<close>, \<open>client_api.c\<close>, \<open>utils.c\<close>.
    \<open>EndToEnd\<close>: whole runs of the applications. \<open>Sessions\<close>: any number of client processes on one
    server, their calls interleaved in any order (\<open>interleave\<close>, refining \<open>kms_calls\<close>), and calls that
    get no answer. \<open>Wrapper\<close>: \<open>wrapper.c\<close>.
  \<^item> \<open>Samples\<close>, \<open>SampleSites\<close>: concrete hosts, messages and deployments.
    \<open>WireProps\<close>, \<open>SocketProps\<close>, \<open>ServerProps\<close>, \<open>LinkProps\<close>, \<open>RunProps\<close>,
    \<open>PeerProps\<close>, \<open>SessionProps\<close>, \<open>TextProps\<close> and the end of this theory: the properties, each with an instance on concrete
    data.

  \<^bold>\<open>How the model corresponds to the code.\<close> A C function is a HOL function of the same name. A
  structure is a record; where it holds pointers it is a record over pointers, and \<open>ocq_at m x X\<close>
  and its like say that structure \<open>x\<close> denotes the value \<open>X\<close> in memory \<open>m\<close>. In-out
  parameters are passed and returned. State is threaded explicitly: the memory (extended by the
  server to hold its registry, its random generator and its clock, and by the client to hold the
  network), the connection, the file system. Every function that can fail returns a result whose
  left side is a fault: undefined behaviour of each kind that occurs, \<open>abort\<close>, \<open>exit\<close>, or a
  loop that does not end. Machine integers keep their width. The three functions of the interface
  have two implementations, \<open>ServerExample.qkd_open_connect\<close> and \<open>Client.qkd_open_connect\<close>
  and so on, which the build selects at link time; \<open>make_packet\<close> and \<open>exchange\<close> are statement
  sequences that the sources repeat for every message.

  \<^bold>\<open>Parameters.\<close> OpenSSL and the socket calls (\<open>'n openssl\<close>), libuuid (\<open>libuuid\<close>,
  \<open>uuid_text\<close>), \<open>rand\<close> as a function of the seed and the number of the call, the allocator and
  the contents of fresh memory, the byte order, and for \<open>wrapper.c\<close> the earlier interface it calls
  and the C interface of Python. What the properties rely on are the named predicates
  \<open>tls_records\<close> (a read returns bytes of one record), \<open>tls_progress\<close>, \<open>uuid_laws\<close>,
  \<open>uuid_text_laws\<close>, \<open>err_laws\<close>, \<open>no_oom\<close> and \<open>server_up\<close>.

  \<^bold>\<open>What is shown.\<close> Messages survive the wire; the server's calls refine a specification on lists
  of streams; every reachable registry is well-formed, and calls on it are type safe; the request handler and the server program
  implement the specified server for every sequence of well-formed requests and failed handshakes, with an exact account
  of what stays allocated; a remote call is a step of that server, and so is every call of an
  interleaving of several clients; the applications obtain the keys,
  the two ends of a stream agree on symmetric keys, and an oblivious receiver learns exactly half of
  the bits. The properties about errors say which inputs the code does not survive: messages that
  arrive in two records (keys of 16368 bytes and more) or not at all, truncated messages, GET\_KEY
  without its metadata, headers that announce more than the stack holds, unknown services, sizes and
  counters at their limits, aliased copies, identifiers that do not parse; that each of the fatal ones
  ends the server program for all later clients, and the client when no answer comes; and that a key for
  which there is no memory is reported as delivered.

  \<^bold>\<open>Bounds and termination.\<close> The receive loop is a partial function, because a read that fails can
  keep it from ending; it is shown to return when reads succeed. The searches through the linked list
  take the number of allocated objects plus one as fuel, which is enough for every list without a
  cycle (\<open>registry\<close>), and the refinement theorems show that they return. All other loops are
  recursions on a count or on data. Requests and responses are below \<open>2^31\<close> bytes, the range of the
  \<open>int\<close> that \<open>SSL_read\<close> and \<open>SSL_write\<close> take; between client and server they fit in one TLS
  record (16384 bytes with the header), since the code does not put records together. The error log is
  a partial function, shown to return under \<open>err_laws\<close>.

  \<^bold>\<open>Not modelled.\<close> Diagnostic output to the console other than the error log (the INFO and DEBUG
  logs, \<open>getpeername\<close>); the release of the client's SSL objects, which the code does not do, and of
  the server's TLS context at exit, which nothing observes; two connections served at the same time,
  which the accept loop does not do; the certificate script, a shell script around the \<open>openssl\<close>
  command. The lines that no definition models are prototypes, include guards, comments and these logs.
\<close>

section \<open>Messages on the wire\<close>

text \<open>
  C6. OPEN_CONNECT requests survive the wire. From any sender memory that holds a request whose
  MIME type has at most 255 characters, the packet is built without a fault in a buffer of its own,
  and any receiver that gets its first eight bytes in one buffer and the rest in another reads back
  the header the sender wrote and a request that denotes the same value; the receiver's memory has
  grown by exactly the three strings of the request. The byte orders of the two hosts are arbitrary.
\<close>

theorem open_connect_request_round_trip:
  assumes m1: "wf_mem m1" "no_oom m1" "ocq_at m1 x X" "fits_ocq X" "length (enc_ocq X) < 2 ^ 32"
    and L: "uuid_laws L"
    and m2: "readable m2 b (take 8 (packet service (enc_ocq X)))"
      "readable m2 b' (drop 8 (packet service (enc_ocq X)))"
  shows "make_packet service qkd_sizeof_open_connect_request qkd_open_connect_request_to_stream x m1 =
      Inr (of_nat (8 + length (enc_ocq X)), Ptr (nxt m1) 0,
           new_block False (packet service (enc_ocq X)) m1) \<and>
    qkd_header_from_stream (Ptr b 0) m2 =
      Inr (\<lparr>hdr_version = QKD_004_VERSION, hdr_service = service,
            hdr_payload_size = of_nat (length (enc_ocq X))\<rparr>, Ptr b 8) \<and>
    (\<exists>y m2'. qkd_open_connect_request_from_stream L (Ptr b' 0) m2 =
        Inr (y, Ptr b' (length (enc_ocq X)), m2') \<and>
      ocq_at m2' y X \<and> grows m2 {nxt m2, Suc (nxt m2), Suc (Suc (nxt m2))} m2')"
  using ocq_w.make_packet_exact [OF m1] ocq_c.packet_read [OF L ocq_c.at_valid [OF m1(3)] m2] by blast

theorem open_connect_request_round_trip_witness:
  "\<exists>y m2'. qkd_open_connect_request_from_stream sample_uuid (Ptr 1 0)
      (sample_mem True [take 8 (packet 2 (enc_ocq (sample_ocq [97] [98, 99] []))),
         drop 8 (packet 2 (enc_ocq (sample_ocq [97] [98, 99] [])))]) = Inr (y, Ptr 1 50, m2') \<and>
    ocq_at m2' y (sample_ocq [97] [98, 99] [])"
proof -
  let ?m1 = "sample_mem False [[97, 0], [98, 99, 0], [0]]"
  let ?x = "sample_ocq (Ptr 0 0) (Ptr 1 0) (Ptr 2 0)"
  let ?X = "sample_ocq [97] [98, 99] [] :: bytes qkd_open_connect_request"
  let ?m2 = "sample_mem True [take 8 (packet 2 (enc_ocq ?X)), drop 8 (packet 2 (enc_ocq ?X))]"
  have "ocq_at ?m1 ?x ?X" "fits_ocq ?X"
    by (simp_all add: sample_messages sample_at fits_ocq_def fits_mime_def)
  moreover have n: "length (enc_ocq ?X) = 50"
    by (simp add: sample_messages enc_ocq_def length_enc)
  moreover have "readable ?m2 0 (take 8 (packet 2 (enc_ocq ?X)))"
      "readable ?m2 1 (drop 8 (packet 2 (enc_ocq ?X)))"
    using n by (auto simp: readable_sample_mem less_Suc_eq packet_def length_enc)
  ultimately show ?thesis
    using open_connect_request_round_trip [of ?m1 ?x ?X sample_uuid ?m2 0 2 1]
    by (auto simp: wf_sample_mem less_Suc_eq)
qed

end
